(* ===== verification/Prelude.thy ===== *)
theory Prelude
  imports Main "HOL-Library.Word"
begin

text \<open>
  Shared vocabulary of the development: the collections of facts the component theories
  add to, time as Python's \<open>datetime\<close> and \<open>timedelta\<close> keep it (microseconds), the string
  functions of Python that the server calls, JSON values, and list lemmas on tables of rows.

  Text is a list of characters with the ASCII reading: \<open>lower\<close>, \<open>upper\<close> and \<open>strip\<close>
  change and remove ASCII characters only.
\<close>

section \<open>Fact collections\<close>

named_theorems run_simps \<open>how a program step runs from a given state\<close>
named_theorems run_elims \<open>what a program step that returned must have done\<close>
named_theorems frame_intros \<open>which parts of the state an operation leaves alone\<close>
named_theorems row_simps \<open>reading rows of a table after an update\<close>
named_theorems cfg_simps \<open>derived settings\<close>

section \<open>Time\<close>

text \<open>A point in time and a duration are numbers of microseconds, as in \<open>datetime\<close>.\<close>

type_synonym time = int

definition seconds :: "int \<Rightarrow> time" where
  "seconds n = 1000000 * n"

definition minutes :: "int \<Rightarrow> time" where
  "minutes n = seconds (60 * n)"

definition hours :: "int \<Rightarrow> time" where
  "hours n = seconds (3600 * n)"

definition days :: "int \<Rightarrow> time" where
  "days n = seconds (86400 * n)"

text \<open>\<open>int(x)\<close> of a number of seconds truncates towards zero.\<close>

definition int_seconds :: "time \<Rightarrow> int" where
  "int_seconds t = (if 0 \<le> t then t div 1000000 else - ((- t) div 1000000))"

lemmas time_defs = seconds_def minutes_def hours_def days_def

lemma int_seconds_seconds [simp]: "int_seconds (seconds n) = n"
proof -
  have "- (1000000 * n) div 1000000 = - n"
    using nonzero_mult_div_cancel_left [of 1000000 "- n"] by simp
  then show ?thesis by (simp add: int_seconds_def seconds_def)
qed

lemma seconds_int_seconds_le: "0 \<le> t \<Longrightarrow> seconds (int_seconds t) \<le> t"
  by (simp add: int_seconds_def seconds_def)

lemma seconds_int_seconds_gt: "0 \<le> t \<Longrightarrow> t < seconds (int_seconds t) + seconds 1"
  unfolding int_seconds_def seconds_def by presburger

lemma int_seconds_pos_iff: "0 < int_seconds t \<longleftrightarrow> seconds 1 \<le> t"
  by (auto simp: int_seconds_def seconds_def)

section \<open>JSON values\<close>

datatype jval =
  JNull | JBool bool | JInt int | JStr string
| JList "jval list" | JObj "(string \<times> jval) list"

text \<open>Python's truth value of a JSON value: what \<open>if v\<close> and \<open>bool(v)\<close> test.\<close>

fun truthy :: "jval \<Rightarrow> bool" where
  "truthy JNull = False"
| "truthy (JBool b) = b"
| "truthy (JInt i) = (i \<noteq> 0)"
| "truthy (JStr s) = (s \<noteq> [])"
| "truthy (JList xs) = (xs \<noteq> [])"
| "truthy (JObj xs) = (xs \<noteq> [])"

fun truthy_opt :: "jval option \<Rightarrow> bool" where
  "truthy_opt None = False"
| "truthy_opt (Some v) = truthy v"

section \<open>Strings\<close>

abbreviation code_of :: "char \<Rightarrow> nat" where
  "code_of c \<equiv> of_char c"

definition is_lower :: "char \<Rightarrow> bool" where
  "is_lower c \<longleftrightarrow> 97 \<le> code_of c \<and> code_of c \<le> 122"

definition is_upper :: "char \<Rightarrow> bool" where
  "is_upper c \<longleftrightarrow> 65 \<le> code_of c \<and> code_of c \<le> 90"

definition is_digit :: "char \<Rightarrow> bool" where
  "is_digit c \<longleftrightarrow> 48 \<le> code_of c \<and> code_of c \<le> 57"

definition is_alnum :: "char \<Rightarrow> bool" where
  "is_alnum c \<longleftrightarrow> is_lower c \<or> is_upper c \<or> is_digit c"

text \<open>ASCII white space for \<open>str.strip\<close>: tab to carriage return, the separators 28 to 31, blank.\<close>

definition is_space :: "char \<Rightarrow> bool" where
  "is_space c \<longleftrightarrow> (9 \<le> code_of c \<and> code_of c \<le> 13) \<or> (28 \<le> code_of c \<and> code_of c \<le> 32)"

definition lower_char :: "char \<Rightarrow> char" where
  "lower_char c = (if is_upper c then char_of (code_of c + 32) else c)"

definition upper_char :: "char \<Rightarrow> char" where
  "upper_char c = (if is_lower c then char_of (code_of c - 32) else c)"

definition lower :: "string \<Rightarrow> string" where
  "lower s = List.map lower_char s"

definition upper :: "string \<Rightarrow> string" where
  "upper s = List.map upper_char s"

definition lstrip :: "string \<Rightarrow> string" where
  "lstrip s = dropWhile is_space s"

definition strip :: "string \<Rightarrow> string" where
  "strip s = rev (lstrip (rev (lstrip s)))"

text \<open>\<open>s.split(sep)\<close> for a one-character separator: never empty, one piece per separator plus one.\<close>

fun split_on :: "char \<Rightarrow> string \<Rightarrow> string list" where
  "split_on c [] = [[]]"
| "split_on c (x # xs) =
     (if x = c then [] # split_on c xs
      else (case split_on c xs of [] \<Rightarrow> [[x]] | p # ps \<Rightarrow> (x # p) # ps))"

text \<open>\<open>sep.join(parts)\<close>.\<close>

fun join :: "string \<Rightarrow> string list \<Rightarrow> string" where
  "join sep [] = []"
| "join sep [p] = p"
| "join sep (p # q # ps) = p @ sep @ join sep (q # ps)"

text \<open>Decimal digits of a number, as \<open>str(n)\<close> and the format strings print them.\<close>

fun digit_char :: "nat \<Rightarrow> char" where
  "digit_char d = char_of (48 + d)"

fun str_nat :: "nat \<Rightarrow> string" where
  "str_nat n = (if n < 10 then [digit_char n] else str_nat (n div 10) @ [digit_char (n mod 10)])"

declare str_nat.simps [simp del]

definition str_int :: "int \<Rightarrow> string" where
  "str_int i = (if i < 0 then ''-'' @ str_nat (nat (- i)) else str_nat (nat i))"

lemma char_case_disjoint: "is_lower c \<Longrightarrow> \<not> is_upper c"
  by (auto simp: is_lower_def is_upper_def)

lemma is_upper_lower_char [simp]: "\<not> is_upper (lower_char c)"
proof (cases "is_upper c")
  case True
  then have "(of_char (char_of (code_of c + 32)) :: nat) = code_of c + 32"
    by (simp add: is_upper_def)
  with True show ?thesis by (simp add: lower_char_def is_upper_def)
qed (simp add: lower_char_def)

lemma lower_char_idem [simp]: "lower_char (lower_char c) = lower_char c"
  using is_upper_lower_char [of c] by (simp only: lower_char_def [of "lower_char c"] if_False)

lemma lower_idem [simp]: "lower (lower s) = lower s"
  by (simp add: lower_def)

lemma length_lower [simp]: "length (lower s) = length s"
  by (simp add: lower_def)

lemma lower_append [simp]: "lower (s @ t) = lower s @ lower t"
  by (simp add: lower_def)

lemma is_alnum_lower_char: "is_alnum (lower_char c) = is_alnum c"
proof (cases "is_upper c")
  case True
  then have "(of_char (char_of (code_of c + 32)) :: nat) = code_of c + 32"
    by (simp add: is_upper_def)
  with True show ?thesis
    by (auto simp: lower_char_def is_alnum_def is_upper_def is_lower_def)
qed (simp add: lower_char_def)

lemma list_all_alnum_lower: "list_all is_alnum (lower s) = list_all is_alnum s"
  by (simp add: lower_def list_all_iff is_alnum_lower_char)

lemma split_on_nonempty [simp]: "split_on c s \<noteq> []"
  by (induction s) (auto split: list.splits)

lemma split_on_hd_append:
  "c \<notin> set p \<Longrightarrow> hd (split_on c (p @ c # q)) = p"
  by (induction p) (auto split: list.splits)

lemma split_on_join_roundtrip: "join [c] (split_on c s) = s"
proof (induction s)
  case (Cons x xs)
  then show ?case
    by (cases "split_on c xs"; cases "tl (split_on c xs)") auto
qed simp

lemma lstrip_no_space: "s = [] \<or> \<not> is_space (hd s) \<Longrightarrow> lstrip s = s"
  by (cases s) (auto simp: lstrip_def)

lemma dropWhile_none: "\<forall>x \<in> set xs. \<not> P x \<Longrightarrow> dropWhile P xs = xs"
  by (cases xs) auto

lemma strip_no_space: "list_all (\<lambda>c. \<not> is_space c) s \<Longrightarrow> strip s = s"
  by (simp add: strip_def lstrip_def list_all_iff dropWhile_none)

lemma upt_Suc_map: "[0..<Suc n] = 0 # List.map Suc [0..<n]"
  by (simp add: upt_conv_Cons map_Suc_upt del: upt_Suc)

section \<open>Rows of a table\<close>

text \<open>
  A table is the list of its rows. \<open>update_where\<close> is what writing attributes of loaded rows
  does at the next flush, \<open>delete_where\<close> is \<open>DELETE FROM \<dots> WHERE \<dots>\<close>.
\<close>

definition update_where :: "('row \<Rightarrow> bool) \<Rightarrow> ('row \<Rightarrow> 'row) \<Rightarrow> 'row list \<Rightarrow> 'row list" where
  "update_where p f rows = List.map (\<lambda>r. if p r then f r else r) rows"

definition delete_where :: "('row \<Rightarrow> bool) \<Rightarrow> 'row list \<Rightarrow> 'row list" where
  "delete_where p rows = filter (\<lambda>r. \<not> p r) rows"

lemma update_where_Nil [simp]: "update_where p f [] = []"
  by (simp add: update_where_def)

lemma update_where_Cons [simp]:
  "update_where p f (r # rs) = (if p r then f r else r) # update_where p f rs"
  by (simp add: update_where_def)

lemma length_update_where [simp]: "length (update_where p f rows) = length rows"
  by (simp add: update_where_def)

lemma set_update_where:
  "set (update_where p f rows) = (\<lambda>r. if p r then f r else r) ` set rows"
  by (simp add: update_where_def)

lemma in_update_where:
  "x \<in> set (update_where p f rows) \<longleftrightarrow>
     (\<exists>r \<in> set rows. p r \<and> x = f r) \<or> (x \<in> set rows \<and> \<not> p x)"
  by (auto simp: set_update_where)

lemma map_update_where [row_simps]:
  "(\<And>r. p r \<Longrightarrow> k (f r) = k r) \<Longrightarrow> List.map k (update_where p f rows) = List.map k rows"
  by (simp add: update_where_def)

lemma filter_update_where_same [row_simps]:
  "(\<And>r. p r \<Longrightarrow> q (f r) = q r) \<Longrightarrow>
     filter q (update_where p f rows) = update_where p f (filter q rows)"
  by (induction rows) auto

lemma update_where_none [row_simps]:
  "(\<And>r. r \<in> set rows \<Longrightarrow> \<not> p r) \<Longrightarrow> update_where p f rows = rows"
  by (induction rows) auto

lemma set_delete_where [simp]: "set (delete_where p rows) = {r \<in> set rows. \<not> p r}"
  by (simp add: delete_where_def)

lemma filter_single:
  "distinct (List.map k rows) \<Longrightarrow> r \<in> set rows \<Longrightarrow> filter (\<lambda>x. k x = k r) rows = [r]"
  by (induction rows) (auto simp: filter_empty_conv image_iff)

lemma filter_key_at_most_one:
  "distinct (List.map k rows) \<Longrightarrow> filter (\<lambda>x. k x = v) rows = [] \<or>
     (\<exists>r \<in> set rows. k r = v \<and> filter (\<lambda>x. k x = v) rows = [r])"
  using filter_single [of k rows] by (auto simp: filter_empty_conv)

lemma find_filter: "List.find p xs = (case filter p xs of [] \<Rightarrow> None | x # _ \<Rightarrow> Some x)"
  by (induction xs) auto

text \<open>A row is found by its key.\<close>

lemma find_key:
  "distinct (List.map k rows) \<Longrightarrow> r \<in> set rows \<Longrightarrow> v = k r \<Longrightarrow> List.find (\<lambda>x. k x = v) rows = Some r"
  by (simp add: find_filter filter_single)

lemma find_cases:
  assumes "(\<And>x. x \<in> set xs \<Longrightarrow> \<not> q x) \<Longrightarrow> P None" and "\<And>x. x \<in> set xs \<Longrightarrow> q x \<Longrightarrow> P (Some x)"
  shows "P (List.find q xs)"
  using assms by (induction xs) auto

lemma find_update_where [row_simps]:
  "(\<And>r. p r \<Longrightarrow> q (f r) = q r) \<Longrightarrow>
     List.find q (update_where p f rows) = map_option (\<lambda>r. if p r then f r else r) (List.find q rows)"
  by (induction rows) auto

lemma find_append: "List.find q (xs @ ys) = (case List.find q xs of None \<Rightarrow> List.find q ys | Some x \<Rightarrow> Some x)"
  by (induction xs) auto

text \<open>Rewriting one row so that it no longer qualifies takes it out of the selection.\<close>

lemma filter_update_where_out:
  assumes "distinct (List.map k rows)" and "r \<in> set rows" and "q r" and "\<not> q (f r)"
  shows "filter q (update_where (\<lambda>x. k x = k r) f rows) = remove1 r (filter q rows)"
  using assms
proof (induction rows)
  case (Cons x xs)
  show ?case
  proof (cases "x = r")
    case True
    with Cons.prems have "\<And>y. y \<in> set xs \<Longrightarrow> k y \<noteq> k r" by (auto simp: image_iff)
    then have "update_where (\<lambda>y. k y = k r) f xs = xs" by (rule update_where_none)
    with True Cons.prems show ?thesis by simp
  next
    case False
    with Cons.prems have "r \<in> set xs" "k x \<noteq> k r" by (auto simp: image_iff)
    with False Cons show ?thesis by auto
  qed
qed simp

end
