(* ===== verification/Errors.thy ===== *)
theory Errors
  imports Prelude
begin

text \<open>
  The exception hierarchy of \<^verbatim>\<open>app/core/exceptions.py\<close> and its handlers. An exception in
  flight is a value of \<open>exn\<close>: an application error (class, message, detail), an error of the
  Redis client, or one of the Python exceptions the server lets escape. The registered
  handlers turn it into a JSON response.
\<close>

section \<open>The hierarchy\<close>

datatype err_class =
  AppError | AuthError | PermissionDenied | NotFoundError | ConflictError | ValidationError
| RateLimited | ServiceUnavailable | AccountLocked | TokenReplayError

fun status_code :: "err_class \<Rightarrow> nat" where
  "status_code AppError = 500"
| "status_code AuthError = 401"
| "status_code PermissionDenied = 403"
| "status_code NotFoundError = 404"
| "status_code ConflictError = 409"
| "status_code ValidationError = 422"
| "status_code RateLimited = 429"
| "status_code ServiceUnavailable = 503"
| "status_code AccountLocked = 401"
| "status_code TokenReplayError = 401"

fun error_code :: "err_class \<Rightarrow> string" where
  "error_code AppError = ''internal_error''"
| "error_code AuthError = ''authentication_error''"
| "error_code PermissionDenied = ''permission_denied''"
| "error_code NotFoundError = ''not_found''"
| "error_code ConflictError = ''conflict''"
| "error_code ValidationError = ''validation_error''"
| "error_code RateLimited = ''rate_limited''"
| "error_code ServiceUnavailable = ''service_unavailable''"
| "error_code AccountLocked = ''account_locked''"
| "error_code TokenReplayError = ''token_replay_detected''"

fun class_message :: "err_class \<Rightarrow> string" where
  "class_message AppError = ''An unexpected error occurred.''"
| "class_message AuthError = ''Authentication failed.''"
| "class_message PermissionDenied = ''You do not have permission to perform this action.''"
| "class_message NotFoundError = ''Resource not found.''"
| "class_message ConflictError = ''Resource already exists.''"
| "class_message ValidationError = ''Invalid input.''"
| "class_message RateLimited = ''Too many requests. Please try again later.''"
| "class_message ServiceUnavailable = ''A dependency is temporarily unavailable. Please retry.''"
| "class_message AccountLocked =
     ''Account temporarily locked due to too many failed attempts.''"
| "class_message TokenReplayError = ''Refresh token reuse detected.''"

text \<open>The bases of a class: \<open>isinstance(exc, C)\<close> is \<open>C \<in> bases (class of exc)\<close>.\<close>

fun bases :: "err_class \<Rightarrow> err_class list" where
  "bases AppError = [AppError]"
| "bases AccountLocked = [AccountLocked, AuthError, AppError]"
| "bases TokenReplayError = [TokenReplayError, AuthError, AppError]"
| "bases c = [c, AppError]"

record app_error =
  err_class :: err_class
  err_message :: string
  err_detail :: "jval option"

text \<open>\<open>AppError.__init__\<close>: an absent or empty message falls back to the class message.\<close>

definition init_error :: "err_class \<Rightarrow> string option \<Rightarrow> jval option \<Rightarrow> app_error" where
  "init_error c message detail =
     \<lparr>err_class = c,
      err_message = (case message of
          None \<Rightarrow> class_message c
        | Some m \<Rightarrow> if m = [] then class_message c else m),
      err_detail = detail\<rparr>"

text \<open>
  Exceptions that are not application errors: an error of the Redis client
  (\<open>RedisError\<close> or \<open>ConnectionError\<close>), a violated constraint at a flush, more than one row
  where \<open>scalar_one_or_none\<close> allows one, a request that fails the validation of its schema (with
  what pydantic reports about it), and the built-in ones.
\<close>

datatype exn =
  App app_error
| RequestValidationError jval
| RedisError | IntegrityError | MultipleResultsFound
| ValueError | KeyError | TypeError | RuntimeError | DecryptionError | PyJWTError | OtherError

abbreviation err :: "err_class \<Rightarrow> string \<Rightarrow> exn" where
  "err c m \<equiv> App (init_error c (Some m) None)"

abbreviation err0 :: "err_class \<Rightarrow> exn" where
  "err0 c \<equiv> App (init_error c None None)"

fun is_instance :: "exn \<Rightarrow> err_class \<Rightarrow> bool" where
  "is_instance (App e) c = (c \<in> set (bases (err_class e)))"
| "is_instance _ c = False"

lemma err_class_init_error [simp]: "err_class (init_error c m d) = c"
  by (simp add: init_error_def)

lemma err_message_init_error [simp]:
  "err_message (init_error c None d) = class_message c"
  "m \<noteq> [] \<Longrightarrow> err_message (init_error c (Some m) d) = m"
  by (simp_all add: init_error_def)

lemma err_detail_init_error [simp]: "err_detail (init_error c m d) = d"
  by (simp add: init_error_def)

text \<open>Two errors of different classes, or with different messages, are different.\<close>

lemma init_error_eq_iff [simp]:
  "init_error c m d = init_error c' m' d' \<longleftrightarrow>
     c = c' \<and> err_message (init_error c m d) = err_message (init_error c' m' d') \<and> d = d'"
  by (auto simp: init_error_def)

section \<open>Responses and the registered handlers\<close>

text \<open>
  A cookie instruction of a response: \<open>set_cookie\<close> with its value, lifetime and attributes,
  or \<open>delete_cookie\<close>.
\<close>

record cookie_attrs =
  c_max_age :: int
  c_httponly :: bool
  c_secure :: bool
  c_samesite :: string
  c_domain :: "string option"
  c_path :: string

datatype cookie_op =
  SetCookie string string cookie_attrs
| DeleteCookie string string "string option" string

record response =
  status :: nat
  body :: jval
  cookies :: "cookie_op list"
  resp_headers :: "(string \<times> string) list"

definition json_response :: "nat \<Rightarrow> jval \<Rightarrow> response" where
  "json_response code content =
     \<lparr>status = code, body = content, cookies = [], resp_headers = []\<rparr>"

text \<open>\<open>_payload\<close>: the body of an application error.\<close>

definition payload_of :: "app_error \<Rightarrow> jval" where
  "payload_of e = JObj
     ([(''error'', JStr (error_code (err_class e))), (''detail'', JStr (err_message e))] @
      (case err_detail e of None \<Rightarrow> [] | Some d \<Rightarrow> [(''context'', d)]))"

text \<open>
  \<open>register_exception_handlers\<close>: application errors carry their own status; every other
  exception is answered with a fixed body and status 500. Validation errors of the request
  and HTTP errors of the framework have handlers of their own.
\<close>

definition handle_validation_error :: "jval \<Rightarrow> response" where
  "handle_validation_error errors = json_response 422
     (JObj [(''error'', JStr ''validation_error''),
            (''detail'', JStr ''Request validation failed.''),
            (''context'', errors)])"

fun handle_exn :: "exn \<Rightarrow> response" where
  "handle_exn (App e) = json_response (status_code (err_class e)) (payload_of e)"
| "handle_exn (RequestValidationError errors) = handle_validation_error errors"
| "handle_exn _ = json_response 500
     (JObj [(''error'', JStr ''internal_error''),
            (''detail'', JStr ''An unexpected error occurred.'')])"

definition handle_http_exception :: "nat \<Rightarrow> string \<Rightarrow> response" where
  "handle_http_exception code detail = json_response code
     (JObj [(''error'', JStr ''http_error''), (''detail'', JStr detail)])"

text \<open>\<open>True\<close> where the handler logs the exception (\<open>logger.error\<close>).\<close>

fun logs_exn :: "exn \<Rightarrow> bool" where
  "logs_exn (App e) = (status_code (err_class e) \<ge> 500)"
| "logs_exn (RequestValidationError errors) = False"
| "logs_exn _ = True"

lemma handle_exn_no_cookies [simp]: "cookies (handle_exn e) = []"
  by (cases e) (simp_all add: json_response_def handle_validation_error_def)

lemma status_of_instance:
  "is_instance e AuthError \<Longrightarrow> status (handle_exn e) = 401"
proof (cases e)
  case (App a)
  assume "is_instance e AuthError"
  then show ?thesis
    using App by (cases "err_class a") (simp_all add: json_response_def)
qed simp_all

text \<open>
  The exceptions with a handler of their own; the others are answered outside of every
  middleware, and the answer reveals nothing of them.
\<close>

fun expected :: "exn \<Rightarrow> bool" where
  "expected (App a) = True"
| "expected (RequestValidationError errors) = True"
| "expected _ = False"

lemma handle_unexpected: "\<not> expected e \<Longrightarrow> handle_exn e = handle_exn OtherError"
  by (cases e) simp_all

end
