(* ===== verification/Program.thy ===== *)
theory Program
  imports Errors
begin

text \<open>
  Programs: a step takes the state and gives either an exception or a value, with the state
  at that point (an exception does not undo what was done before it). \<open>bnd\<close> is \<open>;\<close> and
  \<open>await\<close>, \<open>try_except\<close> is \<open>try \<dots> except\<close>. The facts below run a program forward
  (\<open>run_simps\<close>), invert a returned result (\<open>run_elims\<close>) and carry a relation between the
  states before and after through a program (locale \<open>frame\<close>).
\<close>

type_synonym ('w, 'a) prog = "'w \<Rightarrow> (exn + 'a) \<times> 'w"

definition ret :: "'a \<Rightarrow> ('w, 'a) prog" where
  "ret x w = (Inr x, w)"

definition raise :: "exn \<Rightarrow> ('w, 'a) prog" where
  "raise e w = (Inl e, w)"

definition bnd :: "('w, 'a) prog \<Rightarrow> ('a \<Rightarrow> ('w, 'b) prog) \<Rightarrow> ('w, 'b) prog" where
  "bnd m f w = (case m w of (Inl e, w') \<Rightarrow> (Inl e, w') | (Inr x, w') \<Rightarrow> f x w')"

definition try_except ::
    "('w, 'a) prog \<Rightarrow> (exn \<Rightarrow> bool) \<Rightarrow> (exn \<Rightarrow> ('w, 'a) prog) \<Rightarrow> ('w, 'a) prog" where
  "try_except m catches handler w =
     (case m w of (Inl e, w') \<Rightarrow> (if catches e then handler e w' else (Inl e, w'))
                | (Inr x, w') \<Rightarrow> (Inr x, w'))"

definition get_state :: "('w \<Rightarrow> 'a) \<Rightarrow> ('w, 'a) prog" where
  "get_state f w = (Inr (f w), w)"

definition upd_state :: "('w \<Rightarrow> 'w) \<Rightarrow> ('w, unit) prog" where
  "upd_state f w = (Inr (), f w)"

definition when_do :: "bool \<Rightarrow> ('w, unit) prog \<Rightarrow> ('w, unit) prog" where
  "when_do b m = (if b then m else ret ())"

text \<open>A value of \<open>exn + 'a\<close> computed by a pure function, as a program.\<close>

fun lift_sum :: "exn + 'a \<Rightarrow> ('w, 'a) prog" where
  "lift_sum (Inl e) w = (Inl e, w)"
| "lift_sum (Inr x) w = (Inr x, w)"

text \<open>\<open>for x in xs: body\<close>.\<close>

fun for_each :: "('a \<Rightarrow> ('w, unit) prog) \<Rightarrow> 'a list \<Rightarrow> ('w, unit) prog" where
  "for_each f [] w = (Inr (), w)"
| "for_each f (x # xs) w = bnd (f x) (\<lambda>_. for_each f xs) w"

section \<open>Running forward\<close>

lemma ret_run [simp, run_simps]: "ret x w = (Inr x, w)"
  by (simp add: ret_def)

lemma raise_run [simp, run_simps]: "raise e w = (Inl e, w)"
  by (simp add: raise_def)

lemma get_state_run [simp, run_simps]: "get_state f w = (Inr (f w), w)"
  by (simp add: get_state_def)

lemma upd_state_run [simp, run_simps]: "upd_state f w = (Inr (), f w)"
  by (simp add: upd_state_def)

lemma bnd_Inr [run_simps]: "m w = (Inr x, w') \<Longrightarrow> bnd m f w = f x w'"
  by (simp add: bnd_def)

lemma bnd_Inl [run_simps]: "m w = (Inl e, w') \<Longrightarrow> bnd m f w = (Inl e, w')"
  by (simp add: bnd_def)

lemma bnd_ret [simp]: "bnd (ret x) f = f x"
  by (rule ext) (simp add: bnd_def)

lemma bnd_raise [simp]: "bnd (raise e) f = raise e"
  by (rule ext) (simp add: bnd_def)

lemma bnd_get_state [simp]: "bnd (get_state g) f w = f (g w) w"
  by (simp add: bnd_def)

lemma bnd_upd_state [simp]: "bnd (upd_state g) f w = f () (g w)"
  by (simp add: bnd_def)

lemma lift_sum_Inr [simp]: "lift_sum (Inr x) = ret x"
  and lift_sum_Inl [simp]: "lift_sum (Inl e) = raise e"
  by (simp_all add: fun_eq_iff)

lemma bnd_assoc: "bnd (bnd m f) g = bnd m (\<lambda>x. bnd (f x) g)"
  by (rule ext) (simp add: bnd_def split: prod.splits sum.splits)

lemma bnd_if [simp]: "bnd (if b then m else m') f = (if b then bnd m f else bnd m' f)"
  by simp

lemma when_do_simps [simp]: "when_do True m = m" "when_do False m = ret ()"
  by (simp_all add: when_do_def)

lemma try_except_Inr [run_simps]:
  "m w = (Inr x, w') \<Longrightarrow> try_except m c h w = (Inr x, w')"
  by (simp add: try_except_def)

lemma try_except_Inl [run_simps]:
  "m w = (Inl e, w') \<Longrightarrow> try_except m c h w = (if c e then h e w' else (Inl e, w'))"
  by (simp add: try_except_def)

section \<open>Inverting a result\<close>

lemma bnd_eq_Inr:
  "bnd m f w = (Inr y, w'') \<longleftrightarrow> (\<exists>x w'. m w = (Inr x, w') \<and> f x w' = (Inr y, w''))"
  by (auto simp: bnd_def split: prod.splits sum.splits)

lemma bnd_eq_Inl:
  "bnd m f w = (Inl e, w'') \<longleftrightarrow>
     m w = (Inl e, w'') \<or> (\<exists>x w'. m w = (Inr x, w') \<and> f x w' = (Inl e, w''))"
  by (auto simp: bnd_def split: prod.splits sum.splits)

lemma bnd_InrE [run_elims]:
  assumes "bnd m f w = (Inr y, w'')"
  obtains x w' where "m w = (Inr x, w')" "f x w' = (Inr y, w'')"
  using assms by (auto simp: bnd_eq_Inr)

lemma try_except_eq_Inr:
  "try_except m c h w = (Inr y, w'') \<longleftrightarrow>
     m w = (Inr y, w'') \<or> (\<exists>e w'. m w = (Inl e, w') \<and> c e \<and> h e w' = (Inr y, w''))"
  by (auto simp: try_except_def split: prod.splits sum.splits)

lemma try_except_eq_Inl:
  "try_except m c h w = (Inl e, w'') \<longleftrightarrow>
     (m w = (Inl e, w'') \<and> \<not> c e) \<or>
     (\<exists>e' w'. m w = (Inl e', w') \<and> c e' \<and> h e' w' = (Inl e, w''))"
  by (auto simp: try_except_def split: prod.splits sum.splits)

lemma lift_sum_eq [simp]:
  "lift_sum s w = (Inr x, w') \<longleftrightarrow> s = Inr x \<and> w' = w"
  "lift_sum s w = (Inl e, w') \<longleftrightarrow> s = Inl e \<and> w' = w"
  by (cases s; auto)+

lemma when_do_eq_Inr:
  "when_do b m w = (Inr u, w') \<longleftrightarrow> (if b then m w = (Inr (), w') else w' = w)"
  by (cases b) auto

lemma for_each_append:
  "for_each f (xs @ ys) w = bnd (for_each f xs) (\<lambda>_. for_each f ys) w"
proof (induction xs arbitrary: w)
  case (Cons x xs)
  then show ?case by (auto simp: bnd_def split: prod.splits sum.splits)
qed (simp add: bnd_def)

section \<open>Outcomes\<close>

text \<open>
  \<open>runs m w S F\<close>: from \<open>w\<close>, the program \<open>m\<close> ends with a value and a state that satisfy \<open>S\<close>, or
  with an exception and a state that satisfy \<open>F\<close>. The rules \<open>runs_intros\<close> take a program
  apart, one call at a time.
\<close>

definition runs ::
    "('w, 'a) prog \<Rightarrow> 'w \<Rightarrow> ('a \<Rightarrow> 'w \<Rightarrow> bool) \<Rightarrow> (exn \<Rightarrow> 'w \<Rightarrow> bool) \<Rightarrow> bool" where
  "runs m w S F = (case m w of (Inr x, w') \<Rightarrow> S x w' | (Inl e, w') \<Rightarrow> F e w')"

named_theorems runs_intros \<open>rules for the outcome of a program\<close>

lemma runs_InrD: "runs m w S F \<Longrightarrow> m w = (Inr x, w') \<Longrightarrow> S x w'"
  by (simp add: runs_def)

lemma runs_InlD: "runs m w S F \<Longrightarrow> m w = (Inl e, w') \<Longrightarrow> F e w'"
  by (simp add: runs_def)

text \<open>A statement on the whole result, proved by its two halves.\<close>

lemma runs_resultD:
  "runs m w (\<lambda>x w'. Q (Inr x) w') (\<lambda>e w'. Q (Inl e) w') \<Longrightarrow> m w = (r, w') \<Longrightarrow> Q r w'"
  by (cases r) (simp_all add: runs_def)

lemma runs_returnsD: "runs m w S (\<lambda>_ _. False) \<Longrightarrow> \<exists>x w'. m w = (Inr x, w') \<and> S x w'"
  by (auto simp: runs_def split: prod.splits sum.splits)

lemma runs_raisesD: "runs m w (\<lambda>_ _. False) F \<Longrightarrow> \<exists>e w'. m w = (Inl e, w') \<and> F e w'"
  by (auto simp: runs_def split: prod.splits sum.splits)

lemma runs_decides:
  "runs m w (\<lambda>_ _. P) (\<lambda>_ _. \<not> P) \<Longrightarrow> (\<exists>x. fst (m w) = Inr x) \<longleftrightarrow> P"
  by (auto simp: runs_def split: prod.splits sum.splits)

text \<open>A conclusion about the state alone.\<close>

lemma runs_stateD: "runs m w (\<lambda>_. P) (\<lambda>_. P) \<Longrightarrow> P (snd (m w))"
  by (auto simp: runs_def split: prod.splits sum.splits)

lemma runs_mono:
  "runs m w S F \<Longrightarrow> (\<And>x w'. S x w' \<Longrightarrow> S' x w') \<Longrightarrow> (\<And>e w'. F e w' \<Longrightarrow> F' e w') \<Longrightarrow> runs m w S' F'"
  by (auto simp: runs_def split: prod.splits sum.splits)

lemma runs_conj:
  "runs m w S F \<Longrightarrow> runs m w S' F' \<Longrightarrow>
     runs m w (\<lambda>x w'. S x w' \<and> S' x w') (\<lambda>e w'. F e w' \<and> F' e w')"
  by (auto simp: runs_def split: prod.splits sum.splits)

lemma runs_bnd [runs_intros]:
  "runs m w (\<lambda>x w'. runs (f x) w' S F) F \<Longrightarrow> runs (bnd m f) w S F"
  by (auto simp: runs_def bnd_def split: prod.splits sum.splits)

text \<open>A call whose result is described by \<open>R\<close> and that does not raise, or raises only what \<open>G\<close> allows.\<close>

lemma runs_seq:
  "runs m w R G \<Longrightarrow> (\<And>x w'. R x w' \<Longrightarrow> runs (f x) w' S F) \<Longrightarrow> (\<And>e w'. G e w' \<Longrightarrow> F e w') \<Longrightarrow>
     runs (bnd m f) w S F"
  by (rule runs_bnd) (erule runs_mono; blast)

lemma runs_try_except [runs_intros]:
  "runs m w S (\<lambda>e w'. if c e then runs (h e) w' S F else F e w') \<Longrightarrow>
     runs (try_except m c h) w S F"
  by (auto simp: runs_def try_except_def split: prod.splits sum.splits if_splits)

lemma runs_ret [runs_intros]: "S x w \<Longrightarrow> runs (ret x) w S F"
  by (simp add: runs_def)

lemma runs_raise [runs_intros]: "F e w \<Longrightarrow> runs (raise e) w S F"
  by (simp add: runs_def)

lemma runs_get_state [runs_intros]: "S (f w) w \<Longrightarrow> runs (get_state f) w S F"
  by (simp add: runs_def)

lemma runs_upd_state [runs_intros]: "S () (f w) \<Longrightarrow> runs (upd_state f) w S F"
  by (simp add: runs_def)

lemma runs_lift_sum [runs_intros]:
  "(\<And>x. s = Inr x \<Longrightarrow> S x w) \<Longrightarrow> (\<And>e. s = Inl e \<Longrightarrow> F e w) \<Longrightarrow> runs (lift_sum s) w S F"
  by (cases s) (simp_all add: runs_def)

lemma runs_if [runs_intros]:
  "(b \<Longrightarrow> runs m w S F) \<Longrightarrow> (\<not> b \<Longrightarrow> runs m' w S F) \<Longrightarrow> runs (if b then m else m') w S F"
  by simp

lemma runs_when_do [runs_intros]:
  "(b \<Longrightarrow> runs m w S F) \<Longrightarrow> (\<not> b \<Longrightarrow> S () w) \<Longrightarrow> runs (when_do b m) w S F"
  by (cases b) (simp_all add: runs_def)

lemma runs_case_option [runs_intros]:
  "(v = None \<Longrightarrow> runs m w S F) \<Longrightarrow> (\<And>x. v = Some x \<Longrightarrow> runs (f x) w S F) \<Longrightarrow>
     runs (case v of None \<Rightarrow> m | Some x \<Rightarrow> f x) w S F"
  by (cases v) simp_all

lemma runs_case_prod [runs_intros]:
  "(\<And>a b. p = (a, b) \<Longrightarrow> runs (f a b) w S F) \<Longrightarrow> runs (case p of (a, b) \<Rightarrow> f a b) w S F"
  by (cases p) simp

text \<open>A loop with an invariant on the elements still to do.\<close>

lemma runs_for_each:
  assumes inv: "I xs w"
    and step: "\<And>x ys v. I (x # ys) v \<Longrightarrow> runs (f x) v (\<lambda>_ v'. I ys v') F"
    and done_: "\<And>v. I [] v \<Longrightarrow> S () v"
  shows "runs (for_each f xs) w S F"
  using inv
proof (induction xs arbitrary: w)
  case Nil
  then show ?case by (simp add: runs_def done_)
next
  case (Cons x xs)
  have "runs (bnd (f x) (\<lambda>_. for_each f xs)) w S F"
    by (rule runs_bnd, rule runs_mono [OF step [OF Cons.prems]]) (auto intro: Cons.IH)
  then show ?case by (simp add: runs_def)
qed

section \<open>Which exceptions escape\<close>

definition raises_only :: "(exn \<Rightarrow> bool) \<Rightarrow> ('w, 'a) prog \<Rightarrow> bool" where
  "raises_only S m \<longleftrightarrow> (\<forall>w e w'. m w = (Inl e, w') \<longrightarrow> S e)"

named_theorems raises_intros \<open>which exceptions a program can raise\<close>

lemma raises_onlyI: "(\<And>w e w'. m w = (Inl e, w') \<Longrightarrow> S e) \<Longrightarrow> raises_only S m"
  by (simp add: raises_only_def)

lemma raises_onlyD: "raises_only S m \<Longrightarrow> m w = (Inl e, w') \<Longrightarrow> S e"
  by (auto simp: raises_only_def)

lemma raises_only_weaken: "raises_only S m \<Longrightarrow> (\<And>e. S e \<Longrightarrow> S' e) \<Longrightarrow> raises_only S' m"
  by (auto simp: raises_only_def)

lemma raises_only_runs: "raises_only S m \<Longrightarrow> runs m w (\<lambda>_ _. True) (\<lambda>e _. S e)"
  by (auto simp: raises_only_def runs_def split: prod.splits sum.splits)

lemma raises_only_ret [raises_intros]: "raises_only S (ret x)"
  and raises_only_raise [raises_intros]: "S e \<Longrightarrow> raises_only S (raise e)"
  and raises_only_get_state [raises_intros]: "raises_only S (get_state f)"
  and raises_only_upd_state [raises_intros]: "raises_only S (upd_state g)"
  by (simp_all add: raises_only_def)

lemma raises_only_bnd [raises_intros]:
  "raises_only S m \<Longrightarrow> (\<And>x. raises_only S (f x)) \<Longrightarrow> raises_only S (bnd m f)"
  by (fastforce simp: raises_only_def bnd_eq_Inl)

lemma raises_only_if [raises_intros]:
  "(b \<Longrightarrow> raises_only S m) \<Longrightarrow> (\<not> b \<Longrightarrow> raises_only S m') \<Longrightarrow> raises_only S (if b then m else m')"
  by simp

lemma raises_only_when_do [raises_intros]:
  "(b \<Longrightarrow> raises_only S m) \<Longrightarrow> raises_only S (when_do b m)"
  by (cases b) (simp_all add: raises_only_ret)

lemma raises_only_case_option [raises_intros]:
  "(v = None \<Longrightarrow> raises_only S m) \<Longrightarrow> (\<And>x. v = Some x \<Longrightarrow> raises_only S (f x)) \<Longrightarrow>
     raises_only S (case v of None \<Rightarrow> m | Some x \<Rightarrow> f x)"
  by (cases v) simp_all

lemma raises_only_case_prod [raises_intros]:
  "(\<And>a b. raises_only S (f a b)) \<Longrightarrow> raises_only S (case p of (a, b) \<Rightarrow> f a b)"
  by (cases p) simp

lemma raises_only_for_each [raises_intros]:
  assumes "\<And>x. raises_only S (f x)"
  shows "raises_only S (for_each f xs)"
proof (induction xs)
  case Nil
  show ?case by (simp add: raises_only_def)
next
  case (Cons x xs)
  have "for_each f (x # xs) = bnd (f x) (\<lambda>_. for_each f xs)" by (rule ext) simp
  with assms Cons show ?case by (simp add: raises_only_bnd)
qed

text \<open>A handler that catches \<open>c\<close>: what escapes are the uncaught exceptions and those of the handler.\<close>

lemma raises_only_try_except:
  assumes "raises_only R m" and "\<And>e. R e \<Longrightarrow> c e \<Longrightarrow> raises_only S (h e)"
    and "\<And>e. R e \<Longrightarrow> \<not> c e \<Longrightarrow> S e"
  shows "raises_only S (try_except m c h)"
  using assms by (fastforce simp: raises_only_def try_except_eq_Inl)

lemma raises_nothing: "raises_only (\<lambda>_. False) m \<Longrightarrow> \<exists>x w'. m w = (Inr x, w')"
  by (cases "m w"; cases "fst (m w)") (auto simp: raises_only_def)

section \<open>Relations between the state before and after\<close>

text \<open>
  \<open>within T m\<close>: whatever \<open>m\<close> does, returning or raising, the states before and after are
  related by \<open>T\<close>. For a reflexive and transitive \<open>T\<close> this composes over programs, so a
  frame condition or an invariant is proved once per operation.
\<close>

definition within :: "('w \<Rightarrow> 'w \<Rightarrow> bool) \<Rightarrow> ('w, 'a) prog \<Rightarrow> bool" where
  "within T m \<longleftrightarrow> (\<forall>w. T w (snd (m w)))"

lemma withinI: "(\<And>w r w'. m w = (r, w') \<Longrightarrow> T w w') \<Longrightarrow> within T m"
  by (simp add: within_def) (metis prod.collapse)

lemma withinD: "within T m \<Longrightarrow> m w = (r, w') \<Longrightarrow> T w w'"
  by (auto simp: within_def dest: spec [of _ w])

lemma runs_within: "within T m \<Longrightarrow> runs m w (\<lambda>_. T w) (\<lambda>_. T w)"
  by (auto simp: runs_def dest: withinD split: prod.splits sum.splits)

locale frame =
  fixes T :: "'w \<Rightarrow> 'w \<Rightarrow> bool"
  assumes T_refl: "T w w"
    and T_trans: "T w w' \<Longrightarrow> T w' w'' \<Longrightarrow> T w w''"
begin

lemma ret [intro]: "within T (ret x)"
  by (simp add: within_def T_refl)

lemma raise [intro]: "within T (raise e)"
  by (simp add: within_def T_refl)

lemma get_state [intro]: "within T (get_state f)"
  by (simp add: within_def T_refl)

lemma upd_state: "(\<And>w. T w (f w)) \<Longrightarrow> within T (upd_state f)"
  by (simp add: within_def)

lemma lift_sum [intro]: "within T (lift_sum s)"
  by (cases s) (simp_all add: within_def T_refl)

lemma bnd [intro]:
  assumes m: "within T m" and f: "\<And>x. within T (f x)"
  shows "within T (bnd m f)"
proof (rule withinI)
  fix w r w''
  assume run: "bnd m f w = (r, w'')"
  show "T w w''"
  proof (cases "m w")
    case (Pair q w')
    with m have T1: "T w w'" by (rule withinD)
    show ?thesis
    proof (cases q)
      case (Inl e)
      with run Pair T1 show ?thesis by (simp add: bnd_def)
    next
      case (Inr x)
      with run Pair have "f x w' = (r, w'')" by (simp add: bnd_def)
      with f have "T w' w''" by (rule withinD)
      with T1 show ?thesis by (rule T_trans)
    qed
  qed
qed

lemma try_except [intro]:
  assumes m: "within T m" and h: "\<And>e. within T (h e)"
  shows "within T (try_except m c h)"
proof (rule withinI)
  fix w r w''
  assume run: "try_except m c h w = (r, w'')"
  show "T w w''"
  proof (cases "m w")
    case (Pair q w')
    with m have T1: "T w w'" by (rule withinD)
    show ?thesis
    proof (cases "\<exists>e. q = Inl e \<and> c e")
      case True
      then obtain e where "q = Inl e" "c e" by blast
      with run Pair have "h e w' = (r, w'')" by (simp add: try_except_def)
      with h have "T w' w''" by (rule withinD)
      with T1 show ?thesis by (rule T_trans)
    next
      case False
      with run Pair T1 show ?thesis
        by (auto simp: try_except_def split: sum.splits if_splits)
    qed
  qed
qed

lemma when_do [intro]: "within T m \<Longrightarrow> within T (when_do b m)"
  by (cases b) (auto intro: ret)

lemma cond [intro]: "within T m \<Longrightarrow> within T m' \<Longrightarrow> within T (if b then m else m')"
  by simp

lemma case_opt [intro]:
  "within T m \<Longrightarrow> (\<And>x. within T (f x)) \<Longrightarrow> within T (case v of None \<Rightarrow> m | Some x \<Rightarrow> f x)"
  by (cases v) simp_all

lemma case_pair [intro]:
  "(\<And>a b. within T (f a b)) \<Longrightarrow> within T (case p of (a, b) \<Rightarrow> f a b)"
  by (cases p) simp

lemma for_each [intro]:
  assumes "\<And>x. within T (f x)"
  shows "within T (for_each f xs)"
proof (induction xs)
  case Nil
  show ?case by (simp add: within_def T_refl)
next
  case (Cons x xs)
  have "for_each f (x # xs) = bnd (f x) (\<lambda>_. for_each f xs)"
    by (rule ext) simp
  with assms Cons show ?case by (auto intro: bnd)
qed

lemmas frame_rules =
  ret raise get_state lift_sum bnd try_except when_do cond case_opt case_pair for_each

end

text \<open>The relation \<open>I w \<longrightarrow> I w'\<close> turns the locale into preservation of an invariant.\<close>

interpretation invariant: frame "\<lambda>w w'. I w \<longrightarrow> I w'" for I :: "'w \<Rightarrow> bool"
  by unfold_locales auto

interpretation unchanged: frame "\<lambda>w w'. f w' = f w" for f :: "'w \<Rightarrow> 'v"
  by unfold_locales auto

end
