(* ===== verification/Logging.thy ===== *)
theory Logging
  imports Program Config "HOL-Library.AList"
begin

text \<open>
  \<^verbatim>\<open>app/core/logging.py\<close>: the formatter that turns a log record into one line of JSON, and the
  configuration of the root logger; with what the code uses of Python's \<open>logging\<close> (the attributes
  of a record, \<open>makeRecord\<close> with its refusal of reserved names, the levels and the hand-over to the
  handlers of the root) and of \<open>datetime.isoformat\<close>.
\<close>

section \<open>Timestamps\<close>

text \<open>The Gregorian date of a number of days since the first of January 1970: year, month, day.\<close>

definition civil :: "int \<Rightarrow> int \<times> int \<times> int" where
  "civil n =
     (let z = n + 719468;
          era = z div 146097;
          doe = z mod 146097;
          yoe = (doe - doe div 1460 + doe div 36524 - doe div 146096) div 365;
          doy = doe - (365 * yoe + yoe div 4 - yoe div 100);
          mp = (5 * doy + 2) div 153;
          d = doy - (153 * mp + 2) div 5 + 1;
          m = (if mp < 10 then mp + 3 else mp - 9)
      in (yoe + era * 400 + (if m \<le> 2 then 1 else 0), m, d))"

definition pad :: "nat \<Rightarrow> int \<Rightarrow> string" where
  "pad n i = (let s = str_int i in replicate (n - length s) (CHR ''0'') @ s)"

text \<open>\<open>isoformat()\<close> of a time in UTC; microseconds are printed unless there are none.\<close>

definition isoformat :: "time \<Rightarrow> string" where
  "isoformat t =
     (let s = t div 1000000; us = t mod 1000000; (y, m, d) = civil (s div 86400); r = s mod 86400
      in pad 4 y @ ''-'' @ pad 2 m @ ''-'' @ pad 2 d @ ''T'' @
         pad 2 (r div 3600) @ '':'' @ pad 2 (r mod 3600 div 60) @ '':'' @ pad 2 (r mod 60) @
         (if us = 0 then [] else ''.'' @ pad 6 us) @ ''+00:00'')"

section \<open>Log records\<close>

text \<open>The attributes every record has: those of Python 3.12, the oldest version the project runs on.\<close>

definition LOG_RECORD_ATTRIBUTES :: "string list" where
  "LOG_RECORD_ATTRIBUTES =
     [''name'', ''msg'', ''args'', ''levelname'', ''levelno'', ''pathname'', ''filename'', ''module'',
      ''exc_info'', ''exc_text'', ''stack_info'', ''lineno'', ''funcName'', ''created'', ''msecs'',
      ''relativeCreated'', ''thread'', ''threadName'', ''processName'', ''process'', ''taskName'']"

definition RESERVED :: "string list" where
  "RESERVED = LOG_RECORD_ATTRIBUTES @ [''message'', ''asctime'']"

text \<open>
  \<open>lr_message\<close> is what \<open>getMessage()\<close> gives, \<open>lr_dict\<close> the attributes (\<open>__dict__\<close>) in their order, and
  \<open>lr_exc_text\<close> the formatted traceback where the record has an \<open>exc_info\<close>.
\<close>

record log_record =
  lr_name :: string
  lr_levelname :: string
  lr_levelno :: int
  lr_message :: string
  lr_dict :: "(string \<times> jval) list"
  lr_exc_text :: "string option"

text \<open>
  \<open>Logger.makeRecord\<close>: extras become attributes, but none may overwrite a standard one. \<open>attrs\<close> are the
  values of the standard attributes (source position, thread and so on).
\<close>

definition make_record ::
    "(string \<Rightarrow> jval) \<Rightarrow> string \<Rightarrow> string \<times> int \<Rightarrow> string \<Rightarrow> (string \<times> jval) list \<Rightarrow> string option \<Rightarrow>
     exn + log_record" where
  "make_record attrs name level msg extra exc =
     (if list_ex (\<lambda>kv. fst kv \<in> set RESERVED) extra then Inl KeyError
      else Inr \<lparr>lr_name = name, lr_levelname = fst level, lr_levelno = snd level, lr_message = msg,
             lr_dict = map (\<lambda>k. (k, attrs k)) LOG_RECORD_ATTRIBUTES @ extra, lr_exc_text = exc\<rparr>)"

abbreviation info_level :: "string \<times> int" where
  "info_level \<equiv> (''INFO'', 20)"

section \<open>The formatter\<close>

text \<open>\<open>d[k] = v\<close> of a Python dict is \<open>AList.update\<close>: in place, or at the end for a new key.\<close>

fun attach_extras :: "(string \<times> jval) list \<Rightarrow> (string \<times> jval) list \<Rightarrow> (string \<times> jval) list" where
  "attach_extras payload [] = payload"
| "attach_extras payload ((key, v) # rest) =
     attach_extras (if key \<notin> set RESERVED \<and> take 1 key \<noteq> ''_'' then AList.update key v payload else payload) rest"

definition log_payload :: "time \<Rightarrow> log_record \<Rightarrow> (string \<times> jval) list" where
  "log_payload now record =
     (let payload = attach_extras
            [(''ts'', JStr (isoformat now)), (''level'', JStr (lr_levelname record)),
             (''logger'', JStr (lr_name record)), (''message'', JStr (lr_message record))]
            (lr_dict record)
      in case lr_exc_text record of
           None \<Rightarrow> payload
         | Some trace \<Rightarrow> AList.update ''exception'' (JStr trace) payload)"

definition json_format :: "(jval \<Rightarrow> string) \<Rightarrow> time \<Rightarrow> log_record \<Rightarrow> string" where
  "json_format dumps now record = dumps (JObj (log_payload now record))"

section \<open>The root logger\<close>

datatype formatter = JsonFormatter | OtherFormatter "log_record \<Rightarrow> string"

text \<open>The handlers of the root, by their formatters; every other logger hands its records over to it.\<close>

record root_logger =
  ro_handlers :: "formatter list"
  ro_level :: int

definition check_level :: "string \<Rightarrow> exn + int" where
  "check_level level =
     (case map_of [(''CRITICAL'', 50), (''FATAL'', 50), (''ERROR'', 40), (''WARN'', 30), (''WARNING'', 30),
        (''INFO'', 20), (''DEBUG'', 10), (''NOTSET'', 0)] level of
        None \<Rightarrow> Inl ValueError | Some n \<Rightarrow> Inr n)"

definition configure_logging :: "string \<Rightarrow> (root_logger, unit) prog" where
  "configure_logging level =
     bnd (upd_state (\<lambda>root. root\<lparr>ro_handlers := []\<rparr>)) (\<lambda>_.
     bnd (upd_state (\<lambda>root. root\<lparr>ro_handlers := ro_handlers root @ [JsonFormatter]\<rparr>)) (\<lambda>_.
     bnd (lift_sum (check_level level)) (\<lambda>n.
     upd_state (\<lambda>root. root\<lparr>ro_level := n\<rparr>))))"

fun format_with :: "(jval \<Rightarrow> string) \<Rightarrow> time \<Rightarrow> log_record \<Rightarrow> formatter \<Rightarrow> string" where
  "format_with dumps now record JsonFormatter = json_format dumps now record"
| "format_with dumps now record (OtherFormatter f) = f record"

text \<open>The lines a record comes to: none below the level of the root, else one per handler.\<close>

definition log_lines :: "(jval \<Rightarrow> string) \<Rightarrow> time \<Rightarrow> root_logger \<Rightarrow> log_record \<Rightarrow> string list" where
  "log_lines dumps now root record =
     (if lr_levelno record < ro_level root then []
      else map (format_with dumps now record) (ro_handlers root))"

section \<open>Audit records\<close>

text \<open>The extras of \<open>audit(event, user_id=\<dots>, **fields)\<close> and the record they become.\<close>

definition audit_extra :: "string \<Rightarrow> string option \<Rightarrow> (string \<times> jval) list \<Rightarrow> (string \<times> jval) list" where
  "audit_extra event user_id kw =
     foldl (\<lambda>d kv. AList.update (fst kv) (snd kv) d)
       [(''audit_event'', JStr event), (''user_id'', case user_id of None \<Rightarrow> JNull | Some u \<Rightarrow> JStr u)] kw"

definition audit_record ::
    "(string \<Rightarrow> jval) \<Rightarrow> string \<Rightarrow> string option \<Rightarrow> (string \<times> jval) list \<Rightarrow> exn + log_record" where
  "audit_record attrs event user_id kw =
     make_record attrs ''audit'' info_level event (audit_extra event user_id kw) None"

text \<open>Fields that reach the line as they are: no reserved name, none of the formatter's own, none twice.\<close>

definition safe_key :: "string \<Rightarrow> bool" where
  "safe_key k \<longleftrightarrow> k \<notin> set RESERVED \<and> take 1 k \<noteq> ''_'' \<and>
     k \<notin> {''ts'', ''level'', ''logger'', ''exception'', ''audit_event'', ''user_id''}"

definition safe_fields :: "(string \<times> jval) list \<Rightarrow> bool" where
  "safe_fields kw \<longleftrightarrow> list_all safe_key (map fst kw) \<and> distinct (map fst kw)"

text \<open>The shapes of the audit calls of the server.\<close>

lemma safe_shapes [intro]:
  "safe_fields []" "safe_fields [(''session'', v)]" "safe_fields [(''session'', v), (''ip'', v')]"
  "safe_fields [(''session'', v), (''device'', v'), (''browser'', b), (''country'', c)]"
  "safe_fields [(''session'', v), (''reason'', v')]"
  "safe_fields [(''revoked'', v)]" "safe_fields [(''provider'', v)]"
  by (simp_all add: safe_fields_def safe_key_def RESERVED_def LOG_RECORD_ATTRIBUTES_def)

lemma reserved_attributes: "set LOG_RECORD_ATTRIBUTES \<subseteq> set RESERVED"
  by (auto simp: RESERVED_def)

lemma update_new: "k \<notin> fst ` set al \<Longrightarrow> AList.update k v al = al @ [(k, v)]"
  by (induction al) auto

lemma attach_append: "attach_extras p (xs @ ys) = attach_extras (attach_extras p xs) ys"
  by (induction p xs rule: attach_extras.induct) simp_all

lemma attach_reserved: "fst ` set xs \<subseteq> set RESERVED \<Longrightarrow> attach_extras p xs = p"
  by (induction p xs rule: attach_extras.induct) auto

lemma attach_fresh:
  "list_all (\<lambda>k. k \<notin> set RESERVED \<and> take 1 k \<noteq> ''_'') (map fst xs) \<Longrightarrow> distinct (map fst (p @ xs)) \<Longrightarrow>
     attach_extras p xs = p @ xs"
  by (induction p xs rule: attach_extras.induct) (auto simp: update_new simp del: take_Suc_Cons)

lemma updates_fresh: "distinct (map fst (p @ xs)) \<Longrightarrow> foldl (\<lambda>d kv. AList.update (fst kv) (snd kv) d) p xs = p @ xs"
  by (induction xs arbitrary: p) (auto simp: update_new)

lemma safe_audit_extra:
  "safe_fields fs \<Longrightarrow> audit_extra ev u fs =
     [(''audit_event'', JStr ev), (''user_id'', case u of None \<Rightarrow> JNull | Some i \<Rightarrow> JStr i)] @ fs"
  unfolding audit_extra_def safe_fields_def
  by (rule updates_fresh) (auto simp: list_all_iff safe_key_def)

text \<open>The line of an audit call: always a record, and its fields unchanged after the six of every line.\<close>

lemma audit_record_payload:
  assumes "safe_fields fs"
  shows "\<exists>r. audit_record attrs ev u fs = Inr r \<and> lr_levelno r = 20 \<and>
    log_payload t r = [(''ts'', JStr (isoformat t)), (''level'', JStr ''INFO''), (''logger'', JStr ''audit''),
      (''message'', JStr ev), (''audit_event'', JStr ev), (''user_id'', case u of None \<Rightarrow> JNull | Some i \<Rightarrow> JStr i)] @ fs"
proof -
  let ?x = "audit_extra ev u fs"
    and ?p = "[(''ts'', JStr (isoformat t)), (''level'', JStr ''INFO''), (''logger'', JStr ''audit''), (''message'', JStr ev)]"
  have fresh: "list_all (\<lambda>k. k \<notin> set RESERVED \<and> take 1 k \<noteq> ''_'') (map fst ?x)" "distinct (map fst (?p @ ?x))"
    using assms unfolding safe_audit_extra [OF assms]
    by (auto simp: safe_fields_def list_all_iff safe_key_def)
       (auto simp: RESERVED_def LOG_RECORD_ATTRIBUTES_def)
  then have "\<not> list_ex (\<lambda>kv. fst kv \<in> set RESERVED) ?x" by (auto simp: list_ex_iff list_all_iff)
  moreover have "attach_extras ?p (map (\<lambda>k. (k, attrs k)) LOG_RECORD_ATTRIBUTES @ ?x) = ?p @ ?x"
    using attach_reserved [of "map (\<lambda>k. (k, attrs k)) LOG_RECORD_ATTRIBUTES" ?p] attach_fresh [OF fresh]
      reserved_attributes
    by (simp add: attach_append image_image)
  ultimately show ?thesis
    by (simp add: audit_record_def make_record_def log_payload_def safe_audit_extra [OF assms])
qed

lemma configure_logging_run:
  "configure_logging level root = (case check_level level of
     Inl e \<Rightarrow> (Inl e, root\<lparr>ro_handlers := [JsonFormatter]\<rparr>)
   | Inr n \<Rightarrow> (Inr (), root\<lparr>ro_handlers := [JsonFormatter], ro_level := n\<rparr>))"
  by (simp add: configure_logging_def bnd_def split: sum.splits)

text \<open>Extras that are neither reserved nor private are in the line, the last of a name; the others are not.\<close>

lemma map_of_attach:
  "map_of (attach_extras p xs) k =
     (case map_of (rev (filter (\<lambda>kv. fst kv \<notin> set RESERVED \<and> take 1 (fst kv) \<noteq> ''_'') xs)) k of
        None \<Rightarrow> map_of p k | Some v \<Rightarrow> Some v)"
  by (induction p xs rule: attach_extras.induct)
     (auto simp: update_conv' map_add_def split: option.splits)

end
