(* ===== verification/Uuid.thy ===== *)
theory Uuid
  imports Prelude
begin

text \<open>
  Python's \<open>uuid.UUID\<close>: a 128-bit number, its canonical text (32 hexadecimal digits in groups
  of 8, 4, 4, 4 and 12) and the parser \<open>uuid.UUID(s)\<close>, which drops \<open>urn:\<close>, \<open>uuid:\<close>, braces
  and hyphens and wants exactly 32 hexadecimal digits. Identifiers travel as text in JWT
  claims, in Redis keys and in the OAuth state, so the server depends on the round trip
  proved here.
\<close>

type_synonym uuid = "128 word"

definition hex_char :: "nat \<Rightarrow> char" where
  "hex_char d = (if d < 10 then char_of (48 + d) else char_of (87 + d))"

definition hex_value :: "char \<Rightarrow> nat option" where
  "hex_value c =
     (let n = code_of c in
      if 48 \<le> n \<and> n \<le> 57 then Some (n - 48)
      else if 97 \<le> n \<and> n \<le> 102 then Some (n - 87)
      else if 65 \<le> n \<and> n \<le> 70 then Some (n - 55)
      else None)"

text \<open>The last \<open>k\<close> hexadecimal digits of a number, most significant first.\<close>

fun hex_digits :: "nat \<Rightarrow> nat \<Rightarrow> string" where
  "hex_digits 0 n = []"
| "hex_digits (Suc k) n = hex_digits k (n div 16) @ [hex_char (n mod 16)]"

text \<open>\<open>int(s, 16)\<close> on a string of hexadecimal digits; \<open>None\<close> is \<open>ValueError\<close>.\<close>

definition hex_number :: "string \<Rightarrow> nat option" where
  "hex_number s =
     foldl (\<lambda>acc c. case acc of None \<Rightarrow> None | Some n \<Rightarrow>
              (case hex_value c of None \<Rightarrow> None | Some d \<Rightarrow> Some (16 * n + d)))
       (Some 0) s"

text \<open>\<open>s.replace(p, '')\<close>: remove the occurrences of \<open>p\<close> from left to right.\<close>

function remove_sub :: "string \<Rightarrow> string \<Rightarrow> string" where
  "remove_sub p [] = []"
| "remove_sub p (c # cs) =
     (if p \<noteq> [] \<and> take (length p) (c # cs) = p
      then remove_sub p (drop (length p) (c # cs))
      else c # remove_sub p cs)"
  by pat_completeness auto
termination
  by (relation "measure (\<lambda>(p, s). length s)") auto

definition strip_braces :: "string \<Rightarrow> string" where
  "strip_braces s =
     (let brace = (\<lambda>c. c = CHR ''{'' \<or> c = CHR ''}'')
      in rev (dropWhile brace (rev (dropWhile brace s))))"

definition uuid_hex :: "uuid \<Rightarrow> string" where
  "uuid_hex u = hex_digits 32 (unat u)"

definition uuid_str :: "uuid \<Rightarrow> string" where
  "uuid_str u =
     (let h = uuid_hex u
      in take 8 h @ ''-'' @ take 4 (drop 8 h) @ ''-'' @ take 4 (drop 12 h) @ ''-''
           @ take 4 (drop 16 h) @ ''-'' @ drop 20 h)"

definition uuid_of_str :: "string \<Rightarrow> uuid option" where
  "uuid_of_str s =
     (let h = filter (\<lambda>c. c \<noteq> CHR ''-'')
                (strip_braces (remove_sub ''uuid:'' (remove_sub ''urn:'' s)))
      in if length h = 32 then map_option word_of_nat (hex_number h) else None)"

section \<open>The round trip\<close>

lemma hex_value_hex_char: "d < 16 \<Longrightarrow> hex_value (hex_char d) = Some d"
  by (auto simp: hex_value_def hex_char_def Let_def)

lemma length_hex_digits [simp]: "length (hex_digits k n) = k"
  by (induction k n rule: hex_digits.induct) auto

lemma hex_number_snoc:
  "hex_number s = Some n \<Longrightarrow> hex_value c = Some d \<Longrightarrow> hex_number (s @ [c]) = Some (16 * n + d)"
  by (simp add: hex_number_def)

lemma hex_number_hex_digits: "n < 16 ^ k \<Longrightarrow> hex_number (hex_digits k n) = Some n"
proof (induction k arbitrary: n)
  case 0
  then show ?case by (simp add: hex_number_def)
next
  case (Suc k)
  have "n div 16 < 16 ^ k"
    using Suc.prems by (simp add: less_mult_imp_div_less mult.commute)
  then have "hex_number (hex_digits k (n div 16)) = Some (n div 16)" by (rule Suc.IH)
  then have "hex_number (hex_digits (Suc k) n) = Some (16 * (n div 16) + n mod 16)"
    by (simp add: hex_number_snoc hex_value_hex_char)
  then show ?case by simp
qed

definition plain_hex :: "char \<Rightarrow> bool" where
  "plain_hex c \<longleftrightarrow> (48 \<le> code_of c \<and> code_of c \<le> 57) \<or> (97 \<le> code_of c \<and> code_of c \<le> 102)"

lemma plain_hex_hex_char: "d < 16 \<Longrightarrow> plain_hex (hex_char d)"
  by (auto simp: plain_hex_def hex_char_def)

lemma plain_hex_digits: "c \<in> set (hex_digits k n) \<Longrightarrow> plain_hex c"
  by (induction k n rule: hex_digits.induct) (auto simp: plain_hex_hex_char)

lemma plain_hex_neq:
  "plain_hex c \<Longrightarrow> c \<noteq> CHR ''-''" "plain_hex c \<Longrightarrow> c \<noteq> CHR ''u''"
  "plain_hex c \<Longrightarrow> c \<noteq> CHR ''{''" "plain_hex c \<Longrightarrow> c \<noteq> CHR ''}''"
  by (auto simp: plain_hex_def)

lemma remove_sub_absent: "p \<noteq> [] \<Longrightarrow> hd p \<notin> set s \<Longrightarrow> remove_sub p s = s"
proof (induction p s rule: remove_sub.induct)
  case (2 p c cs)
  then have "take (length p) (c # cs) \<noteq> p"
    by (cases p) auto
  with 2 show ?case by auto
qed simp

lemma strip_braces_absent:
  "CHR ''{'' \<notin> set s \<Longrightarrow> CHR ''}'' \<notin> set s \<Longrightarrow> strip_braces s = s"
  unfolding strip_braces_def Let_def
  by (subst (2) dropWhile_none; (subst dropWhile_none)?) auto

lemma uuid_str_chars: "c \<in> set (uuid_str u) \<Longrightarrow> plain_hex c \<or> c = CHR ''-''"
  unfolding uuid_str_def uuid_hex_def Let_def
  by (auto dest!: in_set_takeD in_set_dropD intro: plain_hex_digits)

lemma take4_twice: "take 4 xs @ drop 4 xs = xs"
  by simp

lemma filter_hyphen_uuid_str:
  "filter (\<lambda>c. c \<noteq> CHR ''-'') (uuid_str u) = uuid_hex u"
proof -
  let ?h = "uuid_hex u"
  have keep: "filter (\<lambda>c. c \<noteq> CHR ''-'') xs = xs" if "set xs \<subseteq> set ?h" for xs
    using that by (auto simp: filter_id_conv uuid_hex_def dest!: subsetD plain_hex_digits plain_hex_neq(1))
  have sub: "set (take m (drop n ?h)) \<subseteq> set ?h" "set (drop n ?h) \<subseteq> set ?h"
    "set (take m ?h) \<subseteq> set ?h" for m n
    by (auto dest: in_set_takeD in_set_dropD)
  have parts: "?h = take 8 ?h @ take 4 (drop 8 ?h) @ take 4 (drop 12 ?h) @ take 4 (drop 16 ?h) @ drop 20 ?h"
  proof -
    have cut: "drop n xs = take 4 (drop n xs) @ drop (4 + n) xs" for n and xs :: string
      by (metis append_take_drop_id drop_drop)
    show ?thesis
      using cut [of 8 ?h] cut [of 12 ?h] cut [of 16 ?h] append_take_drop_id [of 8 ?h] by simp
  qed
  show ?thesis
    by (subst parts) (simp add: uuid_str_def Let_def keep sub)
qed

theorem uuid_of_str_uuid_str [simp]: "uuid_of_str (uuid_str u) = Some u"
proof -
  have free: "CHR ''u'' \<notin> set (uuid_str u)" "CHR ''{'' \<notin> set (uuid_str u)"
    "CHR ''}'' \<notin> set (uuid_str u)"
    using uuid_str_chars [of "CHR ''u''" u] uuid_str_chars [of "CHR ''{''" u]
      uuid_str_chars [of "CHR ''}''" u]
    by (auto simp: plain_hex_def)
  have "strip_braces (remove_sub ''uuid:'' (remove_sub ''urn:'' (uuid_str u))) = uuid_str u"
    using free by (simp add: remove_sub_absent strip_braces_absent)
  moreover have "hex_number (uuid_hex u) = Some (unat u)"
    unfolding uuid_hex_def by (rule hex_number_hex_digits) (use unsigned_less [of u] in simp)
  ultimately show ?thesis
    by (simp add: uuid_of_str_def Let_def filter_hyphen_uuid_str) (simp add: uuid_hex_def)
qed

lemma uuid_str_inject [simp]: "uuid_str u = uuid_str v \<longleftrightarrow> u = v"
  by (metis option.inject uuid_of_str_uuid_str)

lemma uuid_str_nonempty [simp]: "uuid_str u \<noteq> []"
  by (simp add: uuid_str_def Let_def)

lemma length_uuid_str [simp]: "length (uuid_str u) = 36"
  by (simp add: uuid_str_def Let_def uuid_hex_def)

end
