(* ===== verification/Redis_Service.thy ===== *)
theory Redis_Service
  imports Prelude
begin

text \<open>
  The Redis client as the server sees it. Redis is a service outside the repository, so its
  commands are a parameter: a record of functions on a state of unknown type, where a result
  \<open>None\<close> is a raised \<open>RedisError\<close> or \<open>ConnectionError\<close>. What the server relies on are the laws
  of the locale \<open>redis_service\<close>, the documented meaning of the commands in terms of
  \<open>val s t k\<close>: the value key \<open>k\<close> has at time \<open>t\<close> if no command is issued before.
  A reference store with expiry times and a list of injected faults satisfies the laws.
\<close>

section \<open>The commands\<close>

record 'r redis_api =
  r_exists :: "time \<Rightarrow> string \<Rightarrow> 'r \<Rightarrow> bool option \<times> 'r"
  r_get :: "time \<Rightarrow> string \<Rightarrow> 'r \<Rightarrow> string option option \<times> 'r"
  r_set :: "time \<Rightarrow> string \<Rightarrow> string \<Rightarrow> int \<Rightarrow> 'r \<Rightarrow> unit option \<times> 'r"
  r_delete :: "time \<Rightarrow> string \<Rightarrow> 'r \<Rightarrow> unit option \<times> 'r"
  r_incr :: "time \<Rightarrow> string \<Rightarrow> 'r \<Rightarrow> int option \<times> 'r"
  r_expire :: "time \<Rightarrow> string \<Rightarrow> int \<Rightarrow> 'r \<Rightarrow> unit option \<times> 'r"
  r_ping :: "time \<Rightarrow> 'r \<Rightarrow> unit option \<times> 'r"

datatype rval = Text string | Count int

section \<open>The laws\<close>

text \<open>
  A value does not change by itself, it can only expire (\<open>val_decay\<close>). Reading commands change
  nothing. A command that raises was not executed (the connection failed before it was sent).
  \<open>SET \<dots> EX\<close> gives the key a value for \<open>ex\<close> seconds; \<open>INCR\<close> starts at 1 without an expiry
  and keeps the expiry of an existing counter; \<open>EXPIRE\<close> gives the present value \<open>ex\<close> more
  seconds. With a lifetime that is not
  positive nothing is assumed of the key, only that other keys keep their values. In a state with \<open>up\<close> the
  service answers: commands do not raise and leave it so (\<open>INCR\<close> unless the key holds text).
\<close>

locale redis_service =
  fixes R :: "'r redis_api"
    and val :: "'r \<Rightarrow> time \<Rightarrow> string \<Rightarrow> rval option"
    and up :: "'r \<Rightarrow> bool"
  assumes val_decay: "t \<le> t' \<Longrightarrow> val s t' k = None \<or> val s t' k = val s t k"
    and exists_ok: "r_exists R now k s = (Some b, s') \<Longrightarrow> b \<longleftrightarrow> val s now k \<noteq> None"
    and exists_frame: "r_exists R now k s = (b', s') \<Longrightarrow> now \<le> t \<Longrightarrow> val s' t = val s t"
    and get_absent: "r_get R now k s = (Some x, s') \<Longrightarrow> val s now k = None \<Longrightarrow> x = None"
    and get_text: "r_get R now k s = (Some x, s') \<Longrightarrow> val s now k = Some (Text v) \<Longrightarrow> x = Some v"
    and get_frame: "r_get R now k s = (x', s') \<Longrightarrow> now \<le> t \<Longrightarrow> val s' t = val s t"
    and set_ok: "r_set R now k v ex s = (Some u, s') \<Longrightarrow> 0 < ex \<Longrightarrow> now \<le> t \<Longrightarrow>
      val s' t = (val s t)(k := if t < now + seconds ex then Some (Text v) else None)"
    and set_other: "r_set R now k v ex s = (x3, s') \<Longrightarrow> now \<le> t \<Longrightarrow> k' \<noteq> k \<Longrightarrow>
      val s' t k' = val s t k'"
    and set_failed: "r_set R now k v ex s = (None, s') \<Longrightarrow> now \<le> t \<Longrightarrow> val s' t = val s t"
    and delete_ok: "r_delete R now k s = (Some u, s') \<Longrightarrow> now \<le> t \<Longrightarrow>
      val s' t = (val s t)(k := None)"
    and delete_failed: "r_delete R now k s = (None, s') \<Longrightarrow> now \<le> t \<Longrightarrow> val s' t = val s t"
    and incr_absent: "r_incr R now k s = (Some n, s') \<Longrightarrow> val s now k = None \<Longrightarrow>
      n = 1 \<and> (\<forall>t \<ge> now. val s' t = (val s t)(k := Some (Count 1)))"
    and incr_count: "r_incr R now k s = (Some n, s') \<Longrightarrow> val s now k = Some (Count c) \<Longrightarrow>
      n = c + 1 \<and> (\<forall>t \<ge> now. val s' t = (val s t)(k := map_option (\<lambda>_. Count (c + 1)) (val s t k)))"
    and incr_other: "r_incr R now k s = (n', s') \<Longrightarrow> now \<le> t \<Longrightarrow> k' \<noteq> k \<Longrightarrow>
      val s' t k' = val s t k'"
    and incr_failed: "r_incr R now k s = (None, s') \<Longrightarrow> now \<le> t \<Longrightarrow> val s' t = val s t"
    and expire_ok: "r_expire R now k ex s = (Some u, s') \<Longrightarrow> 0 < ex \<Longrightarrow> now \<le> t \<Longrightarrow>
      val s' t = (val s t)(k := if t < now + seconds ex then val s now k else None)"
    and expire_other: "r_expire R now k ex s = (x6, s') \<Longrightarrow> now \<le> t \<Longrightarrow> k' \<noteq> k \<Longrightarrow>
      val s' t k' = val s t k'"
    and expire_failed: "r_expire R now k ex s = (None, s') \<Longrightarrow> now \<le> t \<Longrightarrow> val s' t = val s t"
    and exists_up: "up s \<Longrightarrow> r_exists R now k s = (x1, s') \<Longrightarrow> x1 \<noteq> None \<and> up s'"
    and get_up: "up s \<Longrightarrow> r_get R now k s = (x2, s') \<Longrightarrow> x2 \<noteq> None \<and> up s'"
    and set_up: "up s \<Longrightarrow> 0 < ex \<Longrightarrow> r_set R now k v ex s = (x3, s') \<Longrightarrow> x3 \<noteq> None \<and> up s'"
    and delete_up: "up s \<Longrightarrow> r_delete R now k s = (x4, s') \<Longrightarrow> x4 \<noteq> None \<and> up s'"
    and incr_up: "up s \<Longrightarrow> (\<forall>txt. val s now k \<noteq> Some (Text txt)) \<Longrightarrow> r_incr R now k s = (x5, s') \<Longrightarrow>
      x5 \<noteq> None \<and> up s'"
    and expire_up: "up s \<Longrightarrow> 0 < ex \<Longrightarrow> r_expire R now k ex s = (x6, s') \<Longrightarrow> x6 \<noteq> None \<and> up s'"
    and ping_frame: "r_ping R now s = (x7, s') \<Longrightarrow> now \<le> t \<Longrightarrow> val s' t = val s t"
    and ping_up: "up s \<Longrightarrow> r_ping R now s = (x7, s') \<Longrightarrow> x7 \<noteq> None \<and> up s'"
begin

lemma val_None_later: "val s t k = None \<Longrightarrow> t \<le> t' \<Longrightarrow> val s t' k = None"
  using val_decay [of t t' s k] by auto

lemma val_Some_earlier: "val s t' k = Some v \<Longrightarrow> t \<le> t' \<Longrightarrow> val s t k = Some v"
  using val_decay [of t t' s k] by auto

end

section \<open>A reference store\<close>

text \<open>
  Entries with an optional expiry time, and a list of faults: each command takes the next
  element, and \<open>True\<close> makes it raise without being executed.
\<close>

record ref_store =
  entries :: "string \<Rightarrow> (rval \<times> time option) option"
  faults :: "bool list"

fun live_at :: "time \<Rightarrow> (rval \<times> time option) option \<Rightarrow> rval option" where
  "live_at t None = None"
| "live_at t (Some (v, None)) = Some v"
| "live_at t (Some (v, Some e)) = (if t < e then Some v else None)"

definition ref_val :: "ref_store \<Rightarrow> time \<Rightarrow> string \<Rightarrow> rval option" where
  "ref_val s t k = live_at t (entries s k)"

text \<open>Run a command unless the next fault makes it raise.\<close>

definition unless_fault :: "(ref_store \<Rightarrow> 'a \<times> ref_store) \<Rightarrow> ref_store \<Rightarrow> 'a option \<times> ref_store" where
  "unless_fault m s =
     (case faults s of
        True # fs \<Rightarrow> (None, s\<lparr>faults := fs\<rparr>)
      | False # fs \<Rightarrow> (case m (s\<lparr>faults := fs\<rparr>) of (x, s') \<Rightarrow> (Some x, s'))
      | [] \<Rightarrow> (case m s of (x, s') \<Rightarrow> (Some x, s')))"

definition put_entry :: "string \<Rightarrow> (rval \<times> time option) option \<Rightarrow> ref_store \<Rightarrow> ref_store" where
  "put_entry k e s = s\<lparr>entries := (entries s)(k := e)\<rparr>"

fun text_of :: "rval \<Rightarrow> string" where
  "text_of (Text v) = v"
| "text_of (Count n) = str_int n"

definition ref_incr :: "time \<Rightarrow> string \<Rightarrow> ref_store \<Rightarrow> int \<times> ref_store" where
  "ref_incr now k s =
     (case ref_val s now k of
        Some (Count n) \<Rightarrow>
          (n + 1, put_entry k (map_option (\<lambda>(_, e). (Count (n + 1), e)) (entries s k)) s)
      | _ \<Rightarrow> (1, put_entry k (Some (Count 1, None)) s))"

definition ref_expire :: "time \<Rightarrow> string \<Rightarrow> int \<Rightarrow> ref_store \<Rightarrow> unit \<times> ref_store" where
  "ref_expire now k ex s =
     ((), put_entry k (map_option (\<lambda>v. (v, Some (now + seconds ex))) (ref_val s now k)) s)"

definition ref_redis :: "ref_store redis_api" where
  "ref_redis = \<lparr>
     r_exists = (\<lambda>now k. unless_fault (\<lambda>s. (ref_val s now k \<noteq> None, s))),
     r_get = (\<lambda>now k. unless_fault (\<lambda>s. (map_option text_of (ref_val s now k), s))),
     r_set = (\<lambda>now k v ex. unless_fault
                (\<lambda>s. ((), put_entry k (Some (Text v, Some (now + seconds ex))) s))),
     r_delete = (\<lambda>now k. unless_fault (\<lambda>s. ((), put_entry k None s))),
     r_incr = (\<lambda>now k. unless_fault (ref_incr now k)),
     r_expire = (\<lambda>now k ex. unless_fault (ref_expire now k ex)),
     r_ping = (\<lambda>now. unless_fault (\<lambda>s. ((), s)))\<rparr>"

definition empty_store :: ref_store where
  "empty_store = \<lparr>entries = (\<lambda>_. None), faults = []\<rparr>"

lemma ref_val_put_entry [simp]:
  "ref_val (put_entry k e s) t = (ref_val s t)(k := live_at t e)"
  by (rule ext) (simp add: ref_val_def put_entry_def)

lemma ref_val_faults [simp]: "ref_val (s\<lparr>faults := fs\<rparr>) = ref_val s"
  by (rule ext)+ (simp add: ref_val_def)

lemma entries_faults [simp]: "entries (s\<lparr>faults := fs\<rparr>) = entries s"
  by simp

lemma live_at_map_value:
  "live_at t (map_option (\<lambda>(_, e). (c, e)) x) = map_option (\<lambda>_. c) (live_at t x)"
  by (cases "(t, x)" rule: live_at.cases) auto

lemma live_at_map_expiry:
  "live_at t (map_option (\<lambda>v. (v, Some e)) x) = (if t < e then x else None)"
  by (cases x) auto

lemma live_at_entries: "live_at t (entries s k) = ref_val s t k"
  by (simp add: ref_val_def)

lemma faults_put_entry [simp]: "faults (put_entry k e s) = faults s"
  by (simp add: put_entry_def)

lemma unless_fault_Nil [simp]:
  "faults s = [] \<Longrightarrow> unless_fault m s = (case m s of (x, s') \<Rightarrow> (Some x, s'))"
  by (simp add: unless_fault_def)

lemma unless_faultE:
  assumes "unless_fault m s = (r, s')"
  obtains (raised) fs where "r = None" "s' = s\<lparr>faults := fs\<rparr>"
    | (ran) fs x where "r = Some x" "m (s\<lparr>faults := fs\<rparr>) = (x, s')"
proof (cases "faults s")
  case Nil
  then have "s\<lparr>faults := []\<rparr> = s" by simp
  with assms Nil ran [of _ "[]"] show ?thesis
    by (auto simp: unless_fault_def split: prod.splits)
next
  case (Cons b fs)
  with assms raised ran show ?thesis
    by (cases b) (auto simp: unless_fault_def split: prod.splits)
qed

interpretation ref: redis_service ref_redis ref_val "\<lambda>s. faults s = []"
proof unfold_locales
  fix t t' :: time and s k
  assume "t \<le> t'"
  then show "ref_val s t' k = None \<or> ref_val s t' k = ref_val s t k"
    by (cases "(t, entries s k)" rule: live_at.cases) (auto simp: ref_val_def)
qed (auto simp: ref_redis_def ref_incr_def ref_expire_def live_at_map_value live_at_map_expiry
       live_at_entries fun_eq_iff
       split: option.splits rval.splits elim!: unless_faultE)

end
