(* ===== verification/State.thy ===== *)
theory State
  imports Logging Uuid Redis_Service
begin

text \<open>
  The state the server works on. The tables are those of \<^verbatim>\<open>app/models\<close>, one record per row
  with the columns of its class (and \<open>id\<close>, \<open>created_at\<close> of the mixins; \<open>updated_at\<close> is
  written by the database and read nowhere). \<open>db\<close> is what the request's SQLAlchemy session
  sees, \<open>committed\<close> is what other requests see. The environment holds the settings and the
  libraries and services the code calls: Redis, Argon2 (passlib), PyJWT, Fernet, pyotp,
  user-agents, SHA-256, the random sources and outgoing HTTP, all of them parameters.
\<close>

section \<open>Tables\<close>

record user_row =
  u_id :: uuid
  u_email :: string
  u_hashed_password :: string
  u_full_name :: string
  u_is_active :: bool
  u_is_verified :: bool
  u_is_superuser :: bool
  u_created_at :: time

record role_row =
  ro_id :: uuid
  ro_name :: string
  ro_description :: string

record permission_row =
  pe_id :: uuid
  pe_code :: string
  pe_description :: string

record session_row =
  s_id :: uuid
  s_user_id :: uuid
  s_session_uuid :: uuid
  s_refresh_token_id :: string
  s_device_name :: string
  s_device_type :: string
  s_browser :: string
  s_browser_version :: string
  s_operating_system :: string
  s_operating_system_version :: string
  s_user_agent :: string
  s_ip_address :: string
  s_country :: "string option"
  s_city :: "string option"
  s_login_at :: time
  s_last_activity_at :: time
  s_logout_at :: "time option"
  s_expires_at :: time
  s_logout_reason :: "string option"
  s_is_current :: bool
  s_is_active :: bool
  s_request_count :: int
  s_created_at :: time

record two_factor_row =
  tf_id :: uuid
  tf_user_id :: uuid
  tf_encrypted_secret :: string
  tf_enabled :: bool
  tf_verified_at :: "time option"

record backup_code_row =
  bc_id :: uuid
  bc_user_id :: uuid
  bc_hashed_code :: string
  bc_used_at :: "time option"
  bc_created_at :: time

record email_token_row =
  et_id :: uuid
  et_user_id :: uuid
  et_token_hash :: string
  et_purpose :: string
  et_new_email :: "string option"
  et_expires_at :: time
  et_used_at :: "time option"

record oauth_account_row =
  oa_id :: uuid
  oa_user_id :: uuid
  oa_provider :: string
  oa_provider_account_id :: string
  oa_email :: "string option"
  oa_created_at :: time

text \<open>\<open>user_roles\<close> and \<open>role_permissions\<close> are the association tables, as pairs of ids.\<close>

record database =
  users :: "user_row list"
  roles :: "role_row list"
  permissions :: "permission_row list"
  user_roles :: "(uuid \<times> uuid) list"
  role_permissions :: "(uuid \<times> uuid) list"
  sessions :: "session_row list"
  two_factors :: "two_factor_row list"
  backup_codes :: "backup_code_row list"
  email_tokens :: "email_token_row list"
  oauth_accounts :: "oauth_account_row list"

definition empty_db :: database where
  "empty_db = \<lparr>users = [], roles = [], permissions = [], user_roles = [],
     role_permissions = [], sessions = [], two_factors = [], backup_codes = [],
     email_tokens = [], oauth_accounts = []\<rparr>"

section \<open>Libraries and services\<close>

text \<open>The claims of a JWT: a Python \<open>dict\<close>, in the order of its keys.\<close>

type_synonym claims = "(string \<times> jval) list"

record user_agent =
  ua_is_bot :: bool
  ua_is_tablet :: bool
  ua_is_mobile :: bool
  ua_is_pc :: bool
  ua_os_family :: "string option"
  ua_os_version :: string
  ua_device_family :: "string option"
  ua_browser_family :: "string option"
  ua_browser_version :: string

datatype http_method = GET | POST

record http_request =
  hq_method :: http_method
  hq_url :: string
  hq_data :: "(string \<times> string) list"
  hq_headers :: "(string \<times> string) list"

text \<open>A response, or an exception of the client. \<open>None\<close> as body: \<open>resp.json()\<close> raises.\<close>

record http_response =
  hs_status :: nat
  hs_json :: "jval option"

text \<open>
  The environment. Random sources and the salt of a hash take the number of the draw, so
  they are arbitrary sequences. \<open>pwd_verify\<close> is \<open>None\<close> where passlib raises on a hash it
  cannot read, \<open>jwt_decode\<close> is \<open>None\<close> where PyJWT raises, and so on.
\<close>

record 'r env =
  cfg :: settings
  rds :: "'r redis_api"
  pwd_hash :: "nat \<Rightarrow> string \<Rightarrow> string"
  pwd_verify :: "string \<Rightarrow> string \<Rightarrow> bool option"
  pwd_needs_update :: "string \<Rightarrow> bool"
  jwt_encode :: "claims \<Rightarrow> string \<Rightarrow> string \<Rightarrow> string"
  jwt_decode :: "time \<Rightarrow> string \<Rightarrow> string \<Rightarrow> string \<Rightarrow> claims option"
  sha256_hex :: "string \<Rightarrow> string"
  sha256_b64url :: "string \<Rightarrow> string"
  fernet_key_ok :: "string \<Rightarrow> bool"
  fernet_encrypt :: "nat \<Rightarrow> string \<Rightarrow> string \<Rightarrow> string"
  fernet_decrypt :: "string \<Rightarrow> string \<Rightarrow> string option"
  totp_verify :: "time \<Rightarrow> string \<Rightarrow> string \<Rightarrow> int \<Rightarrow> bool"
  totp_uri :: "string \<Rightarrow> string \<Rightarrow> string \<Rightarrow> string"
  random_base32 :: "nat \<Rightarrow> string"
  uuid4 :: "nat \<Rightarrow> uuid"
  uuid7 :: "nat \<Rightarrow> uuid"
  token_urlsafe :: "nat \<Rightarrow> nat \<Rightarrow> string"
  rand_below :: "nat \<Rightarrow> nat \<Rightarrow> nat"
  qr_png :: "string \<Rightarrow> string"
  base64_text :: "string \<Rightarrow> string"
  ua_parse :: "string \<Rightarrow> user_agent"
  json_dumps :: "jval \<Rightarrow> string"
  json_loads :: "string \<Rightarrow> jval option"
  py_repr :: "jval \<Rightarrow> string"
  urlencode :: "(string \<times> string) list \<Rightarrow> string"
  http_send :: "nat \<Rightarrow> http_request \<Rightarrow> http_response option"
  smtp_ok :: "nat \<Rightarrow> bool"
  email_validate :: "string \<Rightarrow> string option"
  error_report :: "string list \<Rightarrow> jval"

section \<open>The state of a request\<close>

text \<open>A task on \<open>BackgroundTasks\<close>: a method of the notification service and its arguments.\<close>

datatype task =
  TaskWelcome string string
| TaskVerification string string
| TaskPasswordReset string string
| TaskPasswordChanged string
| TaskEmailChange string string
| TaskNewDevice string string string string

record email_message =
  em_to :: string
  em_subject :: string
  em_html :: string
  em_text :: string

record audit_entry =
  au_event :: string
  au_user :: "string option"
  au_fields :: "(string \<times> jval) list"

record 'r world =
  clock :: time
  draws :: nat
  redis :: 'r
  db :: database
  committed :: database
  background :: "task list"
  audit_log :: "audit_entry list"
  outbox :: "email_message list"

text \<open>
  A request is handled at one instant: \<open>now\<close> reads the clock of the state, which only the
  steps between requests advance (by \<open>tick\<close>).
\<close>

definition now :: "('r world, time) prog" where
  "now = get_state clock"

definition tick :: "time \<Rightarrow> 'r world \<Rightarrow> 'r world" where
  "tick d w = w\<lparr>clock := clock w + d\<rparr>"

definition draw :: "(nat \<Rightarrow> 'a) \<Rightarrow> ('r world, 'a) prog" where
  "draw f w = (Inr (f (draws w)), w\<lparr>draws := Suc (draws w)\<rparr>)"

definition audit :: "string \<Rightarrow> string option \<Rightarrow> (string \<times> jval) list \<Rightarrow> ('r world, unit) prog" where
  "audit event user_id extra =
     upd_state (\<lambda>w. w\<lparr>audit_log := audit_log w @
       [\<lparr>au_event = event, au_user = user_id, au_fields = extra\<rparr>]\<rparr>)"

definition add_task :: "task \<Rightarrow> ('r world, unit) prog" where
  "add_task t = upd_state (\<lambda>w. w\<lparr>background := background w @ [t]\<rparr>)"

section \<open>The database session\<close>

text \<open>
  Writing attributes of loaded objects changes the rows the session sees; a flush sends them
  to the database. Nothing is visible to other requests before a commit.
\<close>

definition db_query :: "(database \<Rightarrow> 'a) \<Rightarrow> ('r world, 'a) prog" where
  "db_query f = get_state (\<lambda>w. f (db w))"

definition db_write :: "(database \<Rightarrow> database) \<Rightarrow> ('r world, unit) prog" where
  "db_write f = upd_state (\<lambda>w. w\<lparr>db := f (db w)\<rparr>)"

definition flush :: "('r world, unit) prog" where
  "flush = ret ()"

definition commit :: "('r world, unit) prog" where
  "commit = upd_state (\<lambda>w. w\<lparr>committed := db w\<rparr>)"

definition rollback :: "('r world, unit) prog" where
  "rollback = upd_state (\<lambda>w. w\<lparr>db := committed w\<rparr>)"

text \<open>\<open>scalar_one_or_none\<close>: more than one row is an exception.\<close>

fun scalar_one_or_none :: "'a list \<Rightarrow> ('r world, 'a option) prog" where
  "scalar_one_or_none [] = ret None"
| "scalar_one_or_none [x] = ret (Some x)"
| "scalar_one_or_none (x # y # zs) = raise MultipleResultsFound"

text \<open>
  \<open>get_db\<close> around the body of a request: one commit at the end on success, a rollback on any
  exception, which is raised again.
\<close>

definition get_db :: "('r world, 'a) prog \<Rightarrow> ('r world, 'a) prog" where
  "get_db route =
     try_except (bnd route (\<lambda>x. bnd commit (\<lambda>_. ret x)))
       (\<lambda>_. True) (\<lambda>e. bnd rollback (\<lambda>_. raise e))"

section \<open>Calls to Redis\<close>

definition redis_call :: "(time \<Rightarrow> 'r \<Rightarrow> 'a option \<times> 'r) \<Rightarrow> ('r world, 'a) prog" where
  "redis_call c w =
     (case c (clock w) (redis w) of
        (None, r) \<Rightarrow> (Inl RedisError, w\<lparr>redis := r\<rparr>)
      | (Some x, r) \<Rightarrow> (Inr x, w\<lparr>redis := r\<rparr>))"

definition redis_exists :: "'r env \<Rightarrow> string \<Rightarrow> ('r world, bool) prog" where
  "redis_exists E k = redis_call (\<lambda>t. r_exists (rds E) t k)"

definition redis_get :: "'r env \<Rightarrow> string \<Rightarrow> ('r world, string option) prog" where
  "redis_get E k = redis_call (\<lambda>t. r_get (rds E) t k)"

definition redis_set :: "'r env \<Rightarrow> string \<Rightarrow> string \<Rightarrow> int \<Rightarrow> ('r world, unit) prog" where
  "redis_set E k v ex = redis_call (\<lambda>t. r_set (rds E) t k v ex)"

definition redis_delete :: "'r env \<Rightarrow> string \<Rightarrow> ('r world, unit) prog" where
  "redis_delete E k = redis_call (\<lambda>t. r_delete (rds E) t k)"

definition redis_incr :: "'r env \<Rightarrow> string \<Rightarrow> ('r world, int) prog" where
  "redis_incr E k = redis_call (\<lambda>t. r_incr (rds E) t k)"

definition redis_expire :: "'r env \<Rightarrow> string \<Rightarrow> int \<Rightarrow> ('r world, unit) prog" where
  "redis_expire E k ex = redis_call (\<lambda>t. r_expire (rds E) t k ex)"

definition redis_ping :: "'r env \<Rightarrow> ('r world, unit) prog" where
  "redis_ping E = redis_call (\<lambda>t. r_ping (rds E) t)"

lemmas redis_ops =
  redis_exists_def redis_get_def redis_set_def redis_delete_def redis_incr_def
  redis_expire_def redis_ping_def

end
