(* ===== verification/Redis_Client.thy ===== *)
theory Redis_Client
  imports State
begin

text \<open>
  Facts about the database session and the Redis client, in the form the services use them:
  each command, run from a state \<open>w\<close>, either raises and changes nothing, or updates the
  values \<open>val\<close> of the store by a known function. \<open>redis_upd val F w w'\<close> says that \<open>w'\<close> is
  \<open>w\<close> with another store, whose values from now on are \<open>F t\<close> of the old ones.
\<close>

definition redis_upd ::
    "('r \<Rightarrow> time \<Rightarrow> string \<Rightarrow> rval option) \<Rightarrow>
     (time \<Rightarrow> (string \<Rightarrow> rval option) \<Rightarrow> (string \<Rightarrow> rval option)) \<Rightarrow>
     'r world \<Rightarrow> 'r world \<Rightarrow> bool" where
  "redis_upd val F w w' \<longleftrightarrow>
     w' = w\<lparr>redis := redis w'\<rparr> \<and>
     (\<forall>t \<ge> clock w. val (redis w') t = F t (val (redis w) t))"

lemma redis_upd_fields:
  assumes "redis_upd val F w w'"
  shows "clock w' = clock w" "draws w' = draws w" "db w' = db w" "committed w' = committed w"
    "background w' = background w" "audit_log w' = audit_log w" "outbox w' = outbox w"
proof -
  have w': "w' = w\<lparr>redis := redis w'\<rparr>" using assms by (simp add: redis_upd_def)
  show "clock w' = clock w" "draws w' = draws w" "db w' = db w" "committed w' = committed w"
    "background w' = background w" "audit_log w' = audit_log w" "outbox w' = outbox w"
    by (subst w'; simp)+
qed

lemma redis_upd_val:
  "redis_upd val F w w' \<Longrightarrow> clock w \<le> t \<Longrightarrow> val (redis w') t k = F t (val (redis w) t) k"
  by (simp add: redis_upd_def)

lemma redis_upd_vals:
  "redis_upd val F w w' \<Longrightarrow> clock w \<le> t \<Longrightarrow> val (redis w') t = F t (val (redis w) t)"
  by (simp add: redis_upd_def)

lemma redis_upd_refl: "redis_upd val (\<lambda>t f. f) w w"
  by (simp add: redis_upd_def)

lemma redis_upd_trans:
  assumes "redis_upd val F w w'" and "redis_upd val G w' w''"
  shows "redis_upd val (\<lambda>t f. G t (F t f)) w w''"
proof -
  have "w'' = w\<lparr>redis := redis w''\<rparr>"
    using assms unfolding redis_upd_def by (metis world.select_convs(3) world.surjective world.update_convs(3))
  then show ?thesis using assms redis_upd_fields(1) [OF assms(1)] by (simp add: redis_upd_def)
qed

text \<open>Commands that only read.\<close>

lemma redis_read_trans:
  "redis_upd val (\<lambda>t f. f) w w' \<Longrightarrow> redis_upd val (\<lambda>t f. f) w' w'' \<Longrightarrow> redis_upd val (\<lambda>t f. f) w w''"
  by (drule (1) redis_upd_trans)

text \<open>Another store, and nothing else.\<close>

definition but_redis :: "'r world \<Rightarrow> 'r world \<Rightarrow> bool" where
  "but_redis w w' \<longleftrightarrow> (\<exists>r. w' = w\<lparr>redis := r\<rparr>)"

lemma but_redis_fields:
  "but_redis w w' \<Longrightarrow> clock w' = clock w \<and> draws w' = draws w \<and> db w' = db w \<and>
     committed w' = committed w \<and> background w' = background w \<and> audit_log w' = audit_log w \<and>
     outbox w' = outbox w"
  by (auto simp: but_redis_def)

lemma but_redis_upd: "redis_upd val F w w' \<Longrightarrow> but_redis w w'"
  unfolding redis_upd_def but_redis_def by blast

lemma but_redis_trans: "but_redis w w' \<Longrightarrow> but_redis w' w'' \<Longrightarrow> but_redis w w''"
  by (auto simp: but_redis_def)

section \<open>The database session\<close>

lemma runs_db_query [runs_intros]: "S (f (db w)) w \<Longrightarrow> runs (db_query f) w S F"
  by (simp add: runs_def db_query_def)

lemma runs_db_write [runs_intros]: "S () (w\<lparr>db := f (db w)\<rparr>) \<Longrightarrow> runs (db_write f) w S F"
  by (simp add: runs_def db_write_def)

lemma runs_flush [runs_intros]: "S () w \<Longrightarrow> runs flush w S F"
  by (simp add: runs_def flush_def)

lemma runs_commit [runs_intros]: "S () (w\<lparr>committed := db w\<rparr>) \<Longrightarrow> runs commit w S F"
  by (simp add: runs_def commit_def)

lemma runs_rollback [runs_intros]: "S () (w\<lparr>db := committed w\<rparr>) \<Longrightarrow> runs rollback w S F"
  by (simp add: runs_def rollback_def)

lemma runs_now [runs_intros]: "S (clock w) w \<Longrightarrow> runs now w S F"
  by (simp add: runs_def now_def)

lemma runs_draw [runs_intros]:
  "S (f (draws w)) (w\<lparr>draws := Suc (draws w)\<rparr>) \<Longrightarrow> runs (draw f) w S F"
  by (simp add: runs_def draw_def)

lemma runs_audit [runs_intros]:
  "S () (w\<lparr>audit_log := audit_log w @ [\<lparr>au_event = ev, au_user = u, au_fields = fs\<rparr>]\<rparr>) \<Longrightarrow>
     runs (audit ev u fs) w S F"
  by (simp add: runs_def audit_def)

lemma runs_add_task [runs_intros]:
  "S () (w\<lparr>background := background w @ [t]\<rparr>) \<Longrightarrow> runs (add_task t) w S F"
  by (simp add: runs_def add_task_def)

lemma runs_scalar_one_or_none [runs_intros]:
  assumes "xs = [] \<Longrightarrow> S None w"
    and "\<And>x. xs = [x] \<Longrightarrow> S (Some x) w"
    and "1 < length xs \<Longrightarrow> F MultipleResultsFound w"
  shows "runs (scalar_one_or_none xs) w S F"
  using assms by (cases xs rule: scalar_one_or_none.cases) (auto simp: runs_def)

lemma scalar_one_or_none_Inr:
  "scalar_one_or_none xs w = (Inr r, w') \<longleftrightarrow> w' = w \<and> ((xs = [] \<and> r = None) \<or> (\<exists>x. xs = [x] \<and> r = Some x))"
  by (cases xs rule: scalar_one_or_none.cases) auto

lemma scalar_one_or_none_state [simp]: "snd (scalar_one_or_none xs w) = w"
  by (cases xs rule: scalar_one_or_none.cases) auto

text \<open>
  The unit of work: after a success the committed state is what the session saw, after an
  exception the session sees the committed state again.
\<close>

lemma get_db_Inr_iff:
  "get_db m w = (Inr x, w'') \<longleftrightarrow> (\<exists>w'. m w = (Inr x, w') \<and> w'' = w'\<lparr>committed := db w'\<rparr>)"
  by (auto simp: get_db_def try_except_def bnd_def commit_def rollback_def split: prod.splits sum.splits)

lemma get_db_Inl_iff:
  "get_db m w = (Inl e, w'') \<longleftrightarrow> (\<exists>w'. m w = (Inl e, w') \<and> w'' = w'\<lparr>db := committed w'\<rparr>)"
  by (auto simp: get_db_def try_except_def bnd_def commit_def rollback_def split: prod.splits sum.splits)

lemma get_db_synced: "get_db m w = (r, w') \<Longrightarrow> db w' = committed w'"
  by (cases r) (auto simp: get_db_Inr_iff get_db_Inl_iff)

lemma runs_get_db [runs_intros]:
  "runs m w (\<lambda>x w'. S x (w'\<lparr>committed := db w'\<rparr>)) (\<lambda>e w'. F e (w'\<lparr>db := committed w'\<rparr>)) \<Longrightarrow>
     runs (get_db m) w S F"
  by (auto simp: runs_def get_db_def try_except_def bnd_def commit_def rollback_def
      split: prod.splits sum.splits)

section \<open>Exceptions of the primitive steps\<close>

lemma raises_only_steps [raises_intros]:
  "raises_only S (db_query f)" "raises_only S (db_write g)" "raises_only S flush"
  "raises_only S commit" "raises_only S rollback" "raises_only S now" "raises_only S (draw d)"
  "raises_only S (audit ev u fs)" "raises_only S (add_task t)"
  by (simp_all add: raises_only_def db_query_def db_write_def flush_def commit_def rollback_def
      now_def draw_def audit_def add_task_def)

lemma raises_only_scalar_one_or_none [raises_intros]:
  "S MultipleResultsFound \<Longrightarrow> raises_only S (scalar_one_or_none xs)"
  by (cases xs rule: scalar_one_or_none.cases) (auto simp: raises_only_def)

lemma raises_only_redis_call: "raises_only (\<lambda>e. e = RedisError) (redis_call c)"
  by (auto simp: raises_only_def redis_call_def split: prod.splits option.splits)

lemma raises_only_redis [raises_intros]:
  assumes "S RedisError"
  shows "raises_only S (redis_exists E k)" "raises_only S (redis_get E k)"
    "raises_only S (redis_set E k v ex)" "raises_only S (redis_delete E k)"
    "raises_only S (redis_incr E k)" "raises_only S (redis_expire E k ex)"
    "raises_only S (redis_ping E)"
  using assms
  by (auto simp: redis_ops intro: raises_only_weaken [OF raises_only_redis_call])

text \<open>What a Redis command does to the rest of the state: nothing, whatever Redis does.\<close>

lemma runs_redis_call_blind:
  "runs (redis_call c) w (\<lambda>_ w'. but_redis w w') (\<lambda>e w'. e = RedisError \<and> but_redis w w')"
  by (auto simp: runs_def redis_call_def but_redis_def split: prod.splits option.splits)

lemma runs_redis_blind:
  assumes "\<And>x w'. but_redis w w' \<Longrightarrow> S x w'" and "\<And>w'. but_redis w w' \<Longrightarrow> F RedisError w'"
  shows "runs (redis_call c) w S F"
  using assms by (intro runs_mono [OF runs_redis_call_blind]) auto

text \<open>
  A program that only talks to Redis: its result and what it leaves in Redis are determined by the
  clock and the store, and it changes nothing else.
\<close>

definition redis_local :: "('r world, 'a) prog \<Rightarrow> bool" where
  "redis_local m \<longleftrightarrow> (\<forall>w. but_redis w (snd (m w))) \<and>
     (\<forall>w v. clock w = clock v \<and> redis w = redis v \<longrightarrow>
        fst (m w) = fst (m v) \<and> redis (snd (m w)) = redis (snd (m v)))"

lemma redis_localI:
  assumes "\<And>w. but_redis w (snd (m w))"
    and "\<And>w v. clock w = clock v \<Longrightarrow> redis w = redis v \<Longrightarrow>
      fst (m w) = fst (m v) \<and> redis (snd (m w)) = redis (snd (m v))"
  shows "redis_local m"
  unfolding redis_local_def using assms by blast

lemma redis_localD:
  assumes "redis_local m"
  shows "but_redis w (snd (m w))"
    and "clock w = clock v \<Longrightarrow> redis w = redis v \<Longrightarrow>
      fst (m w) = fst (m v) \<and> redis (snd (m w)) = redis (snd (m v))"
  using assms unfolding redis_local_def by blast+

lemma but_redis_refl [simp]: "but_redis w w"
  unfolding but_redis_def by (rule exI [of _ "redis w"]) simp

lemma redis_local_basic: "redis_local (ret x)" "redis_local (raise e)"
  by (auto intro: redis_localI)

lemma redis_local_call: "redis_local (redis_call c)"
  by (rule redis_localI) (auto simp: redis_call_def but_redis_def split: prod.splits option.splits)

lemma redis_local_pair:
  assumes m: "redis_local m" and same: "clock w = clock v" "redis w = redis v"
    and runs: "m w = (r, w')" "m v = (s, v')"
  shows "r = s" "redis w' = redis v'" "clock w' = clock v'" "but_redis w w'"
  using redis_localD(2) [OF m same] redis_localD(1) [OF m, of w] redis_localD(1) [OF m, of v] same runs
  by (auto dest!: but_redis_fields)

lemma redis_local_bnd:
  assumes m: "redis_local m" and f: "\<And>x. redis_local (f x)"
  shows "redis_local (bnd m f)"
proof (rule redis_localI)
  fix w
  obtain r w' where run: "m w = (r, w')" by fastforce
  from redis_localD(1) [OF m, of w] run have bw: "but_redis w w'" by simp
  show "but_redis w (snd (bnd m f w))"
  proof (cases r)
    case (Inr x)
    with run have "snd (bnd m f w) = snd (f x w')" by (simp add: bnd_def)
    with but_redis_trans [OF bw redis_localD(1) [OF f]] show ?thesis by simp
  qed (use run bw in \<open>simp add: bnd_def\<close>)
next
  fix w v :: "'a world"
  assume same: "clock w = clock v" "redis w = redis v"
  obtain r w' s v' where runs: "m w = (r, w')" "m v = (s, v')" by fastforce
  note eq = redis_local_pair [OF m same runs]
  show "fst (bnd m f w) = fst (bnd m f v) \<and> redis (snd (bnd m f w)) = redis (snd (bnd m f v))"
    using eq(1,2) runs redis_localD(2) [OF f eq(3,2)] by (cases s) (simp_all add: bnd_def)
qed

lemma redis_local_try_except:
  assumes m: "redis_local m" and h: "\<And>e. redis_local (h e)"
  shows "redis_local (try_except m c h)"
proof (rule redis_localI)
  fix w
  obtain r w' where run: "m w = (r, w')" by fastforce
  from redis_localD(1) [OF m, of w] run have bw: "but_redis w w'" by simp
  show "but_redis w (snd (try_except m c h w))"
  proof (cases r)
    case (Inl e)
    with run have "snd (try_except m c h w) = (if c e then snd (h e w') else w')"
      by (simp add: try_except_def)
    with bw but_redis_trans [OF bw redis_localD(1) [OF h]] show ?thesis by simp
  qed (use run bw in \<open>simp add: try_except_def\<close>)
next
  fix w v :: "'a world"
  assume same: "clock w = clock v" "redis w = redis v"
  obtain r w' s v' where runs: "m w = (r, w')" "m v = (s, v')" by fastforce
  note eq = redis_local_pair [OF m same runs]
  show "fst (try_except m c h w) = fst (try_except m c h v) \<and>
      redis (snd (try_except m c h w)) = redis (snd (try_except m c h v))"
    using eq(1,2) runs redis_localD(2) [OF h eq(3,2)] by (cases s) (simp_all add: try_except_def)
qed

lemma redis_local_cond:
  "redis_local m \<Longrightarrow> redis_local m' \<Longrightarrow> redis_local (if b then m else m')"
  "redis_local n \<Longrightarrow> redis_local (when_do b n)"
  by (simp_all add: when_do_def redis_local_basic)

lemmas redis_local_rules =
  redis_local_basic redis_local_call redis_local_bnd redis_local_try_except redis_local_cond

lemma runs_redis_local:
  assumes "redis_local m" and "\<And>x w'. but_redis w w' \<Longrightarrow> S x w'" and "\<And>e w'. but_redis w w' \<Longrightarrow> F e w'"
  shows "runs m w S F"
  using assms redis_localD(1) [OF assms(1), of w] by (auto simp: runs_def split: prod.splits sum.splits)

section \<open>Frame rules of the primitive steps\<close>

text \<open>
  A relation on states that allows what a request does besides writing tables, committing and
  calling Redis: draws, new audit entries with safe fields and background tasks; and one that allows Redis too.
\<close>

locale world_frame = frame T for T :: "'r world \<Rightarrow> 'r world \<Rightarrow> bool" +
  assumes T_draws: "T w (w\<lparr>draws := n\<rparr>)"
    and T_audit: "safe_fields fs \<Longrightarrow>
      T w (w\<lparr>audit_log := audit_log w @ [\<lparr>au_event = ev, au_user = u, au_fields = fs\<rparr>]\<rparr>)"
    and T_background: "T w (w\<lparr>background := b\<rparr>)"
begin

lemma db_query [intro]: "within T (db_query f)"
  by (simp add: db_query_def get_state)

lemma flush [intro]: "within T flush"
  by (simp add: flush_def ret)

lemma now [intro]: "within T now"
  by (simp add: now_def get_state)

lemma scalar_one_or_none [intro]: "within T (scalar_one_or_none xs)"
  by (simp add: within_def T_refl)

lemma db_write: "(\<And>w. T w (w\<lparr>db := f (db w)\<rparr>)) \<Longrightarrow> within T (db_write f)"
  by (simp add: within_def db_write_def)

lemma commit: "(\<And>w. T w (w\<lparr>committed := db w\<rparr>)) \<Longrightarrow> within T commit"
  by (simp add: within_def commit_def)

lemma draw [intro]: "within T (draw f)"
  by (simp add: within_def draw_def T_draws)

lemma audit [intro]: "safe_fields fs \<Longrightarrow> within T (audit ev u fs)"
  by (simp add: within_def audit_def T_audit)

lemma add_task [intro]: "within T (add_task t)"
  by (simp add: within_def add_task_def T_background)

lemmas world_rules =
  db_query flush now scalar_one_or_none draw audit safe_shapes add_task frame_rules

end

locale blind_frame = world_frame T for T :: "'r world \<Rightarrow> 'r world \<Rightarrow> bool" +
  assumes T_redis: "T w (w\<lparr>redis := r\<rparr>)"
begin

lemma redis_call [intro]: "within T (redis_call c)"
  by (auto simp: within_def redis_call_def T_redis split: prod.splits option.splits)

lemma redis_ops [intro]:
  "within T (redis_exists E k)" "within T (redis_get E k)" "within T (redis_set E k v ex)"
  "within T (redis_delete E k)" "within T (redis_incr E k)" "within T (redis_expire E k ex)"
  "within T (redis_ping E)"
  by (simp_all add: redis_ops redis_call)

lemmas blind_rules = redis_ops world_rules

end

text \<open>Every operation of a request leaves the clock alone.\<close>

interpretation same_clock: blind_frame "\<lambda>w w'. clock w' = clock w"
  by unfold_locales auto

text \<open>Facts of the tables alone: an invariant of the session's tables, and the tables themselves.\<close>

interpretation table_inv: blind_frame "\<lambda>w w'. I (db w) \<longrightarrow> I (db w')" for I :: "database \<Rightarrow> bool"
  by unfold_locales auto

interpretation same_tables: blind_frame "\<lambda>w w'. db w' = db w \<and> committed w' = committed w"
  by unfold_locales auto

text \<open>\<open>redis_only val K\<close>: of the values in Redis, only those of keys in \<open>K\<close> may change.\<close>

definition redis_only ::
    "('r \<Rightarrow> time \<Rightarrow> string \<Rightarrow> rval option) \<Rightarrow> string set \<Rightarrow> 'r world \<Rightarrow> 'r world \<Rightarrow> bool" where
  "redis_only val K w w' \<longleftrightarrow>
     clock w' = clock w \<and>
     (\<forall>t \<ge> clock w. \<forall>k. k \<notin> K \<longrightarrow> val (redis w') t k = val (redis w) t k)"

interpretation redis_only: world_frame "redis_only val K" for val K
  by unfold_locales (auto simp: redis_only_def)

lemma redis_onlyD:
  "redis_only val K w w' \<Longrightarrow> clock w \<le> t \<Longrightarrow> k \<notin> K \<Longrightarrow> val (redis w') t k = val (redis w) t k"
  "redis_only val K w w' \<Longrightarrow> clock w' = clock w"
  by (auto simp: redis_only_def)

lemma redis_only_db: "within (redis_only val K) (db_write f)" "within (redis_only val K) commit"
    "within (redis_only val K) rollback"
  by (auto simp: within_def redis_only_def db_write_def commit_def rollback_def)

section \<open>The commands of Redis\<close>

locale redis_env = redis_service "rds E" val up
  for E :: "'r env" and val :: "'r \<Rightarrow> time \<Rightarrow> string \<Rightarrow> rval option" and up :: "'r \<Rightarrow> bool"
begin

text \<open>The value a key has now, and the store seen from a later time.\<close>

abbreviation seen :: "'r world \<Rightarrow> string \<Rightarrow> rval option" where
  "seen w \<equiv> val (redis w) (clock w)"

text \<open>Which keys a command may change.\<close>

lemma within_redis_only:
  "within (redis_only val K) (redis_exists E k)" "within (redis_only val K) (redis_get E k)"
  "k \<in> K \<Longrightarrow> within (redis_only val K) (redis_set E k v ex)"
  "k \<in> K \<Longrightarrow> within (redis_only val K) (redis_delete E k)"
  "k \<in> K \<Longrightarrow> within (redis_only val K) (redis_incr E k)"
  "k \<in> K \<Longrightarrow> within (redis_only val K) (redis_expire E k ex)"
  "within (redis_only val K) (redis_ping E)"
proof -
  have call: "within (redis_only val K) (redis_call c)"
    if "\<And>now s x s' t k'. c now s = (x, s') \<Longrightarrow> now \<le> t \<Longrightarrow> k' \<notin> K \<Longrightarrow> val s' t k' = val s t k'"
    for c :: "time \<Rightarrow> 'r \<Rightarrow> 'x option \<times> 'r"
    using that
    by (auto simp: within_def redis_call_def redis_only_def split: prod.splits option.splits)
  show "within (redis_only val K) (redis_exists E k)"
    unfolding redis_ops by (rule call) (frule (1) exists_frame, simp)
  show "within (redis_only val K) (redis_get E k)"
    unfolding redis_ops by (rule call) (frule (1) get_frame, simp)
  show "within (redis_only val K) (redis_ping E)"
    unfolding redis_ops by (rule call) (frule (1) ping_frame, simp)
  assume k: "k \<in> K"
  then have ne: "k' \<noteq> k" if "k' \<notin> K" for k' using that by auto
  show "within (redis_only val K) (redis_set E k v ex)"
    unfolding redis_ops by (rule call) (rule set_other, assumption, assumption, erule ne)
  show "within (redis_only val K) (redis_delete E k)"
    unfolding redis_ops
  proof (rule call)
    fix now s x s' t k'
    assume del: "r_delete (rds E) now k s = (x, s')" and le: "now \<le> t" and "k' \<notin> K"
    then have "k' \<noteq> k" by (blast dest: ne)
    then show "val s' t k' = val s t k'"
      using delete_ok [OF _ le] delete_failed [OF _ le] del by (cases x) auto
  qed
  show "within (redis_only val K) (redis_incr E k)"
    unfolding redis_ops by (rule call) (rule incr_other, assumption, assumption, erule ne)
  show "within (redis_only val K) (redis_expire E k ex)"
    unfolding redis_ops by (rule call) (rule expire_other, assumption, assumption, erule ne)
qed

lemmas only_rules = within_redis_only redis_only_db redis_only.world_rules

text \<open>The two outcomes of a command: raised and nothing changed, or answered.\<close>

lemma runs_redis_call:
  assumes fail: "\<And>r' t. c (clock w) (redis w) = (None, r') \<Longrightarrow> clock w \<le> t \<Longrightarrow>
      val r' t = val (redis w) t"
    and ok: "\<And>x r' t. c (clock w) (redis w) = (Some x, r') \<Longrightarrow> clock w \<le> t \<Longrightarrow>
      val r' t = U x t (val (redis w) t)"
    and live: "\<And>x r'. up (redis w) \<Longrightarrow> c (clock w) (redis w) = (x, r') \<Longrightarrow> x \<noteq> None \<and> up r'"
    and raised: "\<And>w'. \<not> up (redis w) \<Longrightarrow> redis_upd val (\<lambda>t f. f) w w' \<Longrightarrow> F RedisError w'"
    and answered: "\<And>x r' w'. c (clock w) (redis w) = (Some x, r') \<Longrightarrow> redis_upd val (U x) w w' \<Longrightarrow>
      (up (redis w) \<Longrightarrow> up (redis w')) \<Longrightarrow> S x w'"
  shows "runs (redis_call c) w S F"
proof (cases "c (clock w) (redis w)")
  case (Pair x r')
  show ?thesis
  proof (cases x)
    case None
    have "redis_upd val (\<lambda>t f. f) w (w\<lparr>redis := r'\<rparr>)"
      using fail Pair None by (simp add: redis_upd_def)
    moreover have "\<not> up (redis w)" using live Pair None by blast
    ultimately show ?thesis using raised Pair None by (simp add: runs_def redis_call_def)
  next
    case (Some a)
    have "redis_upd val (U a) w (w\<lparr>redis := r'\<rparr>)"
      using ok Pair Some by (simp add: redis_upd_def)
    moreover have "up (redis w) \<Longrightarrow> up r'" using live Pair Some by blast
    ultimately show ?thesis
      using answered [of a r' "w\<lparr>redis := r'\<rparr>"] Pair Some by (simp add: runs_def redis_call_def)
  qed
qed

lemma runs_redis_exists:
  assumes "\<And>w'. \<not> up (redis w) \<Longrightarrow> redis_upd val (\<lambda>t f. f) w w' \<Longrightarrow> F RedisError w'"
    and "\<And>w'. redis_upd val (\<lambda>t f. f) w w' \<Longrightarrow> (up (redis w) \<Longrightarrow> up (redis w')) \<Longrightarrow>
      S (seen w k \<noteq> None) w'"
  shows "runs (redis_exists E k) w S F"
  unfolding redis_exists_def
proof (rule runs_redis_call [where U = "\<lambda>_ t f. f"])
  fix x r' w'
  assume call: "r_exists (rds E) (clock w) k (redis w) = (Some x, r')"
    and upd: "redis_upd val (\<lambda>t f. f) w w'" "up (redis w) \<Longrightarrow> up (redis w')"
  have "x = (seen w k \<noteq> None)" using exists_ok [OF call] by simp
  with assms(2) [OF upd] show "S x w'" by simp
qed (auto simp: assms(1) dest: exists_frame exists_up)

lemma runs_redis_get:
  assumes "\<And>w'. \<not> up (redis w) \<Longrightarrow> redis_upd val (\<lambda>t f. f) w w' \<Longrightarrow> F RedisError w'"
    and "\<And>x w'. redis_upd val (\<lambda>t f. f) w w' \<Longrightarrow> (up (redis w) \<Longrightarrow> up (redis w')) \<Longrightarrow>
      (seen w k = None \<Longrightarrow> x = None) \<Longrightarrow> (\<And>v. seen w k = Some (Text v) \<Longrightarrow> x = Some v) \<Longrightarrow>
      S x w'"
  shows "runs (redis_get E k) w S F"
  unfolding redis_get_def
proof (rule runs_redis_call [where U = "\<lambda>_ t f. f"])
  fix x r' w'
  assume call: "r_get (rds E) (clock w) k (redis w) = (Some x, r')"
    and upd: "redis_upd val (\<lambda>t f. f) w w'" "up (redis w) \<Longrightarrow> up (redis w')"
  show "S x w'"
    by (rule assms(2) [OF upd]) (auto dest: get_absent [OF call] get_text [OF call])
qed (auto simp: assms(1) dest: get_frame get_up)

lemma runs_redis_set:
  assumes "0 < ex"
    and "\<And>w'. \<not> up (redis w) \<Longrightarrow> redis_upd val (\<lambda>t f. f) w w' \<Longrightarrow> F RedisError w'"
    and "\<And>w'. redis_upd val (\<lambda>t f. f(k := if t < clock w + seconds ex then Some (Text v) else None)) w w' \<Longrightarrow>
      (up (redis w) \<Longrightarrow> up (redis w')) \<Longrightarrow> S () w'"
  shows "runs (redis_set E k v ex) w S F"
  unfolding redis_set_def
  by (rule runs_redis_call
        [where U = "\<lambda>_ t f. f(k := if t < clock w + seconds ex then Some (Text v) else None)"])
     (use assms in \<open>auto dest: set_ok set_failed set_up\<close>)

lemma runs_redis_delete:
  assumes "\<And>w'. \<not> up (redis w) \<Longrightarrow> redis_upd val (\<lambda>t f. f) w w' \<Longrightarrow> F RedisError w'"
    and "\<And>w'. redis_upd val (\<lambda>t f. f(k := None)) w w' \<Longrightarrow>
      (up (redis w) \<Longrightarrow> up (redis w')) \<Longrightarrow> S () w'"
  shows "runs (redis_delete E k) w S F"
  unfolding redis_delete_def
  by (rule runs_redis_call [where U = "\<lambda>_ t f. f(k := None)"])
     (use assms in \<open>auto dest: delete_ok delete_failed delete_up\<close>)

text \<open>\<open>INCR\<close> on a counter or an absent key.\<close>

fun count_of :: "rval option \<Rightarrow> int" where
  "count_of (Some (Count n)) = n"
| "count_of _ = 0"

definition bump :: "string \<Rightarrow> rval option \<Rightarrow> (string \<Rightarrow> rval option) \<Rightarrow> (string \<Rightarrow> rval option)" where
  "bump k old f = f(k := if old = None then Some (Count 1)
     else map_option (\<lambda>_. Count (count_of old + 1)) (f k))"

lemma runs_redis_incr:
  assumes num: "\<And>txt. seen w k \<noteq> Some (Text txt)"
    and raised: "\<And>w'. \<not> up (redis w) \<Longrightarrow> redis_upd val (\<lambda>t f. f) w w' \<Longrightarrow> F RedisError w'"
    and answered: "\<And>w'. redis_upd val (\<lambda>t. bump k (seen w k)) w w' \<Longrightarrow>
      (up (redis w) \<Longrightarrow> up (redis w')) \<Longrightarrow> S (count_of (seen w k) + 1) w'"
  shows "runs (redis_incr E k) w S F"
  unfolding redis_incr_def
proof (rule runs_redis_call [where U = "\<lambda>_ t. bump k (seen w k)"])
  fix r' t
  assume "r_incr (rds E) (clock w) k (redis w) = (None, r')" and "clock w \<le> t"
  then show "val r' t = val (redis w) t" by (rule incr_failed)
next
  fix x r' t
  assume "r_incr (rds E) (clock w) k (redis w) = (Some x, r')" and "clock w \<le> t"
  then show "val r' t = bump k (seen w k) (val (redis w) t)"
    using num incr_absent incr_count
    by (cases "seen w k"; cases "the (seen w k)") (fastforce simp: bump_def)+
next
  fix x r' w'
  assume call: "r_incr (rds E) (clock w) k (redis w) = (Some x, r')"
    and upd: "redis_upd val (\<lambda>t. bump k (seen w k)) w w'" "up (redis w) \<Longrightarrow> up (redis w')"
  from call have "x = count_of (seen w k) + 1"
    using num incr_absent incr_count
    by (cases "seen w k"; cases "the (seen w k)") fastforce+
  with answered upd show "S x w'" by simp
qed (use num raised in \<open>auto dest: incr_up\<close>)

lemma runs_redis_expire:
  assumes "0 < ex"
    and "\<And>w'. \<not> up (redis w) \<Longrightarrow> redis_upd val (\<lambda>t f. f) w w' \<Longrightarrow> F RedisError w'"
    and "\<And>w'. redis_upd val (\<lambda>t f. f(k := if t < clock w + seconds ex then seen w k else None)) w w' \<Longrightarrow>
      (up (redis w) \<Longrightarrow> up (redis w')) \<Longrightarrow> S () w'"
  shows "runs (redis_expire E k ex) w S F"
  unfolding redis_expire_def
  by (rule runs_redis_call
        [where U = "\<lambda>_ t f. f(k := if t < clock w + seconds ex then seen w k else None)"])
     (use assms in \<open>auto dest: expire_ok expire_failed expire_up\<close>)

end

text \<open>The reference store makes any environment one with a lawful Redis.\<close>

interpretation ref_env: redis_env "E\<lparr>rds := ref_redis\<rparr>" ref_val "\<lambda>s. faults s = []"
  for E :: "ref_store env"
proof -
  have "rds (E\<lparr>rds := ref_redis\<rparr>) = ref_redis" by simp
  then show "redis_env (E\<lparr>rds := ref_redis\<rparr>) ref_val (\<lambda>s. faults s = [])"
    unfolding redis_env_def using ref.redis_service_axioms by simp
qed

end
