(* ===== verification/Http.thy ===== *)
theory Http
  imports State
begin

text \<open>
  The request as the routes and dependencies read it: headers (looked up without regard to
  case, as Starlette does), cookies and the address of the peer; the client address the
  server derives from them (\<^verbatim>\<open>app/middleware/rate_limit.py\<close>); the security headers
  (\<^verbatim>\<open>app/middleware/security.py\<close>) and the authentication cookies (\<^verbatim>\<open>app/core/cookies.py\<close>).
\<close>

record request =
  rq_headers :: "(string \<times> string) list"
  rq_cookies :: "(string \<times> string) list"
  rq_client :: "string option"

text \<open>\<open>request.headers.get(name)\<close>: the first header of that name.\<close>

fun header_of :: "(string \<times> string) list \<Rightarrow> string \<Rightarrow> string option" where
  "header_of [] name = None"
| "header_of ((k, v) # hs) name = (if lower k = lower name then Some v else header_of hs name)"

definition cookie_of :: "request \<Rightarrow> string \<Rightarrow> string option" where
  "cookie_of rq name = map_of (rq_cookies rq) name"

text \<open>\<open>if not v\<close> on an optional string.\<close>

fun falsy :: "string option \<Rightarrow> bool" where
  "falsy None = True"
| "falsy (Some s) = (s = [])"

definition client_ip :: "request \<Rightarrow> string" where
  "client_ip rq =
     (case header_of (rq_headers rq) ''x-forwarded-for'' of
        Some f \<Rightarrow>
          if f \<noteq> [] then strip (hd (split_on (CHR '','') f))
          else (case rq_client rq of Some h \<Rightarrow> h | None \<Rightarrow> ''unknown'')
      | None \<Rightarrow> (case rq_client rq of Some h \<Rightarrow> h | None \<Rightarrow> ''unknown''))"

section \<open>Security headers\<close>

definition single_quoted :: "string \<Rightarrow> string" where
  "single_quoted s = [CHR 0x27] @ s @ [CHR 0x27]"

definition security_headers :: "(string \<times> string) list" where
  "security_headers =
     [(''X-Content-Type-Options'', ''nosniff''),
      (''X-Frame-Options'', ''DENY''),
      (''Referrer-Policy'', ''strict-origin-when-cross-origin''),
      (''X-XSS-Protection'', ''0''),
      (''Content-Security-Policy'', 
         ''default-src '' @ single_quoted ''self'' @ ''; frame-ancestors '' @ single_quoted ''none''),
      (''Permissions-Policy'', ''geolocation=(), microphone=(), camera=()'')]"

text \<open>\<open>response.headers.setdefault\<close>: add the header unless one of that name is there.\<close>

definition set_default :: "string \<times> string \<Rightarrow> response \<Rightarrow> response" where
  "set_default kv resp =
     (if header_of (resp_headers resp) (fst kv) = None
      then resp\<lparr>resp_headers := resp_headers resp @ [kv]\<rparr> else resp)"

text \<open>
  \<open>SecurityHeadersMiddleware.dispatch\<close>. Only a response comes back to the middleware; an
  exception passes through it.
\<close>

definition security_headers_dispatch ::
    "bool \<Rightarrow> (request \<Rightarrow> ('r world, response) prog) \<Rightarrow> request \<Rightarrow> ('r world, response) prog" where
  "security_headers_dispatch hsts call_next rq =
     bnd (call_next rq) (\<lambda>resp.
       let resp = fold set_default security_headers resp
       in ret (if hsts
               then set_default
                 (''Strict-Transport-Security'', ''max-age=63072000; includeSubDomains'') resp
               else resp))"

lemma header_of_append:
  "header_of (xs @ ys) n = (case header_of xs n of None \<Rightarrow> header_of ys n | Some v \<Rightarrow> Some v)"
  by (induction xs n rule: header_of.induct) auto

lemma set_default_keeps:
  "header_of (resp_headers r) n = Some v \<Longrightarrow> header_of (resp_headers (set_default kv r)) n = Some v"
  by (simp add: set_default_def header_of_append)

lemma fold_set_default_keeps:
  "header_of (resp_headers r) n = Some v \<Longrightarrow> header_of (resp_headers (fold set_default kvs r)) n = Some v"
  by (induction kvs arbitrary: r) (simp_all add: set_default_keeps)

lemma set_default_present: "header_of (resp_headers (set_default (k, v) r)) k \<noteq> None"
  by (auto simp: set_default_def header_of_append split: option.splits)

lemma fold_set_default_present:
  "(k, v) \<in> set kvs \<Longrightarrow> header_of (resp_headers (fold set_default kvs r)) k \<noteq> None"
proof (induction kvs arbitrary: r)
  case (Cons kv kvs)
  show ?case
  proof (cases "(k, v) = kv")
    case True
    then obtain v' where "header_of (resp_headers (set_default kv r)) k = Some v'"
      using set_default_present [of k v r] by auto
    then show ?thesis using fold_set_default_keeps by fastforce
  next
    case False
    with Cons show ?thesis by simp
  qed
qed simp

section \<open>Cookies\<close>

record token_pair =
  tp_access :: string
  tp_refresh :: string
  tp_refresh_ttl :: time

definition set_auth_cookies :: "settings \<Rightarrow> token_pair \<Rightarrow> string \<Rightarrow> cookie_op list" where
  "set_auth_cookies c pair csrf =
     [SetCookie (ACCESS_COOKIE_NAME c) (tp_access pair)
        \<lparr>c_max_age = ACCESS_TOKEN_EXPIRE_MINUTES c * 60, c_httponly = True,
         c_secure = COOKIE_SECURE c, c_samesite = same_site_str (COOKIE_SAMESITE c),
         c_domain = COOKIE_DOMAIN c, c_path = ''/''\<rparr>,
      SetCookie (REFRESH_COOKIE_NAME c) (tp_refresh pair)
        \<lparr>c_max_age = int_seconds (tp_refresh_ttl pair), c_httponly = True,
         c_secure = COOKIE_SECURE c, c_samesite = same_site_str (COOKIE_SAMESITE c),
         c_domain = COOKIE_DOMAIN c, c_path = API_V1_PREFIX c @ ''/auth''\<rparr>,
      SetCookie (CSRF_COOKIE_NAME c) csrf
        \<lparr>c_max_age = int_seconds (days (REFRESH_TOKEN_EXPIRE_DAYS c)), c_httponly = False,
         c_secure = COOKIE_SECURE c, c_samesite = same_site_str (COOKIE_SAMESITE c),
         c_domain = COOKIE_DOMAIN c, c_path = ''/''\<rparr>]"

definition clear_auth_cookies :: "settings \<Rightarrow> cookie_op list" where
  "clear_auth_cookies c =
     List.map (\<lambda>(name, path).
       DeleteCookie name path (COOKIE_DOMAIN c) (same_site_str (COOKIE_SAMESITE c)))
       [(ACCESS_COOKIE_NAME c, ''/''),
        (REFRESH_COOKIE_NAME c, API_V1_PREFIX c @ ''/auth''),
        (CSRF_COOKIE_NAME c, ''/'')]"

text \<open>Where a cookie lives: a later instruction for the same place replaces the earlier one.\<close>

fun cookie_slot :: "cookie_op \<Rightarrow> string \<times> string \<times> string option" where
  "cookie_slot (SetCookie n v a) = (n, c_path a, c_domain a)"
| "cookie_slot (DeleteCookie n p d s) = (n, p, d)"

lemma clear_covers_set:
  "List.map cookie_slot (clear_auth_cookies c) = List.map cookie_slot (set_auth_cookies c pair csrf)"
  by (simp add: clear_auth_cookies_def set_auth_cookies_def)

end
