(* ===== verification/Sample.thy ===== *)
theory Sample
  imports Redis_Client Http "HOL-Library.Countable"
begin

text \<open>
  A concrete environment and a concrete state, on which the witnesses apply the theorems:
  the reference store of Redis, and for every library a simple function with its documented
  behaviour. They model no code of the repository.
\<close>

instance jval :: countable
  by countable_datatype

text \<open>Any countable value as text, and back.\<close>

definition tally :: "'a::countable \<Rightarrow> string" where
  "tally x = CHR ''x'' # replicate (to_nat x) (CHR ''x'')"

definition untally :: "string \<Rightarrow> 'a::countable" where
  "untally s = from_nat (length (tl s))"

lemma untally_tally [simp]: "untally (tally x) = x"
  by (simp add: untally_def tally_def)

lemma tally_inject [simp]: "tally x = tally y \<longleftrightarrow> x = y"
  by (metis untally_tally)

text \<open>Signed claims: the claims with the key and the algorithm, refused from \<open>exp\<close> on.\<close>

fun claims_live :: "time \<Rightarrow> claims \<Rightarrow> bool" where
  "claims_live t c = (case map_of c ''exp'' of Some (JInt e) \<Rightarrow> t < seconds e | _ \<Rightarrow> True)"

declare claims_live.simps [simp del]

definition sample_jwt_encode :: "claims \<Rightarrow> string \<Rightarrow> string \<Rightarrow> string" where
  "sample_jwt_encode c key alg = tally (c, key, alg)"

definition sample_jwt_decode :: "time \<Rightarrow> string \<Rightarrow> string \<Rightarrow> string \<Rightarrow> claims option" where
  "sample_jwt_decode t tok key alg =
     (case untally tok of (c, key', alg') \<Rightarrow>
        if key' = key \<and> alg' = alg \<and> claims_live t c then Some c else None)"

text \<open>One-time passwords: the number of the 30-second step, six digits.\<close>

fun six_digits :: "nat \<Rightarrow> int \<Rightarrow> string" where
  "six_digits 0 n = []"
| "six_digits (Suc k) n = six_digits k (n div 10) @ [digit_char (nat (n mod 10))]"

definition sample_totp_verify :: "time \<Rightarrow> string \<Rightarrow> string \<Rightarrow> int \<Rightarrow> bool" where
  "sample_totp_verify t secret otp win =
     list_ex (\<lambda>i. otp = six_digits 6 (t div seconds 30 + i)) [- win..win]"

definition sample_env :: "ref_store env" where
  "sample_env = \<lparr>
     cfg = default_settings,
     rds = ref_redis,
     pwd_hash = (\<lambda>n p. ''argon2:'' @ p),
     pwd_verify = (\<lambda>p h. Some (h = ''argon2:'' @ p)),
     pwd_needs_update = (\<lambda>h. False),
     jwt_encode = sample_jwt_encode,
     jwt_decode = sample_jwt_decode,
     sha256_hex = (\<lambda>s. s),
     sha256_b64url = (\<lambda>s. s),
     fernet_key_ok = (\<lambda>k. True),
     fernet_encrypt = (\<lambda>n k p. k @ p),
     fernet_decrypt = (\<lambda>k c. if take (length k) c = k then Some (drop (length k) c) else None),
     totp_verify = sample_totp_verify,
     totp_uri = (\<lambda>secret name issuer. secret @ name @ issuer),
     random_base32 = (\<lambda>n. ''SECRET'' @ str_nat n),
     uuid4 = (\<lambda>n. of_nat (2 * n + 1)),
     uuid7 = (\<lambda>n. of_nat (2 * n + 2)),
     token_urlsafe = (\<lambda>bytes n. ''token'' @ str_nat n),
     rand_below = (\<lambda>bound n. n mod bound),
     qr_png = (\<lambda>uri. uri),
     base64_text = (\<lambda>bytes. bytes),
     ua_parse = (\<lambda>raw. \<lparr>ua_is_bot = False, ua_is_tablet = False, ua_is_mobile = False,
       ua_is_pc = True, ua_os_family = Some ''Linux'', ua_os_version = [],
       ua_device_family = None, ua_browser_family = Some ''Firefox'', ua_browser_version = ''115''\<rparr>),
     json_dumps = tally,
     json_loads = (\<lambda>s. Some (untally s)),
     py_repr = tally,
     urlencode = tally,
     http_send = (\<lambda>n rq. None),
     smtp_ok = (\<lambda>n. True),
     email_validate = (\<lambda>s. if CHR ''@'' \<in> set s then Some s else None),
     error_report = (\<lambda>fields. JList (List.map JStr fields))\<rparr>"

lemma cfg_sample [simp]: "cfg sample_env = default_settings"
  by (simp add: sample_env_def)

lemma rds_sample [simp]: "rds sample_env = ref_redis"
  by (simp add: sample_env_def)

lemma sample_fields [simp]:
  "pwd_hash sample_env n p = ''argon2:'' @ p" "pwd_verify sample_env p h = Some (h = ''argon2:'' @ p)"
  "\<not> pwd_needs_update sample_env h" "sha256_hex sample_env p = p" "sha256_b64url sample_env p = p"
  "random_base32 sample_env n = ''SECRET'' @ str_nat n" "uuid4 sample_env n = of_nat (2 * n + 1)"
  "uuid7 sample_env n = of_nat (2 * n + 2)" "token_urlsafe sample_env b n = ''token'' @ str_nat n"
  "rand_below sample_env k n = n mod k" "totp_verify sample_env = sample_totp_verify"
  "json_dumps sample_env v = tally v" "json_loads sample_env p = Some (untally p)"
  "smtp_ok sample_env n" "email_validate sample_env s = (if CHR ''@'' \<in> set s then Some s else None)"
  by (simp_all add: sample_env_def)

interpretation sample: redis_env sample_env ref_val "\<lambda>s. faults s = []"
  using ref_env.redis_env_axioms [of sample_env] by (simp add: sample_env_def)

definition sample_user :: user_row where
  "sample_user = \<lparr>u_id = 7, u_email = ''ann@example.org'', u_hashed_password = ''argon2:Secret-99'',
     u_full_name = ''Ann'', u_is_active = True, u_is_verified = True, u_is_superuser = False,
     u_created_at = 0\<rparr>"

definition sample_db :: database where
  "sample_db = empty_db\<lparr>users := [sample_user]\<rparr>"

definition sample_world :: "ref_store world" where
  "sample_world = \<lparr>clock = days 20000, draws = 0, redis = empty_store, db = sample_db,
     committed = sample_db, background = [], audit_log = [], outbox = []\<rparr>"

lemma sample_world_simps [simp]:
  "clock sample_world = days 20000" "draws sample_world = 0" "redis sample_world = empty_store"
  "db sample_world = sample_db" "committed sample_world = sample_db"
  "background sample_world = []" "audit_log sample_world = []" "outbox sample_world = []"
  by (simp_all add: sample_world_def)

lemma faults_empty_store [simp]: "faults empty_store = []"
  by (simp add: empty_store_def)

lemma ref_val_empty_store [simp]: "ref_val empty_store t k = None"
  by (simp add: empty_store_def ref_val_def)

lemma sample_tables [simp]:
  "users sample_db = [sample_user]" "roles sample_db = []" "permissions sample_db = []"
  "user_roles sample_db = []" "role_permissions sample_db = []" "sessions sample_db = []"
  "two_factors sample_db = []" "backup_codes sample_db = []" "email_tokens sample_db = []"
  "oauth_accounts sample_db = []"
  by (simp_all add: sample_db_def empty_db_def)

text \<open>A session of the sample user, last active ten minutes ago.\<close>

definition sample_session :: session_row where
  "sample_session = \<lparr>s_id = 3, s_user_id = 7, s_session_uuid = 9, s_refresh_token_id = ''jti'',
     s_device_name = ''Linux Desktop'', s_device_type = ''Desktop'', s_browser = ''Firefox'',
     s_browser_version = ''115'', s_operating_system = ''Linux'', s_operating_system_version = [],
     s_user_agent = ''Mozilla'', s_ip_address = ''10.0.0.1'', s_country = None, s_city = None,
     s_login_at = days 20000 - hours 1, s_last_activity_at = days 20000 - minutes 10,
     s_logout_at = None, s_expires_at = days 20006, s_logout_reason = None,
     s_is_current = False, s_is_active = True, s_request_count = 4,
     s_created_at = days 20000 - hours 1\<rparr>"

definition sample_login :: "ref_store world" where
  "sample_login = sample_world\<lparr>db := sample_db\<lparr>sessions := [sample_session]\<rparr>,
     committed := sample_db\<lparr>sessions := [sample_session]\<rparr>\<rparr>"

lemma sample_login_simps [simp]:
  "clock sample_login = days 20000" "redis sample_login = empty_store"
  "sessions (db sample_login) = [sample_session]" "users (db sample_login) = [sample_user]"
  "sessions (committed sample_login) = [sample_session]" "draws sample_login = 0"
  by (simp_all add: sample_login_def sample_db_def)

lemma sample_session_simps [simp]:
  "s_id sample_session = 3" "s_user_id sample_session = 7" "s_session_uuid sample_session = 9"
  "s_is_active sample_session" "s_expires_at sample_session = days 20006"
  "s_last_activity_at sample_session = days 20000 - minutes 10"
  "s_login_at sample_session = days 20000 - hours 1"
  by (simp_all add: sample_session_def)

lemma sample_user_simps [simp]:
  "u_id sample_user = 7" "u_email sample_user = ''ann@example.org''" "u_is_active sample_user"
  "u_is_verified sample_user" "u_hashed_password sample_user = ''argon2:Secret-99''"
  by (simp_all add: sample_user_def)

lemma tick_simps [simp]:
  "clock (tick d w) = clock w + d" "redis (tick d w) = redis w" "db (tick d w) = db w"
  "committed (tick d w) = committed w" "draws (tick d w) = draws w"
  "background (tick d w) = background w" "audit_log (tick d w) = audit_log w"
  "outbox (tick d w) = outbox w"
  by (simp_all add: tick_def)

end
