(* ===== verification/Security.thy ===== *)
theory Security
  imports Sample "HOL-Library.AList"
begin

text \<open>
  \<^verbatim>\<open>app/core/passwords.py\<close>, \<^verbatim>\<open>app/core/security.py\<close> and \<^verbatim>\<open>app/core/crypto.py\<close>: the password
  policy, hashing, the signed tokens and the encryption of secrets at rest. The libraries
  behind them (passlib, PyJWT, cryptography) are those of the environment.
\<close>

section \<open>The password policy\<close>

definition common_passwords :: "string list" where
  "common_passwords =
     [''password'', ''password1'', ''12345678'', ''qwerty123'', ''letmein1'', ''welcome1'',
      ''admin123'', ''iloveyou'', ''changeme'']"

definition MIN_LENGTH :: nat where
  "MIN_LENGTH = 8"

definition password_problems :: "string \<Rightarrow> string list" where
  "password_problems password =
     (if length password < MIN_LENGTH then [''at least '' @ str_nat MIN_LENGTH @ '' characters''] else []) @
     (if \<not> list_ex is_lower password then [''a lowercase letter''] else []) @
     (if \<not> list_ex is_upper password then [''an uppercase letter''] else []) @
     (if \<not> list_ex is_digit password then [''a digit''] else []) @
     (if \<not> list_ex (\<lambda>c. \<not> is_alnum c) password then [''a symbol''] else [])"

definition validate_password_strength :: "string \<Rightarrow> exn + unit" where
  "validate_password_strength password =
     (let problems = password_problems password in
      if problems \<noteq> [] then
        Inl (err ValidationError (''Password must contain '' @ join '', '' problems @ ''.''))
      else if lower password \<in> set common_passwords then
        Inl (err ValidationError ''This password is too common. Choose a stronger one.'')
      else Inr ())"

text \<open>The deny list is out of reach: all its entries lack a symbol, which the policy demands.\<close>

lemma common_passwords_no_symbol: "p \<in> set common_passwords \<Longrightarrow> list_all is_alnum p"
  by (auto simp: common_passwords_def is_alnum_def is_lower_def is_upper_def is_digit_def)

lemma validate_password_cases:
  "validate_password_strength p =
     (if password_problems p = [] then Inr ()
      else Inl (err ValidationError (''Password must contain '' @ join '', '' (password_problems p) @ ''.'')))"
proof -
  have False if "password_problems p = []" and "lower p \<in> set common_passwords"
  proof -
    from that(1) have "\<not> list_all is_alnum p"
      by (auto simp: password_problems_def list_ex_iff list_all_iff split: if_splits)
    with common_passwords_no_symbol [OF that(2)] show False
      by (simp add: list_all_alnum_lower)
  qed
  then show ?thesis by (auto simp: validate_password_strength_def Let_def)
qed

text \<open>
  The password policy, exactly: a password is accepted if and only if it has at least 8
  characters, among them a lower-case letter, an upper-case letter, a digit and a symbol; the
  refusal of a common password never happens, since every entry of the deny list already fails
  the policy.
\<close>

theorem password_policy:
  "(validate_password_strength p = Inr () \<longleftrightarrow>
      8 \<le> length p \<and> (\<exists>c \<in> set p. is_lower c) \<and> (\<exists>c \<in> set p. is_upper c) \<and>
      (\<exists>c \<in> set p. is_digit c) \<and> (\<exists>c \<in> set p. \<not> is_alnum c)) \<and>
   validate_password_strength p \<noteq>
      Inl (err ValidationError ''This password is too common. Choose a stronger one.'')"
  by (auto simp: validate_password_cases password_problems_def MIN_LENGTH_def list_ex_iff)

section \<open>Passwords at rest\<close>

definition hash_password :: "'r env \<Rightarrow> string \<Rightarrow> ('r world, string) prog" where
  "hash_password E password = draw (\<lambda>n. pwd_hash E n password)"

text \<open>passlib raises on a stored hash it cannot identify (a subclass of \<open>ValueError\<close>).\<close>

definition verify_password :: "'r env \<Rightarrow> string \<Rightarrow> string \<Rightarrow> ('r world, bool) prog" where
  "verify_password E password password_hash =
     (case pwd_verify E password password_hash of None \<Rightarrow> raise ValueError | Some b \<Rightarrow> ret b)"

definition needs_rehash :: "'r env \<Rightarrow> string \<Rightarrow> bool" where
  "needs_rehash E password_hash = pwd_needs_update E password_hash"

definition generate_csrf_token :: "'r env \<Rightarrow> ('r world, string) prog" where
  "generate_csrf_token E = draw (token_urlsafe E 32)"

section \<open>Signed tokens\<close>

text \<open>\<open>dict.update\<close>.\<close>

definition dict_update :: "claims \<Rightarrow> claims \<Rightarrow> claims" where
  "dict_update extra c = fold (\<lambda>(k, v). AList.update k v) extra c"

definition token_claims :: "string \<Rightarrow> string \<Rightarrow> string \<Rightarrow> time \<Rightarrow> time \<Rightarrow> claims \<Rightarrow> claims" where
  "token_claims subject token_type jti t expires_delta extra =
     dict_update extra
       [(''sub'', JStr subject), (''type'', JStr token_type), (''jti'', JStr jti),
        (''iat'', JInt (int_seconds t)), (''exp'', JInt (int_seconds (t + expires_delta)))]"

definition create_token ::
    "'r env \<Rightarrow> string \<Rightarrow> string \<Rightarrow> time \<Rightarrow> claims \<Rightarrow> ('r world, string \<times> string) prog" where
  "create_token E subject token_type expires_delta extra_claims =
     bnd (draw (uuid4 E)) (\<lambda>u.
     bnd now (\<lambda>t.
       let jti = uuid_str u;
           claims = token_claims subject token_type jti t expires_delta extra_claims
       in ret (jwt_encode E claims (SECRET_KEY (cfg E)) (JWT_ALGORITHM (cfg E)), jti)))"

definition decode_token :: "'r env \<Rightarrow> string \<Rightarrow> string option \<Rightarrow> ('r world, claims) prog" where
  "decode_token E token expected_type =
     bnd now (\<lambda>t.
       case jwt_decode E t token (SECRET_KEY (cfg E)) (JWT_ALGORITHM (cfg E)) of
         None \<Rightarrow> raise PyJWTError
       | Some payload \<Rightarrow>
           (case expected_type of
              None \<Rightarrow> ret payload
            | Some ty \<Rightarrow> if map_of payload ''type'' \<noteq> Some (JStr ty) then raise PyJWTError
                        else ret payload))"

text \<open>
  What is relied on of PyJWT: a token signed with the key and algorithm decodes to its claims
  before its expiry and is refused from then on.
\<close>

definition jwt_sound :: "'r env \<Rightarrow> bool" where
  "jwt_sound E \<longleftrightarrow> (\<forall>t c key alg.
     jwt_decode E t (jwt_encode E c key alg) key alg = (if claims_live t c then Some c else None))"

lemma jwt_sound_sample [simp]: "jwt_sound sample_env"
  by (simp add: jwt_sound_def sample_env_def sample_jwt_encode_def sample_jwt_decode_def)

lemma map_of_dict_update: "map_of (dict_update extra c) k = (map_of c ++ map_of (rev extra)) k"
  unfolding dict_update_def
  by (induction extra arbitrary: c)
     (auto simp: update_conv' map_add_def fun_upd_def split: option.splits)

text \<open>Claims that carry no key of the fixed part leave it alone.\<close>

definition extra_ok :: "claims \<Rightarrow> bool" where
  "extra_ok extra \<longleftrightarrow> fst ` set extra \<subseteq> {''sid'', ''remember_me''}"

lemma token_claims_lookup [simp]:
  assumes "extra_ok extra"
  shows "map_of (token_claims s ty j t d extra) ''sub'' = Some (JStr s)"
    "map_of (token_claims s ty j t d extra) ''type'' = Some (JStr ty)"
    "map_of (token_claims s ty j t d extra) ''jti'' = Some (JStr j)"
    "map_of (token_claims s ty j t d extra) ''exp'' = Some (JInt (int_seconds (t + d)))"
    "map_of (token_claims s ty j t d extra) ''sid'' = map_of (rev extra) ''sid''"
    "map_of (token_claims s ty j t d extra) ''remember_me'' = map_of (rev extra) ''remember_me''"
proof -
  have none: "map_of (rev extra) k = None" if "k \<notin> {''sid'', ''remember_me''}" for k
    using assms that by (auto simp: extra_ok_def map_of_eq_None_iff)
  show "map_of (token_claims s ty j t d extra) ''sub'' = Some (JStr s)"
    "map_of (token_claims s ty j t d extra) ''type'' = Some (JStr ty)"
    "map_of (token_claims s ty j t d extra) ''jti'' = Some (JStr j)"
    "map_of (token_claims s ty j t d extra) ''exp'' = Some (JInt (int_seconds (t + d)))"
    "map_of (token_claims s ty j t d extra) ''sid'' = map_of (rev extra) ''sid''"
    "map_of (token_claims s ty j t d extra) ''remember_me'' = map_of (rev extra) ''remember_me''"
    by (simp_all add: token_claims_def map_of_dict_update none map_add_def split: option.splits)
qed

lemma claims_live_token_claims [simp]:
  "extra_ok extra \<Longrightarrow> claims_live u (token_claims s ty j t d extra) \<longleftrightarrow> u < seconds (int_seconds (t + d))"
  by (simp add: claims_live.simps)

lemma create_token_run [simp]:
  "create_token E s ty d extra w =
     (Inr (jwt_encode E (token_claims s ty (uuid_str (uuid4 E (draws w))) (clock w) d extra)
             (SECRET_KEY (cfg E)) (JWT_ALGORITHM (cfg E)), uuid_str (uuid4 E (draws w))),
      w\<lparr>draws := Suc (draws w)\<rparr>)"
  by (simp add: create_token_def bnd_def draw_def now_def Let_def)

lemma decode_token_run:
  "decode_token E tok ty w =
     ((case jwt_decode E (clock w) tok (SECRET_KEY (cfg E)) (JWT_ALGORITHM (cfg E)) of
         None \<Rightarrow> Inl PyJWTError
       | Some p \<Rightarrow> if (case ty of None \<Rightarrow> True | Some y \<Rightarrow> map_of p ''type'' = Some (JStr y))
                  then Inr p else Inl PyJWTError), w)"
  by (simp add: decode_token_def now_def split: option.splits)

lemma raises_only_security [raises_intros]:
  "raises_only S (hash_password E p)" "raises_only S (generate_csrf_token E)"
  "raises_only S (create_token E s ty d extra)"
  "S ValueError \<Longrightarrow> raises_only S (verify_password E p h)"
  "S PyJWTError \<Longrightarrow> raises_only S (decode_token E tok ty')"
  unfolding hash_password_def generate_csrf_token_def create_token_def verify_password_def
    decode_token_def Let_def
  by (intro raises_intros | simp)+

context world_frame
begin

lemma security_ops [intro]:
  "within T (hash_password E p)" "within T (verify_password E p h)"
  "within T (generate_csrf_token E)" "within T (create_token E s ty d extra)"
  "within T (decode_token E tok ty')"
  unfolding hash_password_def verify_password_def generate_csrf_token_def create_token_def
    decode_token_def Let_def
  by (intro world_rules)+

end

section \<open>Encryption of secrets\<close>

text \<open>\<open>_fernet\<close>, called with every use: a key that is none of Fernet's raises.\<close>

definition fernet :: "'r env \<Rightarrow> exn + unit" where
  "fernet E = (if fernet_key_ok E (ENCRYPTION_KEY (cfg E)) then Inr () else Inl RuntimeError)"

definition encrypt :: "'r env \<Rightarrow> string \<Rightarrow> ('r world, string) prog" where
  "encrypt E plaintext =
     bnd (lift_sum (fernet E)) (\<lambda>_.
     draw (\<lambda>n. fernet_encrypt E n (ENCRYPTION_KEY (cfg E)) plaintext))"

definition decrypt :: "'r env \<Rightarrow> string \<Rightarrow> ('r world, string) prog" where
  "decrypt E ciphertext =
     bnd (lift_sum (fernet E)) (\<lambda>_.
     case fernet_decrypt E (ENCRYPTION_KEY (cfg E)) ciphertext of
       None \<Rightarrow> raise DecryptionError | Some s \<Rightarrow> ret s)"

text \<open>What a ciphertext comes to.\<close>

definition decrypted :: "'r env \<Rightarrow> string \<Rightarrow> exn + string" where
  "decrypted E ciphertext =
     (case fernet E of
        Inl e \<Rightarrow> Inl e
      | Inr _ \<Rightarrow> (case fernet_decrypt E (ENCRYPTION_KEY (cfg E)) ciphertext of
                    None \<Rightarrow> Inl DecryptionError | Some s \<Rightarrow> Inr s))"

lemma decrypt_lift: "decrypt E c = lift_sum (decrypted E c)"
  by (rule ext) (simp add: decrypt_def decrypted_def bnd_def split: sum.splits option.splits)

definition fernet_sound :: "'r env \<Rightarrow> bool" where
  "fernet_sound E \<longleftrightarrow> fernet_key_ok E (ENCRYPTION_KEY (cfg E)) \<and>
     (\<forall>n key s. fernet_decrypt E key (fernet_encrypt E n key s) = Some s)"

lemma decrypted_encrypted:
  "fernet_sound E \<Longrightarrow> fernet E = Inr ()"
  "fernet_sound E \<Longrightarrow> decrypted E (fernet_encrypt E n (ENCRYPTION_KEY (cfg E)) s) = Inr s"
  by (simp_all add: fernet_sound_def fernet_def decrypted_def)

lemma fernet_sound_sample [simp]: "fernet_sound sample_env"
  by (simp add: fernet_sound_def sample_env_def)

lemma raises_only_fernet [raises_intros]: "S RuntimeError \<Longrightarrow> raises_only S (lift_sum (fernet E))"
  by (simp add: fernet_def raises_only_def)

lemma raises_only_crypto [raises_intros]:
  "S RuntimeError \<Longrightarrow> raises_only S (encrypt E s)"
  "S RuntimeError \<Longrightarrow> S DecryptionError \<Longrightarrow> raises_only S (decrypt E c)"
  unfolding encrypt_def decrypt_def by (intro raises_intros | simp)+

context world_frame
begin

lemma crypto_ops [intro]: "within T (encrypt E s)" "within T (decrypt E c)"
  unfolding encrypt_def decrypt_def by (intro world_rules)+

end

end
