(* ===== verification/Keys.thy ===== *)
theory Keys
  imports Uuid
begin

text \<open>
  The keys the services use in Redis, as the format strings of the source build them. The
  services share one key space, so that they do not get into each other's way rests on the
  facts below: every key has one of the prefixes, and no two prefixes fit the same key.
\<close>

text \<open>\<open>_scoped\<close> of the rate limiter: the account in lower case, with the address if there is one.\<close>

definition scoped :: "string \<Rightarrow> string option \<Rightarrow> string" where
  "scoped identifier ip =
     (let identifier = lower identifier in
      case ip of
        None \<Rightarrow> identifier
      | Some a \<Rightarrow> if a = [] then identifier else identifier @ '':'' @ a)"

definition ratelimit_key :: "string \<Rightarrow> string" where
  "ratelimit_key key = ''ratelimit:'' @ key"

definition lockout_key :: "string \<Rightarrow> string option \<Rightarrow> string" where
  "lockout_key identifier ip = ''lockout:'' @ scoped identifier ip"

definition failcount_key :: "string \<Rightarrow> string option \<Rightarrow> string" where
  "failcount_key identifier ip = ''failcount:'' @ scoped identifier ip"

definition blacklist_key :: "string \<Rightarrow> string" where
  "blacklist_key jti = ''revoked_jti:'' @ jti"

definition revoked_key :: "uuid \<Rightarrow> string" where
  "revoked_key sid = ''session_revoked:'' @ uuid_str sid"

definition touch_key :: "uuid \<Rightarrow> string" where
  "touch_key sid = ''session_touch:'' @ uuid_str sid"

definition active_key :: "uuid \<Rightarrow> string" where
  "active_key sid = ''session_active:'' @ uuid_str sid"

definition otp_used_key :: "uuid \<Rightarrow> string \<Rightarrow> string" where
  "otp_used_key user_id otp = ''2fa_otp_used:'' @ uuid_str user_id @ '':'' @ otp"

definition oauth_state_key :: "string \<Rightarrow> string" where
  "oauth_state_key state = ''oauth_state:'' @ state"

lemmas key_defs =
  ratelimit_key_def lockout_key_def failcount_key_def blacklist_key_def revoked_key_def
  touch_key_def active_key_def otp_used_key_def oauth_state_key_def

lemma keys_inject [simp]:
  "ratelimit_key k = ratelimit_key k' \<longleftrightarrow> k = k'"
  "lockout_key i ip = lockout_key j jp \<longleftrightarrow> scoped i ip = scoped j jp"
  "failcount_key i ip = failcount_key j jp \<longleftrightarrow> scoped i ip = scoped j jp"
  "blacklist_key t = blacklist_key t' \<longleftrightarrow> t = t'"
  "revoked_key s = revoked_key s' \<longleftrightarrow> s = s'"
  "touch_key s = touch_key s' \<longleftrightarrow> s = s'"
  "active_key s = active_key s' \<longleftrightarrow> s = s'"
  "oauth_state_key o1 = oauth_state_key o2 \<longleftrightarrow> o1 = o2"
  by (simp_all add: key_defs)

lemma otp_used_key_inject [simp]:
  "otp_used_key u x = otp_used_key v y \<longleftrightarrow> u = v \<and> x = y"
  by (auto simp: otp_used_key_def)

lemma ratelimit_key_other [simp]:
  "ratelimit_key k \<noteq> lockout_key i ip" "ratelimit_key k \<noteq> failcount_key i ip"
  "ratelimit_key k \<noteq> blacklist_key t" "ratelimit_key k \<noteq> revoked_key s"
  "ratelimit_key k \<noteq> touch_key s" "ratelimit_key k \<noteq> active_key s"
  "ratelimit_key k \<noteq> otp_used_key u x" "ratelimit_key k \<noteq> oauth_state_key st"
  by (simp_all add: key_defs)

lemma lockout_key_other [simp]:
  "lockout_key i ip \<noteq> ratelimit_key k" "lockout_key i ip \<noteq> failcount_key j jp"
  "lockout_key i ip \<noteq> blacklist_key t" "lockout_key i ip \<noteq> revoked_key s"
  "lockout_key i ip \<noteq> touch_key s" "lockout_key i ip \<noteq> active_key s"
  "lockout_key i ip \<noteq> otp_used_key u x" "lockout_key i ip \<noteq> oauth_state_key st"
  by (simp_all add: key_defs)

lemma failcount_key_other [simp]:
  "failcount_key i ip \<noteq> ratelimit_key k" "failcount_key i ip \<noteq> lockout_key j jp"
  "failcount_key i ip \<noteq> blacklist_key t" "failcount_key i ip \<noteq> revoked_key s"
  "failcount_key i ip \<noteq> touch_key s" "failcount_key i ip \<noteq> active_key s"
  "failcount_key i ip \<noteq> otp_used_key u x" "failcount_key i ip \<noteq> oauth_state_key st"
  by (simp_all add: key_defs)

lemma blacklist_key_other [simp]:
  "blacklist_key t \<noteq> ratelimit_key k" "blacklist_key t \<noteq> lockout_key i ip"
  "blacklist_key t \<noteq> failcount_key i ip" "blacklist_key t \<noteq> revoked_key s"
  "blacklist_key t \<noteq> touch_key s" "blacklist_key t \<noteq> active_key s"
  "blacklist_key t \<noteq> otp_used_key u x" "blacklist_key t \<noteq> oauth_state_key st"
  by (simp_all add: key_defs)

lemma revoked_key_other [simp]:
  "revoked_key s \<noteq> ratelimit_key k" "revoked_key s \<noteq> lockout_key i ip"
  "revoked_key s \<noteq> failcount_key i ip" "revoked_key s \<noteq> blacklist_key t"
  "revoked_key s \<noteq> touch_key s'" "revoked_key s \<noteq> active_key s'"
  "revoked_key s \<noteq> otp_used_key u x" "revoked_key s \<noteq> oauth_state_key st"
  by (simp_all add: key_defs)

lemma touch_key_other [simp]:
  "touch_key s \<noteq> ratelimit_key k" "touch_key s \<noteq> lockout_key i ip"
  "touch_key s \<noteq> failcount_key i ip" "touch_key s \<noteq> blacklist_key t"
  "touch_key s \<noteq> revoked_key s'" "touch_key s \<noteq> active_key s'"
  "touch_key s \<noteq> otp_used_key u x" "touch_key s \<noteq> oauth_state_key st"
  by (simp_all add: key_defs)

lemma active_key_other [simp]:
  "active_key s \<noteq> ratelimit_key k" "active_key s \<noteq> lockout_key i ip"
  "active_key s \<noteq> failcount_key i ip" "active_key s \<noteq> blacklist_key t"
  "active_key s \<noteq> revoked_key s'" "active_key s \<noteq> touch_key s'"
  "active_key s \<noteq> otp_used_key u x" "active_key s \<noteq> oauth_state_key st"
  by (simp_all add: key_defs)

lemma otp_used_key_other [simp]:
  "otp_used_key u x \<noteq> ratelimit_key k" "otp_used_key u x \<noteq> lockout_key i ip"
  "otp_used_key u x \<noteq> failcount_key i ip" "otp_used_key u x \<noteq> blacklist_key t"
  "otp_used_key u x \<noteq> revoked_key s" "otp_used_key u x \<noteq> touch_key s"
  "otp_used_key u x \<noteq> active_key s" "otp_used_key u x \<noteq> oauth_state_key st"
  by (simp_all add: key_defs)

lemma oauth_state_key_other [simp]:
  "oauth_state_key st \<noteq> ratelimit_key k" "oauth_state_key st \<noteq> lockout_key i ip"
  "oauth_state_key st \<noteq> failcount_key i ip" "oauth_state_key st \<noteq> blacklist_key t"
  "oauth_state_key st \<noteq> revoked_key s" "oauth_state_key st \<noteq> touch_key s"
  "oauth_state_key st \<noteq> active_key s" "oauth_state_key st \<noteq> otp_used_key u x"
  by (simp_all add: key_defs)

text \<open>Two addresses of the same account have counters and locks of their own.\<close>

lemma scoped_ip_inject:
  "ip \<noteq> [] \<Longrightarrow> ip' \<noteq> [] \<Longrightarrow> scoped i (Some ip) = scoped i (Some ip') \<longleftrightarrow> ip = ip'"
  by (simp add: scoped_def)

lemma scoped_lower [simp]: "scoped (lower i) ip = scoped i ip"
  by (simp add: scoped_def)

end
