(* ===== verification/Rate_Limit.thy ===== *)
theory Rate_Limit
  imports Sample Keys
begin

text \<open>
  \<^verbatim>\<open>app/services/rate_limit.py\<close>: the fixed-window counter and the brute-force lockout, both
  kept in Redis, and the middleware of \<^verbatim>\<open>app/middleware/rate_limit.py\<close> that applies the
  counter to every request. Every Redis call may raise, between any two calls.
\<close>

section \<open>The rate limiter\<close>

definition hit :: "'r env \<Rightarrow> string \<Rightarrow> int \<Rightarrow> int \<Rightarrow> ('r world, unit) prog" where
  "hit E key limit window_seconds =
     (let redis_key = ratelimit_key key in
      bnd (try_except
            (bnd (redis_incr E redis_key) (\<lambda>count.
             bnd (when_do (count = 1) (redis_expire E redis_key window_seconds)) (\<lambda>_.
             ret count)))
            (\<lambda>e. e = RedisError)
            (\<lambda>_. raise (err0 ServiceUnavailable)))
          (\<lambda>count. if limit < count then raise (err0 RateLimited) else ret ()))"

definition ensure_not_locked :: "'r env \<Rightarrow> string \<Rightarrow> string option \<Rightarrow> ('r world, unit) prog" where
  "ensure_not_locked E identifier ip =
     bnd (try_except (redis_exists E (lockout_key identifier ip))
           (\<lambda>e. e = RedisError) (\<lambda>_. raise (err0 ServiceUnavailable)))
         (\<lambda>locked. if locked then raise (err0 AccountLocked) else ret ())"

definition record_failure :: "'r env \<Rightarrow> string \<Rightarrow> string option \<Rightarrow> ('r world, unit) prog" where
  "record_failure E identifier ip =
     (let key = failcount_key identifier ip in
      try_except
        (bnd (redis_incr E key) (\<lambda>count.
         bnd (when_do (count = 1) (redis_expire E key (LOCKOUT_SECONDS (cfg E)))) (\<lambda>_.
         when_do (MAX_FAILED_LOGINS (cfg E) \<le> count)
           (bnd (redis_set E (lockout_key identifier ip) ''1'' (LOCKOUT_SECONDS (cfg E))) (\<lambda>_.
            redis_delete E key)))))
        (\<lambda>e. e = RedisError) (\<lambda>_. ret ()))"

definition clear_failures :: "'r env \<Rightarrow> string \<Rightarrow> string option \<Rightarrow> ('r world, unit) prog" where
  "clear_failures E identifier ip =
     try_except
       (bnd (redis_delete E (failcount_key identifier ip)) (\<lambda>_.
        redis_delete E (lockout_key identifier ip)))
       (\<lambda>e. e = RedisError) (\<lambda>_. ret ())"

section \<open>The middleware\<close>

definition rate_limit_dispatch ::
    "'r env \<Rightarrow> (request \<Rightarrow> ('r world, response) prog) \<Rightarrow> request \<Rightarrow> ('r world, response) prog" where
  "rate_limit_dispatch E call_next rq =
     bnd (try_except
           (bnd (hit E (''global:'' @ client_ip rq) (RATE_LIMIT_PER_MINUTE (cfg E)) 60)
              (\<lambda>_. ret None))
           (\<lambda>_. True)
           (\<lambda>exc. case exc of
               App a \<Rightarrow>
                 if is_instance exc RateLimited
                 then ret (Some (json_response 429
                   (JObj [(''error'', JStr ''rate_limited''), (''detail'', JStr (err_message a))])))
                 else ret None
             | _ \<Rightarrow> ret None))
         (\<lambda>early. case early of Some resp \<Rightarrow> ret resp | None \<Rightarrow> call_next rq)"

section \<open>What the operations touch\<close>

context blind_frame
begin

lemma rate_limit_ops [intro]:
  "within T (hit E key l win)" "within T (ensure_not_locked E i ip)"
  "within T (record_failure E i ip)" "within T (clear_failures E i ip)"
  unfolding hit_def ensure_not_locked_def record_failure_def clear_failures_def Let_def
  by (intro blind_rules)+

end

lemma redis_local_rate_limit:
  "redis_local (hit E key l win)" "redis_local (ensure_not_locked E i ip)"
  "redis_local (record_failure E i ip)" "redis_local (clear_failures E i ip)"
  unfolding hit_def ensure_not_locked_def record_failure_def clear_failures_def Let_def redis_ops
  by (intro redis_local_rules)+

text \<open>
  The limiter and the lock check fail closed: only their own two exceptions escape, never one
  of the Redis client. Recording and clearing failures raise nothing.
\<close>

lemma raises_only_hit:
  "raises_only (\<lambda>e. e = err0 RateLimited \<or> e = err0 ServiceUnavailable) (hit E key l win)"
  unfolding hit_def Let_def
  by (intro raises_intros raises_only_try_except [where R = "\<lambda>e. e = RedisError"]) auto

lemma raises_only_ensure_not_locked:
  "raises_only (\<lambda>e. e = err0 AccountLocked \<or> e = err0 ServiceUnavailable) (ensure_not_locked E i ip)"
  unfolding ensure_not_locked_def
  by (intro raises_intros raises_only_try_except [where R = "\<lambda>e. e = RedisError"]) auto

lemma raises_only_failures [raises_intros]:
  "raises_only S (record_failure E i ip)" "raises_only S (clear_failures E i ip)"
  unfolding record_failure_def clear_failures_def Let_def
  by (intro raises_intros raises_only_try_except [where R = "\<lambda>e. e = RedisError"]; simp)+

lemma record_failure_total: "\<exists>w'. record_failure E i ip w = (Inr (), w')"
  using raises_nothing [OF raises_only_failures(1) [of "\<lambda>_. False"]] by simp

lemma clear_failures_total: "\<exists>w'. clear_failures E i ip w = (Inr (), w')"
  using raises_nothing [OF raises_only_failures(2) [of "\<lambda>_. False"]] by simp

section \<open>The fixed window\<close>

text \<open>
  \<open>attempts\<close> is a client that calls \<open>hit\<close> again and again, waiting the given times in between;
  \<open>counter_at\<close> says what the store holds for a counter: \<open>c\<close> hits (0: no key), expiring at \<open>e\<close>
  (\<open>None\<close>: never).
\<close>

fun attempts ::
    "'r env \<Rightarrow> string \<Rightarrow> int \<Rightarrow> int \<Rightarrow> time list \<Rightarrow> 'r world \<Rightarrow> (exn + unit) list \<times> 'r world" where
  "attempts E key limit win [] w = ([], w)"
| "attempts E key limit win (d # ds) w =
     (let (r, w') = hit E key limit win (tick d w);
          (rs, w'') = attempts E key limit win ds w'
      in (r # rs, w''))"

fun before :: "time \<Rightarrow> time option \<Rightarrow> bool" where
  "before t None = True"
| "before t (Some e) = (t < e)"

definition counter_at ::
    "('r \<Rightarrow> time \<Rightarrow> string \<Rightarrow> rval option) \<Rightarrow> 'r world \<Rightarrow> string \<Rightarrow> int \<Rightarrow> time option \<Rightarrow> bool" where
  "counter_at val w k c e \<longleftrightarrow>
     (\<forall>t \<ge> clock w. val (redis w) t k = (if before t e \<and> c \<noteq> 0 then Some (Count c) else None))"

lemma attempts_append:
  "attempts E key limit win (ds @ es) w =
     (let (rs, w') = attempts E key limit win ds w; (qs, w'') = attempts E key limit win es w'
      in (rs @ qs, w''))"
  by (induction ds arbitrary: w) (auto simp: split_def Let_def)

text \<open>The verdict on the hit that makes the counter \<open>n\<close>.\<close>

definition verdict :: "int \<Rightarrow> int \<Rightarrow> exn + unit" where
  "verdict limit n = (if limit < n then Inl (err0 RateLimited) else Inr ())"

lemma counter_at_tick: "0 \<le> d \<Longrightarrow> counter_at val w k c e \<Longrightarrow> counter_at val (tick d w) k c e"
  by (simp add: counter_at_def tick_def)

lemma counter_at_expired:
  "counter_at val w k c e \<Longrightarrow> \<not> before (clock w) e \<Longrightarrow> counter_at val w k 0 None"
  by (cases e) (auto simp: counter_at_def)

context redis_env
begin

lemma counter_seen:
  "counter_at val w k c e \<Longrightarrow> seen w k = (if before (clock w) e \<and> c \<noteq> 0 then Some (Count c) else None)"
  by (simp add: counter_at_def)

text \<open>A hit on a key that is not there starts a window; one inside a window counts.\<close>

lemma hit_first:
  assumes up: "up (redis w)" and fresh: "counter_at val w (ratelimit_key key) 0 e" and win: "0 < win"
    and hit: "hit E key limit win w = (r, w')"
  shows "r = verdict limit 1 \<and> up (redis w') \<and> clock w' = clock w \<and>
       counter_at val w' (ratelimit_key key) 1 (Some (clock w + seconds win))"
proof -
  let ?k = "ratelimit_key key"
  have none: "seen w ?k = None" using counter_seen [OF fresh] by simp
  let ?Q = "\<lambda>r w'. r = verdict limit 1 \<and> up (redis w') \<and> clock w' = clock w \<and>
       counter_at val w' (ratelimit_key key) 1 (Some (clock w + seconds win))"
  have "runs (hit E key limit win) w (\<lambda>x. ?Q (Inr x)) (\<lambda>e. ?Q (Inl e))"
    unfolding hit_def Let_def
    apply (intro runs_intros runs_redis_incr runs_redis_expire win)
    apply (auto simp: none up verdict_def redis_upd_fields counter_at_def redis_upd_val bump_def)
    done
  from runs_resultD [OF this hit] show ?thesis .
qed

lemma hit_next:
  assumes up: "up (redis w)" and cnt: "counter_at val w (ratelimit_key key) c e"
    and live: "before (clock w) e" and pos: "0 < c" and hit: "hit E key limit win w = (r, w')"
  shows "r = verdict limit (c + 1) \<and> up (redis w') \<and> clock w' = clock w \<and>
       counter_at val w' (ratelimit_key key) (c + 1) e"
proof -
  let ?k = "ratelimit_key key"
  have some: "seen w ?k = Some (Count c)" using counter_seen [OF cnt] live pos by simp
  have later: "counter_at val w' ?k (c + 1) e"
    if "redis_upd val (\<lambda>t. bump ?k (Some (Count c))) w w'" for w'
    using that cnt pos by (auto simp: counter_at_def redis_upd_val redis_upd_fields bump_def)
  let ?Q = "\<lambda>r w'. r = verdict limit (c + 1) \<and> up (redis w') \<and> clock w' = clock w \<and>
       counter_at val w' (ratelimit_key key) (c + 1) e"
  have "runs (hit E key limit win) w (\<lambda>x. ?Q (Inr x)) (\<lambda>e. ?Q (Inl e))"
    unfolding hit_def Let_def
    apply (intro runs_intros runs_redis_incr)
    using pos apply (auto intro!: later simp: some up verdict_def redis_upd_fields)
    done
  from runs_resultD [OF this hit] show ?thesis .
qed

text \<open>Inside a window, hits are admitted until the limit is reached.\<close>

lemma attempts_in_window:
  assumes "up (redis w)" and "counter_at val w (ratelimit_key key) c e" and "0 < c"
    and "list_all (\<lambda>d. 0 \<le> d) ds" and "before (clock w + sum_list ds) e"
    and "attempts E key limit win ds w = (rs, w')"
  shows "rs = List.map (\<lambda>i. verdict limit (c + 1 + int i)) [0..<length ds] \<and>
      up (redis w') \<and> clock w' = clock w + sum_list ds \<and>
      counter_at val w' (ratelimit_key key) (c + int (length ds)) e"
  using assms
proof (induction ds arbitrary: w c rs w')
  case (Cons d ds)
  let ?w = "tick d w"
  have nn: "0 \<le> sum_list ds" using Cons.prems(4) by (induction ds) auto
  have cnt: "counter_at val ?w (ratelimit_key key) c e"
    using Cons.prems by (intro counter_at_tick) auto
  have live: "before (clock ?w) e" using Cons.prems(5) nn by (cases e) (auto simp: tick_def)
  have up: "up (redis ?w)" using Cons.prems(1) by (simp add: tick_def)
  obtain r w1 where hit: "hit E key limit win ?w = (r, w1)" by (cases "hit E key limit win ?w")
  obtain rs1 w2 where rest: "attempts E key limit win ds w1 = (rs1, w2)"
    by (cases "attempts E key limit win ds w1")
  from hit_next [OF up cnt live Cons.prems(3) hit] have r: "r = verdict limit (c + 1)"
    and w1: "up (redis w1)" "clock w1 = clock ?w" "counter_at val w1 (ratelimit_key key) (c + 1) e"
    by auto
  have "rs1 = List.map (\<lambda>i. verdict limit (c + 1 + 1 + int i)) [0..<length ds] \<and>
      up (redis w2) \<and> clock w2 = clock w1 + sum_list ds \<and>
      counter_at val w2 (ratelimit_key key) (c + 1 + int (length ds)) e"
    using Cons.prems(3-5) w1 rest by (intro Cons.IH) (auto simp: tick_def add.assoc)
  then show ?case
    using r rest hit w1 Cons.prems(6)
    by (auto simp: split_def Let_def upt_Suc_map algebra_simps tick_def simp del: upt_Suc)
qed simp

lemma attempts_from_fresh:
  assumes "up (redis w)" and "counter_at val w (ratelimit_key key) 0 e" and "0 < win"
    and "list_all (\<lambda>d. 0 \<le> d) (d # ds)" and "sum_list ds < seconds win"
    and "attempts E key limit win (d # ds) w = (rs, w')"
  shows "rs = List.map (\<lambda>i. verdict limit (1 + int i)) [0..<length (d # ds)] \<and>
      up (redis w') \<and> clock w' = clock w + d + sum_list ds \<and>
      counter_at val w' (ratelimit_key key) (1 + int (length ds)) (Some (clock w + d + seconds win))"
proof -
  let ?w = "tick d w"
  have fresh: "counter_at val ?w (ratelimit_key key) 0 e"
    using assms by (intro counter_at_tick) auto
  have up: "up (redis ?w)" using assms(1) by (simp add: tick_def)
  obtain r w1 where hit: "hit E key limit win ?w = (r, w1)" by (cases "hit E key limit win ?w")
  obtain rs1 w2 where rest: "attempts E key limit win ds w1 = (rs1, w2)"
    by (cases "attempts E key limit win ds w1")
  from hit_first [OF up fresh assms(3) hit] have r: "r = verdict limit 1" and w1: "up (redis w1)"
      "clock w1 = clock ?w" "counter_at val w1 (ratelimit_key key) 1 (Some (clock ?w + seconds win))"
    by auto
  have "rs1 = List.map (\<lambda>i. verdict limit (1 + 1 + int i)) [0..<length ds] \<and>
      up (redis w2) \<and> clock w2 = clock w1 + sum_list ds \<and>
      counter_at val w2 (ratelimit_key key) (1 + int (length ds)) (Some (clock ?w + seconds win))"
    using assms w1 rest by (intro attempts_in_window) auto
  then show ?thesis
    using r rest hit w1 assms(6)
    by (auto simp: split_def Let_def upt_Suc_map algebra_simps tick_def simp del: upt_Suc)
qed

text \<open>A whole window, and the first hit after it, which opens the next one.\<close>

lemma attempts_window:
  assumes "up (redis w)" and "counter_at val w (ratelimit_key key) 0 e" and "0 < win"
    and "list_all (\<lambda>d. 0 \<le> d) (d # ds)" and "sum_list ds < seconds win"
    and "seconds win \<le> sum_list ds + d'"
  shows "fst (attempts E key limit win (d # ds @ [d']) w) =
      List.map (\<lambda>i. verdict limit (1 + int i)) [0..<length (d # ds)] @ [verdict limit 1]"
proof -
  obtain rs w1 where run: "attempts E key limit win (d # ds) w = (rs, w1)"
    by (cases "attempts E key limit win (d # ds) w")
  from attempts_from_fresh [OF assms(1-5) run]
  have rs: "rs = List.map (\<lambda>i. verdict limit (1 + int i)) [0..<length (d # ds)]"
    and w1: "up (redis w1)" "clock w1 = clock w + d + sum_list ds"
      "counter_at val w1 (ratelimit_key key) (1 + int (length ds)) (Some (clock w + d + seconds win))"
    by auto
  let ?w = "tick d' w1"
  have d': "0 \<le> d'" using assms(5,6) by simp
  have "counter_at val ?w (ratelimit_key key) 0 None"
  proof (rule counter_at_expired [OF counter_at_tick [OF d' w1(3)]])
    show "\<not> before (clock ?w) (Some (clock w + d + seconds win))"
      using w1(2) assms(6) by (simp add: tick_def)
  qed
  moreover have "up (redis ?w)" using w1(1) by (simp add: tick_def)
  ultimately have "fst (hit E key limit win ?w) = verdict limit 1"
    using hit_first [OF _ _ assms(3), of ?w key None limit] by (metis prod.collapse)
  moreover have "attempts E key limit win ((d # ds) @ [d']) w =
      (rs @ [fst (hit E key limit win ?w)], snd (hit E key limit win ?w))"
    using attempts_append [of E key limit win "d # ds" "[d']" w] run
    by (simp add: split_def Let_def)
  ultimately show ?thesis using rs by simp
qed

text \<open>A counter without an expiry never leaves the window, however long the client waits.\<close>

lemma attempts_stuck:
  assumes "up (redis w)" and "counter_at val w (ratelimit_key key) c None" and "0 < c" and "limit \<le> c"
    and "list_all (\<lambda>d. 0 \<le> d) ds"
  shows "fst (attempts E key limit win ds w) = replicate (length ds) (Inl (err0 RateLimited))"
proof -
  obtain rs w' where run: "attempts E key limit win ds w = (rs, w')"
    by (cases "attempts E key limit win ds w")
  from attempts_in_window [OF assms(1,2,3,5) _ run]
  have "rs = List.map (\<lambda>i. verdict limit (c + 1 + int i)) [0..<length ds]" by simp
  also have "\<dots> = replicate (length ds) (Inl (err0 RateLimited))"
    using assms(4) by (intro replicate_eqI) (auto simp: verdict_def)
  finally show ?thesis using run by simp
qed

text \<open>The expiry is set by a second command; if that one raises, the new counter has none.\<close>

lemma hit_without_expiry:
  assumes fresh: "counter_at val w (ratelimit_key key) 0 e" and win: "0 < win"
    and incr: "redis_incr E (ratelimit_key key) w = (Inr n, w1)"
    and raised: "redis_expire E (ratelimit_key key) win w1 = (Inl ex, w2)"
  shows "hit E key limit win w = (Inl (err0 ServiceUnavailable), w2) \<and>
      counter_at val w2 (ratelimit_key key) 1 None"
proof -
  let ?k = "ratelimit_key key"
  have none: "seen w ?k = None" using counter_seen [OF fresh] by simp
  have "runs (redis_incr E ?k) w (\<lambda>n v. n = 1 \<and> counter_at val v ?k 1 None) (\<lambda>_ _. True)"
    using none by (intro runs_redis_incr) (auto simp: counter_at_def redis_upd_val redis_upd_fields bump_def)
  from runs_InrD [OF this incr] have n: "n = 1" and c1: "counter_at val w1 ?k 1 None" by auto
  have "runs (redis_expire E ?k win) w1 (\<lambda>_ _. True) (\<lambda>ex v. ex = RedisError \<and> counter_at val v ?k 1 None)"
    using c1 by (intro runs_redis_expire win) (auto simp: counter_at_def redis_upd_val redis_upd_fields)
  from runs_InlD [OF this raised] have "ex = RedisError" "counter_at val w2 ?k 1 None" by auto
  with incr raised n show ?thesis
    by (simp add: hit_def Let_def bnd_def try_except_def when_do_def)
qed

end

section \<open>The lockout\<close>

text \<open>A client that does the same thing again and again, waiting the given times in between.\<close>

fun repeated :: "('r world \<Rightarrow> 'r world) \<Rightarrow> time list \<Rightarrow> 'r world \<Rightarrow> 'r world" where
  "repeated step [] w = w"
| "repeated step (d # ds) w = repeated step ds (step (tick d w))"

definition failures :: "'r env \<Rightarrow> string \<Rightarrow> string option \<Rightarrow> time list \<Rightarrow> 'r world \<Rightarrow> 'r world" where
  "failures E i ip ds w = repeated (\<lambda>w. snd (record_failure E i ip w)) ds w"

lemma repeated_append: "repeated step (ds @ es) w = repeated step es (repeated step ds w)"
  by (induction ds arbitrary: w) simp_all

text \<open>\<open>lock_at\<close>: the lock is there until \<open>e\<close>, and not at all if \<open>e\<close> is \<open>None\<close>.\<close>

definition lock_at ::
    "('r \<Rightarrow> time \<Rightarrow> string \<Rightarrow> rval option) \<Rightarrow> 'r world \<Rightarrow> string \<Rightarrow> time option \<Rightarrow> bool" where
  "lock_at val w k e \<longleftrightarrow>
     (\<forall>t \<ge> clock w. (val (redis w) t k \<noteq> None) = (case e of None \<Rightarrow> False | Some u \<Rightarrow> t < u))"

lemma lock_at_tick: "0 \<le> d \<Longrightarrow> lock_at val w k e \<Longrightarrow> lock_at val (tick d w) k e"
  by (simp add: lock_at_def tick_def)

context redis_env
begin

text \<open>The state of the guard after \<open>c\<close> failures that have not reached the limit.\<close>

definition guarded :: "'r world \<Rightarrow> string \<Rightarrow> string option \<Rightarrow> int \<Rightarrow> time option \<Rightarrow> bool" where
  "guarded w i ip c e \<longleftrightarrow>
     up (redis w) \<and> counter_at val w (failcount_key i ip) c e \<and> lock_at val w (lockout_key i ip) None"

text \<open>One failure: count it, and lock when the limit is reached.\<close>

lemma failure_step:
  assumes g: "guarded w i ip c e" and cfg: "0 < LOCKOUT_SECONDS (cfg E)"
    and c: "0 \<le> c" "c = 0 \<or> before (clock w) e"
    and run: "record_failure E i ip w = (r, w')"
  shows "clock w' = clock w \<and> up (redis w') \<and>
     (if MAX_FAILED_LOGINS (cfg E) \<le> c + 1
      then lock_at val w' (lockout_key i ip) (Some (clock w + seconds (LOCKOUT_SECONDS (cfg E))))
      else guarded w' i ip (c + 1) (if c = 0 then Some (clock w + seconds (LOCKOUT_SECONDS (cfg E))) else e))"
proof -
  let ?k = "failcount_key i ip" and ?l = "lockout_key i ip" and ?s = "seconds (LOCKOUT_SECONDS (cfg E))"
  from g have up: "up (redis w)" and cnt: "counter_at val w ?k c e" and free: "lock_at val w ?l None"
    by (auto simp: guarded_def)
  have seen: "seen w ?k = (if c = 0 then None else Some (Count c))"
    using counter_seen [OF cnt] c by auto
  let ?Q = "\<lambda>w'. clock w' = clock w \<and> up (redis w') \<and>
     (if MAX_FAILED_LOGINS (cfg E) \<le> c + 1 then lock_at val w' ?l (Some (clock w + ?s))
      else guarded w' i ip (c + 1) (if c = 0 then Some (clock w + ?s) else e))"
  have "runs (record_failure E i ip) w (\<lambda>_. ?Q) (\<lambda>_. ?Q)"
    unfolding record_failure_def Let_def
    apply (intro runs_intros runs_redis_incr runs_redis_expire runs_redis_set runs_redis_delete cfg)
    using c cnt free
    apply (auto simp: seen up cfg redis_upd_fields counter_at_def lock_at_def guarded_def redis_upd_val bump_def)
    done
  from runs_resultD [OF this run] show ?thesis .
qed

text \<open>The same after commands that have only read.\<close>

lemma failure_step_after:
  assumes g: "guarded w i ip c e" and sane: "sane (cfg E)" and c: "0 \<le> c" "c = 0 \<or> before (clock w) e"
    and w1: "redis_upd val (\<lambda>t f. f) w w1" "up (redis w1)"
    and w2: "w2 = snd (record_failure E i ip w1)"
  shows "clock w2 = clock w \<and> up (redis w2) \<and>
     (if MAX_FAILED_LOGINS (cfg E) \<le> c + 1
      then lock_at val w2 (lockout_key i ip) (Some (clock w + seconds (LOCKOUT_SECONDS (cfg E))))
      else guarded w2 i ip (c + 1) (if c = 0 then Some (clock w + seconds (LOCKOUT_SECONDS (cfg E))) else e))"
proof -
  have clk: "clock w1 = clock w" using redis_upd_fields(1) [OF w1(1)] .
  have "guarded w1 i ip c e"
    using g w1 by (auto simp: guarded_def counter_at_def lock_at_def clk redis_upd_val)
  from failure_step [OF this saneD(11) [OF sane] c(1)] c(2) w2 show ?thesis
    by (cases "record_failure E i ip w1") (auto simp: clk split: if_splits)
qed

lemma runs_ensure_not_locked:
  assumes "\<And>w'. \<not> up (redis w) \<Longrightarrow> redis_upd val (\<lambda>t f. f) w w' \<Longrightarrow> F (err0 ServiceUnavailable) w'"
    and "\<And>w'. seen w (lockout_key i ip) \<noteq> None \<Longrightarrow> redis_upd val (\<lambda>t f. f) w w' \<Longrightarrow> F (err0 AccountLocked) w'"
    and "\<And>w'. seen w (lockout_key i ip) = None \<Longrightarrow> redis_upd val (\<lambda>t f. f) w w' \<Longrightarrow>
      (up (redis w) \<Longrightarrow> up (redis w')) \<Longrightarrow> S () w'"
  shows "runs (ensure_not_locked E i ip) w S F"
  unfolding ensure_not_locked_def
  by (intro runs_intros runs_redis_exists) (auto intro!: runs_intros intro: assms)

lemma ensure_not_locked_outcome:
  assumes up: "up (redis w)" and lock: "lock_at val w (lockout_key i ip) e"
  shows "fst (ensure_not_locked E i ip w) =
      (if (case e of None \<Rightarrow> False | Some u \<Rightarrow> clock w < u) then Inl (err0 AccountLocked) else Inr ())"
proof -
  let ?Q = "\<lambda>r (w' :: 'a world). r =
      (if (case e of None \<Rightarrow> False | Some u \<Rightarrow> clock w < u) then Inl (err0 AccountLocked) else Inr ())"
  have seen: "(seen w (lockout_key i ip) \<noteq> None) = (case e of None \<Rightarrow> False | Some u \<Rightarrow> clock w < u)"
    using lock by (simp add: lock_at_def)
  have "runs (ensure_not_locked E i ip) w (\<lambda>x. ?Q (Inr x)) (\<lambda>e. ?Q (Inl e))"
    unfolding ensure_not_locked_def
    by (intro runs_intros runs_redis_exists) (use seen up in auto)
  from runs_resultD [OF this] show ?thesis by (metis prod.collapse)
qed

end

text \<open>
  A step that counts as one failure of \<open>i\<close> from \<open>ip\<close>, whatever else it does, in states with \<open>J\<close>:
  recording a failure, and below a log-in with a wrong password or a wrong one-time code. The
  lockout follows for all of them.
\<close>

locale counted_failure = redis_env E val up
  for E :: "'r env" and val :: "'r \<Rightarrow> time \<Rightarrow> string \<Rightarrow> rval option" and up :: "'r \<Rightarrow> bool" +
  fixes step :: "'r world \<Rightarrow> 'r world" and i :: string and ip :: "string option"
    and J :: "'r world \<Rightarrow> bool"
  assumes J_tick: "J w \<Longrightarrow> 0 \<le> d \<Longrightarrow> J (tick d w)"
    and J_step: "J w \<Longrightarrow> J (step w)"
    and counts: "J w \<Longrightarrow> guarded w i ip c e \<Longrightarrow> sane (cfg E) \<Longrightarrow> 0 \<le> c \<Longrightarrow> c = 0 \<or> before (clock w) e \<Longrightarrow>
      clock (step w) = clock w \<and> up (redis (step w)) \<and>
      (if MAX_FAILED_LOGINS (cfg E) \<le> c + 1
       then lock_at val (step w) (lockout_key i ip) (Some (clock w + seconds (LOCKOUT_SECONDS (cfg E))))
       else guarded (step w) i ip (c + 1) (if c = 0 then Some (clock w + seconds (LOCKOUT_SECONDS (cfg E))) else e))"
begin

lemma J_repeated: "J w \<Longrightarrow> list_all (\<lambda>d. 0 \<le> d) ds \<Longrightarrow> J (repeated step ds w)"
  by (induction ds arbitrary: w) (auto intro: J_tick J_step)

lemma guarded_tick: "0 \<le> d \<Longrightarrow> guarded w i ip c e \<Longrightarrow> guarded (tick d w) i ip c e"
  by (auto simp: guarded_def counter_at_tick lock_at_tick)

lemma below:
  assumes "J w" and "guarded w i ip c e" and "sane (cfg E)" and "0 < c"
    and "list_all (\<lambda>d. 0 \<le> d) ds" and "before (clock w + sum_list ds) e"
    and "c + int (length ds) < MAX_FAILED_LOGINS (cfg E)"
  shows "guarded (repeated step ds w) i ip (c + int (length ds)) e \<and>
      clock (repeated step ds w) = clock w + sum_list ds"
  using assms
proof (induction ds arbitrary: w c)
  case (Cons d ds)
  let ?w = "tick d w"
  have nn: "0 \<le> sum_list ds" using Cons.prems(5) by (induction ds) auto
  have J: "J ?w" and g: "guarded ?w i ip c e"
    using Cons.prems by (auto intro: J_tick guarded_tick)
  have live: "before (clock ?w) e" using Cons.prems(6) nn by (cases e) auto
  from counts [OF J g Cons.prems(3)] live Cons.prems(4,7)
  have w1: "guarded (step ?w) i ip (c + 1) e" "clock (step ?w) = clock ?w" by auto
  from Cons.IH [OF J_step [OF J] w1(1) Cons.prems(3)] Cons.prems w1 show ?case
    by (simp add: algebra_simps)
qed simp

lemma locks:
  assumes J: "J w" and g: "guarded w i ip 0 e" and sane: "sane (cfg E)"
    and ds: "list_all (\<lambda>d. 0 \<le> d) ds" "sum_list (tl ds) < seconds (LOCKOUT_SECONDS (cfg E))"
    and len: "int (length ds) \<le> MAX_FAILED_LOGINS (cfg E)"
  shows "up (redis (repeated step ds w)) \<and>
    lock_at val (repeated step ds w) (lockout_key i ip)
      (if int (length ds) = MAX_FAILED_LOGINS (cfg E)
       then Some (clock (repeated step ds w) + seconds (LOCKOUT_SECONDS (cfg E))) else None)"
proof (cases ds)
  case Nil
  with g saneD(10) [OF sane] show ?thesis by (auto simp: guarded_def)
next
  case (Cons d es)
  let ?w = "tick d w" and ?s = "seconds (LOCKOUT_SECONDS (cfg E))"
  have J0: "J ?w" and g0: "guarded ?w i ip 0 e"
    using g J ds Cons by (auto intro: J_tick guarded_tick)
  note first = counts [OF J0 g0 sane]
  show ?thesis
  proof (cases "es = []")
    case True
    with first Cons len show ?thesis by (auto simp: guarded_def split: if_splits)
  next
    case False
    then obtain fs f where es: "es = fs @ [f]" by (metis rev_exhaust)
    have long: "1 + int (length fs) < MAX_FAILED_LOGINS (cfg E)" using len Cons es by simp
    with first have w1: "guarded (step ?w) i ip 1 (Some (clock ?w + ?s))" "clock (step ?w) = clock ?w"
      by auto
    have nn: "0 \<le> f" "list_all (\<lambda>d. 0 \<le> d) fs" using ds Cons es by auto
    let ?v = "repeated step fs (step ?w)"
    have Jv: "J ?v" using J_repeated [OF J_step [OF J0] nn(2)] .
    have v: "guarded ?v i ip (1 + int (length fs)) (Some (clock ?w + ?s))"
        "clock ?v = clock ?w + sum_list fs"
      using below [OF J_step [OF J0] w1(1) sane, of fs] nn ds Cons es long w1(2) by auto
    have gv: "guarded (tick f ?v) i ip (1 + int (length fs)) (Some (clock ?w + ?s))"
      using v nn by (auto intro: guarded_tick)
    have "before (clock (tick f ?v)) (Some (clock ?w + ?s))"
      using v(2) ds(2) Cons es by simp
    from counts [OF J_tick [OF Jv nn(1)] gv sane] this
    have end_: "clock (step (tick f ?v)) = clock (tick f ?v) \<and> up (redis (step (tick f ?v))) \<and>
       (if MAX_FAILED_LOGINS (cfg E) \<le> (1 + int (length fs)) + 1
        then lock_at val (step (tick f ?v)) (lockout_key i ip) (Some (clock (tick f ?v) + ?s))
        else guarded (step (tick f ?v)) i ip ((1 + int (length fs)) + 1) (Some (clock ?w + ?s)))"
      by (simp cong: if_cong)
    have "repeated step ds w = step (tick f ?v)"
      using Cons es by (simp add: repeated_append)
    with end_ len Cons es show ?thesis by (auto simp: guarded_def split: if_splits)
  qed
qed

text \<open>The check after the failures and a wait.\<close>

lemma locks_check:
  assumes "J w" and "guarded w i ip 0 e" and "sane (cfg E)"
    and "list_all (\<lambda>d. 0 \<le> d) ds" and "sum_list (tl ds) < seconds (LOCKOUT_SECONDS (cfg E))"
    and "int (length ds) \<le> MAX_FAILED_LOGINS (cfg E)" and "0 \<le> d"
  shows "up (redis (tick d (repeated step ds w))) \<and>
    lock_at val (tick d (repeated step ds w)) (lockout_key i ip)
      (if int (length ds) = MAX_FAILED_LOGINS (cfg E)
       then Some (clock (repeated step ds w) + seconds (LOCKOUT_SECONDS (cfg E))) else None)"
  using locks [OF assms(1-6)] lock_at_tick [OF assms(7)] by auto

end

sublocale redis_env \<subseteq> recorded: counted_failure E val up "\<lambda>w. snd (record_failure E i ip w)" i ip "\<lambda>_. True"
  for i ip
proof unfold_locales
  fix w c e
  assume "guarded w i ip c e" "sane (cfg E)" "0 \<le> c" "c = 0 \<or> before (clock w) e"
  then show "clock (snd (record_failure E i ip w)) = clock w \<and> up (redis (snd (record_failure E i ip w))) \<and>
     (if MAX_FAILED_LOGINS (cfg E) \<le> c + 1
      then lock_at val (snd (record_failure E i ip w)) (lockout_key i ip)
        (Some (clock w + seconds (LOCKOUT_SECONDS (cfg E))))
      else guarded (snd (record_failure E i ip w)) i ip (c + 1)
        (if c = 0 then Some (clock w + seconds (LOCKOUT_SECONDS (cfg E))) else e))"
    using failure_step [of w i ip c e] saneD(11) by (metis prod.collapse)
qed simp_all

context redis_env
begin

lemmas recorded_locks_check = recorded.locks_check

end

text \<open>The keys an operation may change.\<close>

context redis_env
begin

lemma rate_limit_only:
  "ratelimit_key key \<in> K \<Longrightarrow> within (redis_only val K) (hit E key l win)"
  "within (redis_only val K) (ensure_not_locked E i ip)"
  "failcount_key i ip \<in> K \<Longrightarrow> lockout_key i ip \<in> K \<Longrightarrow> within (redis_only val K) (record_failure E i ip)"
  "failcount_key i ip \<in> K \<Longrightarrow> lockout_key i ip \<in> K \<Longrightarrow> within (redis_only val K) (clear_failures E i ip)"
  unfolding hit_def ensure_not_locked_def record_failure_def clear_failures_def Let_def
  by (intro only_rules; assumption)+

lemma failures_isolated:
  assumes other: "scoped i ip \<noteq> scoped j jp"
    and run: "record_failure E i ip w = (r, w') \<or> clear_failures E i ip w = (r, w')"
    and t: "clock w \<le> t"
  shows "val (redis w') t (lockout_key j jp) = val (redis w) t (lockout_key j jp) \<and>
      val (redis w') t (failcount_key j jp) = val (redis w) t (failcount_key j jp)"
proof -
  let ?K = "{failcount_key i ip, lockout_key i ip}"
  have only: "redis_only val ?K w w'"
    using run rate_limit_only(3,4) [of i ip ?K] by (auto dest: withinD)
  show ?thesis using other by (intro conjI redis_onlyD(1) [OF only t]) auto
qed

end

lemma redis_raises:
  "redis_incr E k w = (Inl e, w') \<Longrightarrow> e = RedisError"
  "redis_exists E k w = (Inl e, w') \<Longrightarrow> e = RedisError"
  unfolding redis_ops by (rule raises_onlyD [OF raises_only_redis_call], assumption)+

lemma fail_closed:
  "redis_incr E (ratelimit_key key) w = (Inl e, w') \<Longrightarrow>
     hit E key limit win w = (Inl (err0 ServiceUnavailable), w')"
  "redis_exists E (lockout_key i ip) w = (Inl e, w') \<Longrightarrow>
     ensure_not_locked E i ip w = (Inl (err0 ServiceUnavailable), w')"
  by (frule redis_raises, simp add: hit_def ensure_not_locked_def Let_def bnd_def try_except_def)+

section \<open>What the limiter and the lockout promise\<close>

text \<open>
  C34. The fixed window: of the hits of a client on a key that has no counter yet, made within
  \<open>win\<close> seconds of the first, exactly the first \<open>limit\<close> are admitted and every later one is
  refused with 429; refused hits do not prolong the window, so the first hit after it is judged
  as the first of a new window.
\<close>

theorem hit_fixed_window:
  assumes "redis_env E val up" and "up (redis w)"
    and "\<forall>t \<ge> clock w. val (redis w) t (ratelimit_key key) = None"
    and "0 < win" and "list_all (\<lambda>d. 0 \<le> d) (d # ds)"
    and "sum_list ds < seconds win" and "seconds win \<le> sum_list ds + d'"
  shows "fst (attempts E key limit win (d # ds @ [d']) w) =
      List.map (\<lambda>i. if limit < 1 + int i then Inl (err0 RateLimited) else Inr ())
        [0..<length (d # ds)] @
      [if limit < 1 then Inl (err0 RateLimited) else Inr ()]"
  using redis_env.attempts_window [OF assms(1,2) _ assms(4-7), of key None limit] assms(3)
  by (simp add: counter_at_def verdict_def del: upt_Suc)

theorem hit_fixed_window_witness:
  "fst (attempts sample_env ''auth:ip'' 2 60 [0, 5, 5, seconds 60] sample_world) =
     [Inr (), Inr (), Inl (err0 RateLimited), Inr ()]"
proof -
  have "fst (attempts sample_env ''auth:ip'' 2 60 (0 # [5, 5] @ [seconds 60]) sample_world) =
      List.map (\<lambda>i. if 2 < 1 + int i then Inl (err0 RateLimited) else Inr ())
        [0..<length [0 :: int, 5, 5]] @ [if (2 :: int) < 1 then Inl (err0 RateLimited) else Inr ()]"
    by (rule hit_fixed_window [OF sample.redis_env_axioms]) (simp_all add: seconds_def)
  then show ?thesis by (simp add: upt_rec)
qed



text \<open>
  The lockout is per account and address: whatever the operations on one pair do, and
  whichever of their Redis commands fail, the lock and the failure counter of every other pair
  keep their values at all times.
\<close>

theorem lockout_isolated:
  assumes "redis_env E val up" and "scoped i ip \<noteq> scoped j jp"
    and "record_failure E i ip w = (r, w') \<or> clear_failures E i ip w = (r, w')"
    and "clock w \<le> t"
  shows "val (redis w') t (lockout_key j jp) = val (redis w) t (lockout_key j jp) \<and>
      val (redis w') t (failcount_key j jp) = val (redis w) t (failcount_key j jp)"
  by (rule redis_env.failures_isolated [OF assms])

theorem lockout_isolated_witness:
  "ref_val (redis (snd (record_failure sample_env ''ann@example.org'' (Some ''10.0.0.1'') sample_world)))
     (days 20001) (lockout_key ''ann@example.org'' (Some ''10.0.0.2'')) = None"
  using lockout_isolated [OF sample.redis_env_axioms, of "''ann@example.org''" "Some ''10.0.0.1''"
      "''ann@example.org''" "Some ''10.0.0.2''" sample_world
      "fst (record_failure sample_env ''ann@example.org'' (Some ''10.0.0.1'') sample_world)"
      "snd (record_failure sample_env ''ann@example.org'' (Some ''10.0.0.1'') sample_world)" "days 20001"]
  by (simp add: scoped_def lower_def time_defs)

text \<open>
  C35. Redis down: the limiter and the lock check refuse with 503, so an outage never admits an
  attempt, while the global middleware lets the request through, since it only ever answers
  itself when the limit is exceeded.
\<close>

theorem redis_outage_policy:
  shows "(redis_incr E (ratelimit_key key) w = (Inl e, w') \<longrightarrow>
            hit E key limit win w = (Inl (err0 ServiceUnavailable), w')) \<and>
    (redis_exists E (lockout_key i ip) w = (Inl e, w') \<longrightarrow>
            ensure_not_locked E i ip w = (Inl (err0 ServiceUnavailable), w')) \<and>
    (redis_incr E (ratelimit_key (''global:'' @ client_ip rq)) w = (Inl e, w') \<longrightarrow>
            rate_limit_dispatch E next_app rq w = next_app rq w')"
proof (intro conjI impI)
  assume "redis_incr E (ratelimit_key (''global:'' @ client_ip rq)) w = (Inl e, w')"
  from fail_closed(1) [OF this, of "RATE_LIMIT_PER_MINUTE (cfg E)" 60]
  show "rate_limit_dispatch E next_app rq w = next_app rq w'"
    by (simp add: rate_limit_dispatch_def bnd_def try_except_def)
qed (simp_all add: fail_closed)

theorem redis_outage_policy_witness:
  "hit sample_env ''auth:ip'' 10 60 (sample_world\<lparr>redis := empty_store\<lparr>faults := [True]\<rparr>\<rparr>) =
     (Inl (err0 ServiceUnavailable), sample_world)"
proof -
  let ?w = "sample_world\<lparr>redis := empty_store\<lparr>faults := [True]\<rparr>\<rparr>"
  have "redis_incr sample_env (ratelimit_key ''auth:ip'') ?w = (Inl RedisError, sample_world)"
    by (simp add: redis_incr_def redis_call_def ref_redis_def unless_fault_def sample_world_def
        empty_store_def)
  then show ?thesis
    using redis_outage_policy [of sample_env "''auth:ip''" ?w RedisError sample_world 10 60] by blast
qed

text \<open>
  The counter and its expiry are two commands: if the first hit counts and the connection
  fails before the expiry is set, the counter never expires. After \<open>limit\<close> hits in all, every
  further hit on the key is refused, however long the client waits in between.
\<close>

theorem hit_counter_without_expiry:
  assumes "redis_env E val up" and "\<forall>t \<ge> clock w. val (redis w) t (ratelimit_key key) = None"
    and "0 < win" and "redis_incr E (ratelimit_key key) w = (Inr n, w1)"
    and "redis_expire E (ratelimit_key key) win w1 = (Inl ex, w2)"
    and "up (redis w2)" and "0 < limit"
    and "list_all (\<lambda>d. 0 \<le> d) ds" and "list_all (\<lambda>d. 0 \<le> d) es"
    and "int (length ds) = limit - 1"
  shows "hit E key limit win w = (Inl (err0 ServiceUnavailable), w2) \<and>
    fst (attempts E key limit win (ds @ es) w2) =
      replicate (length ds) (Inr ()) @ replicate (length es) (Inl (err0 RateLimited))"
proof -
  from redis_env.hit_without_expiry [OF assms(1) _ assms(3-5), of None limit] assms(2)
  have hit: "hit E key limit win w = (Inl (err0 ServiceUnavailable), w2)"
    and c1: "counter_at val w2 (ratelimit_key key) 1 None"
    by (auto simp: counter_at_def)
  obtain rs w3 where run: "attempts E key limit win ds w2 = (rs, w3)"
    by (cases "attempts E key limit win ds w2")
  from redis_env.attempts_in_window [OF assms(1,6) c1 _ assms(8) _ run]
  have rs: "rs = List.map (\<lambda>i. verdict limit (1 + 1 + int i)) [0..<length ds]"
    and w3: "up (redis w3)" "counter_at val w3 (ratelimit_key key) (1 + int (length ds)) None"
    by auto
  have "rs = replicate (length ds) (Inr ())"
    unfolding rs using assms(10) by (intro replicate_eqI) (auto simp: verdict_def)
  moreover have "fst (attempts E key limit win es w3) =
      replicate (length es) (Inl (err0 RateLimited))"
    using redis_env.attempts_stuck [OF assms(1) w3] assms(9,10) by simp
  ultimately show ?thesis
    using hit run attempts_append [of E key limit win ds es w2] by (simp add: split_def Let_def)
qed

theorem hit_counter_without_expiry_witness:
  "fst (attempts sample_env ''auth:ip'' 1 60 ([] @ [days 1, days 100]) (snd (hit sample_env ''auth:ip'' 1 60
     (sample_world\<lparr>redis := empty_store\<lparr>faults := [False, True]\<rparr>\<rparr>)))) =
     [Inl (err0 RateLimited), Inl (err0 RateLimited)]"
proof -
  let ?k = "ratelimit_key ''auth:ip''"
  let ?w = "sample_world\<lparr>redis := empty_store\<lparr>faults := [False, True]\<rparr>\<rparr>"
  let ?w1 = "snd (redis_incr sample_env ?k ?w)" and ?w2 = "snd (redis_expire sample_env ?k 60
     (snd (redis_incr sample_env ?k ?w)))"
  have run: "redis_incr sample_env ?k ?w = (Inr 1, ?w1)"
      "redis_expire sample_env ?k 60 ?w1 = (Inl RedisError, ?w2)" "faults (redis ?w2) = []"
    by (simp_all add: redis_incr_def redis_expire_def redis_call_def ref_redis_def
        unless_fault_def ref_incr_def)
  from hit_counter_without_expiry [OF sample.redis_env_axioms _ _ run(1,2,3), of 1 "[]" "[days 1, days 100]"]
  show ?thesis by (simp add: time_defs numeral_2_eq_2)
qed

end
