(* ===== verification/Token.thy ===== *)
theory Token
  imports Security Rate_Limit
begin

text \<open>
  \<^verbatim>\<open>app/services/token.py\<close>: access, refresh and pre-authentication tokens, and the blacklist
  of refresh tokens in Redis.

  The claims \<open>sub\<close>, \<open>jti\<close> and \<open>sid\<close> are strings in every token the server signs; reading one
  that is not is the exception \<open>OtherError\<close> (an attribute error inside \<open>uuid.UUID\<close>).
\<close>

section \<open>Reading claims\<close>

text \<open>\<open>payload[k]\<close> for a claim that is text.\<close>

definition str_claim :: "claims \<Rightarrow> string \<Rightarrow> exn + string" where
  "str_claim payload k =
     (case map_of payload k of
        None \<Rightarrow> Inl KeyError
      | Some (JStr s) \<Rightarrow> Inr s
      | Some _ \<Rightarrow> Inl OtherError)"

text \<open>\<open>payload.get(k)\<close> for a claim that is text: \<open>None\<close> where \<open>if v\<close> is false.\<close>

definition get_claim :: "claims \<Rightarrow> string \<Rightarrow> string option" where
  "get_claim payload k =
     (case map_of payload k of Some (JStr s) \<Rightarrow> if s = [] then None else Some s | _ \<Rightarrow> None)"

lemma str_claim_simps [simp]:
  "map_of p k = Some (JStr s) \<Longrightarrow> str_claim p k = Inr s"
  "map_of p k = Some (JStr s) \<Longrightarrow> s \<noteq> [] \<Longrightarrow> get_claim p k = Some s"
  "map_of p k = None \<Longrightarrow> get_claim p k = None"
  by (simp_all add: str_claim_def get_claim_def)

section \<open>The service\<close>

definition refresh_ttl :: "settings \<Rightarrow> bool \<Rightarrow> time" where
  "refresh_ttl c remember_me =
     days (if remember_me then REFRESH_TOKEN_REMEMBER_ME_DAYS c else REFRESH_TOKEN_EXPIRE_DAYS c)"

definition sid_claims :: "string option \<Rightarrow> claims" where
  "sid_claims session_id =
     (case session_id of None \<Rightarrow> [] | Some s \<Rightarrow> if s = [] then [] else [(''sid'', JStr s)])"

definition issue_pair ::
    "'r env \<Rightarrow> string \<Rightarrow> bool \<Rightarrow> string option \<Rightarrow> ('r world, token_pair \<times> string) prog" where
  "issue_pair E user_id remember_me session_id =
     (let claims = sid_claims session_id in
      bnd (create_token E user_id ''access'' (minutes (ACCESS_TOKEN_EXPIRE_MINUTES (cfg E))) claims)
        (\<lambda>(access, _).
      let refresh_ttl' = refresh_ttl (cfg E) remember_me in
      bnd (create_token E user_id ''refresh'' refresh_ttl'
             ((''remember_me'', JBool remember_me) # claims))
        (\<lambda>(refresh, refresh_jti).
      ret (\<lparr>tp_access = access, tp_refresh = refresh, tp_refresh_ttl = refresh_ttl'\<rparr>, refresh_jti))))"

definition issue_pre_auth :: "'r env \<Rightarrow> string \<Rightarrow> ('r world, string) prog" where
  "issue_pre_auth E user_id =
     bnd (create_token E user_id ''pre_auth'' (minutes (PRE_AUTH_TOKEN_EXPIRE_MINUTES (cfg E))) [])
       (\<lambda>(token, _). ret token)"

text \<open>\<open>except jwt.PyJWTError as exc: raise AuthError(msg)\<close>.\<close>

definition auth_error_on_jwt :: "string \<Rightarrow> ('w, 'a) prog \<Rightarrow> ('w, 'a) prog" where
  "auth_error_on_jwt msg m = try_except m (\<lambda>e. e = PyJWTError) (\<lambda>_. raise (err AuthError msg))"

definition verify_pre_auth :: "'r env \<Rightarrow> string \<Rightarrow> ('r world, string) prog" where
  "verify_pre_auth E token =
     bnd (auth_error_on_jwt ''Invalid or expired pre-authentication token.''
           (decode_token E token (Some ''pre_auth'')))
       (\<lambda>payload. lift_sum (str_claim payload ''sub''))"

definition is_revoked :: "'r env \<Rightarrow> string \<Rightarrow> ('r world, bool) prog" where
  "is_revoked E jti = redis_exists E (blacklist_key jti)"

definition revoke_token :: "'r env \<Rightarrow> claims \<Rightarrow> ('r world, unit) prog" where
  "revoke_token E payload =
     (case (get_claim payload ''jti'', map_of payload ''exp'') of
        (Some jti, Some (JInt exp)) \<Rightarrow>
          (if exp = 0 then ret () else
           bnd now (\<lambda>t.
           let ttl = int_seconds (seconds exp - t) in
           when_do (0 < ttl) (redis_set E (blacklist_key jti) ''1'' ttl)))
      | _ \<Rightarrow> ret ())"

definition revoke_jti :: "'r env \<Rightarrow> string \<Rightarrow> int option \<Rightarrow> ('r world, unit) prog" where
  "revoke_jti E jti ttl_seconds =
     (if jti = [] then ret ()
      else
        let ttl = (case ttl_seconds of
              None \<Rightarrow> int_seconds (refresh_ttl (cfg E) True)
            | Some s \<Rightarrow> if s = 0 then int_seconds (refresh_ttl (cfg E) True) else s)
        in redis_set E (blacklist_key jti) ''1'' ttl)"

definition verify_access :: "'r env \<Rightarrow> string \<Rightarrow> ('r world, claims) prog" where
  "verify_access E token =
     auth_error_on_jwt ''Invalid or expired access token.'' (decode_token E token (Some ''access''))"

definition verify_refresh :: "'r env \<Rightarrow> string \<Rightarrow> ('r world, claims) prog" where
  "verify_refresh E token =
     bnd (auth_error_on_jwt ''Invalid or expired refresh token.''
           (decode_token E token (Some ''refresh'')))
       (\<lambda>payload.
     bnd (lift_sum (str_claim payload ''jti'')) (\<lambda>jti.
     bnd (is_revoked E jti) (\<lambda>revoked.
     if revoked then raise (err0 TokenReplayError) else ret payload)))"

definition rotate_tokens ::
    "'r env \<Rightarrow> string \<Rightarrow> ('r world, string \<times> string option \<times> token_pair \<times> string) prog" where
  "rotate_tokens E refresh_token =
     bnd (verify_refresh E refresh_token) (\<lambda>payload.
     bnd (revoke_token E payload) (\<lambda>_.
     bnd (lift_sum (str_claim payload ''sub'')) (\<lambda>user_id.
     let session_id = get_claim payload ''sid'';
         remember_me = truthy_opt (map_of payload ''remember_me'')
     in bnd (issue_pair E user_id remember_me session_id) (\<lambda>(pair, refresh_jti).
     ret (user_id, session_id, pair, refresh_jti)))))"

lemmas token_defs =
  issue_pair_def issue_pre_auth_def verify_pre_auth_def is_revoked_def revoke_token_def
  revoke_jti_def verify_access_def verify_refresh_def rotate_tokens_def auth_error_on_jwt_def

section \<open>What the operations touch\<close>

context frame
begin

lemma auth_error_on_jwt [intro]: "within T m \<Longrightarrow> within T (auth_error_on_jwt msg m)"
  unfolding auth_error_on_jwt_def by (intro frame_rules)

end

context world_frame
begin

lemma token_ops [intro]:
  "within T (issue_pair E u rm sid)" "within T (issue_pre_auth E u)"
  "within T (verify_pre_auth E tok)" "within T (verify_access E tok)"
  unfolding issue_pair_def issue_pre_auth_def verify_pre_auth_def verify_access_def Let_def
  by (intro world_rules security_ops auth_error_on_jwt)+

end

context blind_frame
begin

lemma revoke_token [intro]: "within T (revoke_token E p)"
  unfolding revoke_token_def Let_def
  by (auto split: prod.splits option.splits jval.splits intro!: blind_rules)

lemma token_redis_ops [intro]:
  "within T (is_revoked E j)" "within T (revoke_jti E j ttl)" "within T (verify_refresh E tok)"
  "within T (rotate_tokens E tok)"
  unfolding is_revoked_def revoke_jti_def verify_refresh_def rotate_tokens_def Let_def
  by (intro blind_rules security_ops token_ops auth_error_on_jwt revoke_token)+

end

section \<open>Issued tokens\<close>

definition access_claims :: "'r env \<Rightarrow> string \<Rightarrow> string option \<Rightarrow> string \<Rightarrow> time \<Rightarrow> claims" where
  "access_claims E u sid jti t =
     token_claims u ''access'' jti t (minutes (ACCESS_TOKEN_EXPIRE_MINUTES (cfg E))) (sid_claims sid)"

definition refresh_claims :: "'r env \<Rightarrow> string \<Rightarrow> bool \<Rightarrow> string option \<Rightarrow> string \<Rightarrow> time \<Rightarrow> claims" where
  "refresh_claims E u rm sid jti t =
     token_claims u ''refresh'' jti t (refresh_ttl (cfg E) rm) ((''remember_me'', JBool rm) # sid_claims sid)"

definition sign :: "'r env \<Rightarrow> claims \<Rightarrow> string" where
  "sign E c = jwt_encode E c (SECRET_KEY (cfg E)) (JWT_ALGORITHM (cfg E))"

lemma extra_ok_sid [simp]:
  "extra_ok (sid_claims sid)" "extra_ok ((''remember_me'', JBool rm) # sid_claims sid)" "extra_ok []"
  by (auto simp: extra_ok_def sid_claims_def split: option.splits)

lemma map_of_sid_claims [simp]:
  "map_of (rev (sid_claims sid)) ''sid'' = map_option JStr (case sid of Some [] \<Rightarrow> None | _ \<Rightarrow> sid)"
  "map_of (rev (sid_claims sid)) ''remember_me'' = None"
  by (auto simp: sid_claims_def split: option.splits list.splits)

lemma issue_pair_run:
  "issue_pair E u rm sid w =
     (Inr (\<lparr>tp_access = sign E (access_claims E u sid (uuid_str (uuid4 E (draws w))) (clock w)),
            tp_refresh = sign E (refresh_claims E u rm sid (uuid_str (uuid4 E (Suc (draws w)))) (clock w)),
            tp_refresh_ttl = refresh_ttl (cfg E) rm\<rparr>,
           uuid_str (uuid4 E (Suc (draws w)))),
      w\<lparr>draws := Suc (Suc (draws w))\<rparr>)"
  by (simp add: issue_pair_def bnd_def sign_def access_claims_def refresh_claims_def Let_def)

text \<open>Decoding a signed set of claims, for each of the verifiers.\<close>

lemma decode_signed:
  "jwt_sound E \<Longrightarrow> decode_token E (sign E c) (Some ty) w =
     ((if claims_live (clock w) c \<and> map_of c ''type'' = Some (JStr ty) then Inr c else Inl PyJWTError), w)"
  by (simp add: decode_token_run jwt_sound_def sign_def)

lemma verify_access_signed:
  "jwt_sound E \<Longrightarrow> verify_access E (sign E c) w =
     ((if claims_live (clock w) c \<and> map_of c ''type'' = Some (JStr ''access'') then Inr c
       else Inl (err AuthError ''Invalid or expired access token.'')), w)"
  by (simp add: verify_access_def auth_error_on_jwt_def try_except_def decode_signed)

lemma verify_pre_auth_signed:
  "jwt_sound E \<Longrightarrow> verify_pre_auth E (sign E c) w =
     ((if claims_live (clock w) c \<and> map_of c ''type'' = Some (JStr ''pre_auth'') then str_claim c ''sub''
       else Inl (err AuthError ''Invalid or expired pre-authentication token.'')), w)"
  by (cases "str_claim c ''sub''")
     (simp_all add: verify_pre_auth_def auth_error_on_jwt_def try_except_def bnd_def decode_signed)

lemma verify_refresh_wrong_type:
  assumes "jwt_sound E" and "\<not> (claims_live (clock w) c \<and> map_of c ''type'' = Some (JStr ''refresh''))"
  shows "verify_refresh E (sign E c) w = (Inl (err AuthError ''Invalid or expired refresh token.''), w)"
  using assms by (auto simp: verify_refresh_def auth_error_on_jwt_def try_except_def bnd_def decode_signed)

section \<open>The blacklist\<close>

lemma runs_auth_error_on_jwt:
  "runs m w S (\<lambda>e w'. if e = PyJWTError then F (err AuthError msg) w' else F e w') \<Longrightarrow>
     runs (auth_error_on_jwt msg m) w S F"
  unfolding auth_error_on_jwt_def by (intro runs_intros) (auto simp: runs_def split: prod.splits sum.splits if_splits)

lemma runs_issue_pair:
  "S (\<lparr>tp_access = sign E (access_claims E u sid (uuid_str (uuid4 E (draws w))) (clock w)),
       tp_refresh = sign E (refresh_claims E u rm sid (uuid_str (uuid4 E (Suc (draws w)))) (clock w)),
       tp_refresh_ttl = refresh_ttl (cfg E) rm\<rparr>, uuid_str (uuid4 E (Suc (draws w))))
     (w\<lparr>draws := Suc (Suc (draws w))\<rparr>) \<Longrightarrow> runs (issue_pair E u rm sid) w S F"
  by (simp add: runs_def issue_pair_run)

context redis_env
begin

lemma runs_verify_refresh:
  assumes "jwt_sound E" and "claims_live (clock w) c" and "map_of c ''type'' = Some (JStr ''refresh'')"
    and "map_of c ''jti'' = Some (JStr j)"
    and "\<And>w'. \<not> up (redis w) \<Longrightarrow> redis_upd val (\<lambda>t f. f) w w' \<Longrightarrow> F RedisError w'"
    and "\<And>w'. redis_upd val (\<lambda>t f. f) w w' \<Longrightarrow> (up (redis w) \<Longrightarrow> up (redis w')) \<Longrightarrow>
      seen w (blacklist_key j) \<noteq> None \<Longrightarrow> F (err0 TokenReplayError) w'"
    and "\<And>w'. redis_upd val (\<lambda>t f. f) w w' \<Longrightarrow> (up (redis w) \<Longrightarrow> up (redis w')) \<Longrightarrow>
      seen w (blacklist_key j) = None \<Longrightarrow> S c w'"
  shows "runs (verify_refresh E (sign E c)) w S F"
proof -
  have decode: "runs (auth_error_on_jwt msg (decode_token E (sign E c) (Some ''refresh''))) w
      (\<lambda>p w'. p = c \<and> w' = w) (\<lambda>_ _. False)" for msg
    using assms(1-3) by (simp add: runs_def auth_error_on_jwt_def try_except_def decode_signed)
  have check: "runs (is_revoked E j) w
      (\<lambda>b w'. redis_upd val (\<lambda>t f. f) w w' \<and> (up (redis w) \<longrightarrow> up (redis w')) \<and>
         b = (seen w (blacklist_key j) \<noteq> None))
      (\<lambda>e w'. e = RedisError \<and> \<not> up (redis w) \<and> redis_upd val (\<lambda>t f. f) w w')"
    unfolding is_revoked_def by (intro runs_redis_exists) auto
  show ?thesis
    unfolding verify_refresh_def
  proof (rule runs_seq [OF decode])
    fix p w1
    assume "p = c \<and> w1 = w"
    then have p: "p = c" "w1 = w" by auto
    show "runs (bnd (lift_sum (str_claim p ''jti'')) (\<lambda>jti. bnd (is_revoked E jti) (\<lambda>revoked.
        if revoked then raise (err0 TokenReplayError) else ret p))) w1 S F"
      unfolding p str_claim_simps(1) [OF assms(4)] lift_sum_Inr bnd_ret
      by (rule runs_seq [OF check]) (auto intro!: runs_intros assms(5-7))
  qed simp
qed

lemma runs_revoke_token:
  assumes "map_of p ''jti'' = Some (JStr j)" and "j \<noteq> []" and "map_of p ''exp'' = Some (JInt e)" and "e \<noteq> 0"
    and "\<And>w'. \<not> up (redis w) \<Longrightarrow> redis_upd val (\<lambda>t f. f) w w' \<Longrightarrow> F RedisError w'"
    and "int_seconds (seconds e - clock w) \<le> 0 \<Longrightarrow> S () w"
    and "\<And>w'. 0 < int_seconds (seconds e - clock w) \<Longrightarrow> (up (redis w) \<Longrightarrow> up (redis w')) \<Longrightarrow>
      redis_upd val (\<lambda>t f. f(blacklist_key j :=
        if t < clock w + seconds (int_seconds (seconds e - clock w)) then Some (Text ''1'') else None)) w w' \<Longrightarrow>
      S () w'"
  shows "runs (revoke_token E p) w S F"
  unfolding revoke_token_def using assms(1-4)
  by (auto simp: Let_def intro!: runs_intros runs_redis_set assms(5-7))

text \<open>
  Rotation of an issued refresh token, while Redis answers: \<open>blacklisted w w' j ttl\<close> says that
  \<open>w'\<close> has \<open>j\<close> on the blacklist for \<open>ttl\<close> seconds and is otherwise \<open>w\<close> as far as Redis goes.
\<close>

definition blacklisted :: "'r world \<Rightarrow> 'r world \<Rightarrow> string \<Rightarrow> int \<Rightarrow> bool" where
  "blacklisted w w' j ttl \<longleftrightarrow> clock w' = clock w \<and>
     (\<forall>t \<ge> clock w. val (redis w') t = (if 0 < ttl
        then (val (redis w) t)(blacklist_key j := if t < clock w + seconds ttl then Some (Text ''1'') else None)
        else val (redis w) t))"

lemma blacklisted_draws [simp]:
  "blacklisted w (w'\<lparr>draws := n\<rparr>) j ttl = blacklisted w w' j ttl"
  by (simp add: blacklisted_def)

lemma blacklistedD:
  assumes "blacklisted w w' j ttl" and "clock w \<le> t" and "val (redis w) t (blacklist_key j) = None"
  shows "val (redis w') t (blacklist_key j) \<noteq> None \<longleftrightarrow> t < clock w + seconds ttl"
  using assms by (auto simp: blacklisted_def seconds_def)

lemma rotate_issued:
  assumes jwt: "jwt_sound E" and up: "up (redis w)" and sid: "sid \<noteq> Some []" and j: "j \<noteq> []"
    and live: "0 \<le> clock w" "clock w < seconds (int_seconds (t0 + refresh_ttl (cfg E) rm))"
    and fresh: "seen w (blacklist_key j) = None"
  shows "runs (rotate_tokens E (sign E (refresh_claims E u rm sid j t0))) w
    (\<lambda>r w'. r = (u, sid,
      \<lparr>tp_access = sign E (access_claims E u sid (uuid_str (uuid4 E (draws w))) (clock w)),
       tp_refresh = sign E (refresh_claims E u rm sid (uuid_str (uuid4 E (Suc (draws w)))) (clock w)),
       tp_refresh_ttl = refresh_ttl (cfg E) rm\<rparr>, uuid_str (uuid4 E (Suc (draws w)))) \<and>
      up (redis w') \<and> blacklisted w w' j
        (int_seconds (seconds (int_seconds (t0 + refresh_ttl (cfg E) rm)) - clock w)))
    (\<lambda>_ _. False)"
proof -
  let ?c = "refresh_claims E u rm sid j t0"
  let ?e = "int_seconds (t0 + refresh_ttl (cfg E) rm)"
  have c: "claims_live (clock w) ?c" "map_of ?c ''type'' = Some (JStr ''refresh'')"
    "map_of ?c ''jti'' = Some (JStr j)" "map_of ?c ''exp'' = Some (JInt ?e)"
    "map_of ?c ''sub'' = Some (JStr u)" "map_of ?c ''remember_me'' = Some (JBool rm)"
    "get_claim ?c ''sid'' = sid"
    using live sid
    by (auto simp: refresh_claims_def get_claim_def map_add_def split: option.splits list.splits)
  have e: "?e \<noteq> 0" using live by (auto simp: seconds_def)
  have verify: "runs (verify_refresh E (sign E ?c)) w
      (\<lambda>p w1. p = ?c \<and> redis_upd val (\<lambda>t f. f) w w1 \<and> up (redis w1)) (\<lambda>_ _. False)"
    by (rule runs_verify_refresh [OF jwt c(1-3)]) (use up fresh in auto)
  have revoke: "runs (revoke_token E ?c) w1
      (\<lambda>_ w2. up (redis w2) \<and> draws w2 = draws w \<and> blacklisted w w2 j (int_seconds (seconds ?e - clock w)))
      (\<lambda>_ _. False)"
    if "redis_upd val (\<lambda>t f. f) w w1" "up (redis w1)" for w1
    using that
    by (intro runs_revoke_token [OF c(3) j c(4) e])
       (auto simp: blacklisted_def redis_upd_vals redis_upd_fields)
  show ?thesis
    unfolding rotate_tokens_def Let_def
  proof (rule runs_seq [OF verify], goal_cases)
    case (1 p w1)
    then have p: "p = ?c" and w1: "redis_upd val (\<lambda>t f. f) w w1" "up (redis w1)" by auto
    show ?case
      unfolding p
    proof (rule runs_seq [OF revoke [OF w1]], goal_cases)
      case (1 x w2)
      then have "clock w2 = clock w" by (simp add: blacklisted_def)
      with 1 show ?case
        unfolding str_claim_simps(1) [OF c(5)] lift_sum_Inr bnd_ret c(6,7) truthy_opt.simps truthy.simps
        by (simp add: runs_def bnd_def issue_pair_run)
    qed
  qed
qed

end

context redis_env
begin

lemma rotate_blacklisted:
  assumes "jwt_sound E" and "claims_live (clock w) c" and "map_of c ''type'' = Some (JStr ''refresh'')"
    and "map_of c ''jti'' = Some (JStr j)" and "up (redis w)" and "seen w (blacklist_key j) \<noteq> None"
  shows "fst (rotate_tokens E (sign E c) w) = Inl (err0 TokenReplayError)"
proof -
  have "runs (rotate_tokens E (sign E c)) w (\<lambda>_ _. False) (\<lambda>e _. e = err0 TokenReplayError)"
    unfolding rotate_tokens_def Let_def
    by (rule runs_bnd, rule runs_verify_refresh [OF assms(1-4)]) (use assms(5,6) in auto)
  from runs_raisesD [OF this] show ?thesis by auto
qed

end

section \<open>What the token service promises\<close>

text \<open>
  Token types are not interchangeable. Of the tokens the service issues, the access token is
  accepted as an access token until its expiry and by no other verifier; the refresh token and
  the pre-authentication token are never accepted as access tokens, nor in each other's place;
  the pre-authentication token gives back its subject until its expiry.
\<close>

theorem token_types_separated:
  assumes "jwt_sound E" and "issue_pair E u rm sid w = (Inr (pair, jti), w1)"
    and "issue_pre_auth E u w = (Inr pre, w2)"
  shows "((\<exists>p. fst (verify_access E (tp_access pair) v) = Inr p) \<longleftrightarrow>
        clock v < seconds (int_seconds (clock w + minutes (ACCESS_TOKEN_EXPIRE_MINUTES (cfg E))))) \<and>
    (fst (verify_pre_auth E pre v) = Inr u \<longleftrightarrow>
        clock v < seconds (int_seconds (clock w + minutes (PRE_AUTH_TOKEN_EXPIRE_MINUTES (cfg E))))) \<and>
    (\<forall>tok \<in> {tp_refresh pair, pre}. \<exists>e. verify_access E tok v = (Inl e, v)) \<and>
    (\<forall>tok \<in> {tp_access pair, pre}. \<exists>e. verify_refresh E tok v = (Inl e, v)) \<and>
    (\<forall>tok \<in> {tp_access pair, tp_refresh pair}. \<exists>e. verify_pre_auth E tok v = (Inl e, v))"
proof -
  have pre: "pre = sign E (token_claims u ''pre_auth'' (uuid_str (uuid4 E (draws w))) (clock w)
      (minutes (PRE_AUTH_TOKEN_EXPIRE_MINUTES (cfg E))) [])"
    using assms(3) by (simp add: issue_pre_auth_def bnd_def sign_def)
  have pair: "tp_access pair = sign E (access_claims E u sid (uuid_str (uuid4 E (draws w))) (clock w))"
    "tp_refresh pair = sign E (refresh_claims E u rm sid (uuid_str (uuid4 E (Suc (draws w)))) (clock w))"
    using assms(2) by (auto simp: issue_pair_run)
  show ?thesis
    unfolding pre pair
    by (auto simp: verify_access_signed [OF assms(1)] verify_pre_auth_signed [OF assms(1)]
        verify_refresh_wrong_type [OF assms(1)] access_claims_def refresh_claims_def)
qed

theorem token_types_separated_witness:
  "let pair = fst (projr (fst (issue_pair sample_env ''u'' True (Some ''s'') sample_world)))
   in \<exists>e. verify_access sample_env (tp_refresh pair) sample_world = (Inl e, sample_world)"
proof -
  obtain pair jti w1 where "issue_pair sample_env ''u'' True (Some ''s'') sample_world = (Inr (pair, jti), w1)"
    by (simp add: issue_pair_run)
  moreover obtain pre w2 where "issue_pre_auth sample_env ''u'' sample_world = (Inr pre, w2)"
    by (simp add: issue_pre_auth_def bnd_def)
  ultimately show ?thesis
    using token_types_separated [of sample_env "''u''" True "Some ''s''" sample_world pair jti w1 pre w2 sample_world]
    by simp
qed



text \<open>
  The blacklist entry lives for the whole seconds left, rounded down: in the rest of a second
  before the token expires the entry is gone (or was never made) and the token still decodes, so
  the same refresh token rotates a second time.
\<close>

theorem refresh_replay_gap:
  assumes "redis_env E val up" and "jwt_sound E" and "up (redis w)" and "0 \<le> clock w"
    and "issue_pair E u rm sid w0 = (Inr (old, jti), w1)" and "sid \<noteq> Some []" and "jti \<noteq> []"
    and "clock w < seconds (int_seconds (clock w0 + refresh_ttl (cfg E) rm))"
    and "val (redis w) (clock w) (blacklist_key jti) = None"
    and "rotate_tokens E (tp_refresh old) w = (Inr r, w')"
    and "seconds (int_seconds (seconds (int_seconds (clock w0 + refresh_ttl (cfg E) rm)) - clock w)) \<le> d"
    and "clock w + d < seconds (int_seconds (clock w0 + refresh_ttl (cfg E) rm))"
  shows "\<exists>r' w''. rotate_tokens E (tp_refresh old) (tick d w') = (Inr r', w'')"
proof -
  let ?e = "seconds (int_seconds (clock w0 + refresh_ttl (cfg E) rm))"
  let ?ttl = "int_seconds (?e - clock w)"
  let ?c = "refresh_claims E u rm sid jti (clock w0)"
  have old: "tp_refresh old = sign E ?c" using assms(5) by (auto simp: issue_pair_run)
  have ttl: "0 \<le> ?ttl" using assms(8) by (simp add: int_seconds_def)
  with assms(11) have d: "0 \<le> d" by (simp add: seconds_def)
  have up: "up (redis w')" and bl: "redis_env.blacklisted val w w' jti ?ttl"
    using runs_InrD [OF redis_env.rotate_issued [OF assms(1,2,3,6,7,4,8,9), of u]] assms(10) old by auto
  have clk: "clock w' = clock w" using bl by (simp add: redis_env.blacklisted_def [OF assms(1)])
  have "val (redis w) (clock w + d) (blacklist_key jti) = None"
    using redis_service.val_None_later [OF redis_env.axioms [OF assms(1)] assms(9)] d by simp
  then have "val (redis w') (clock w + d) (blacklist_key jti) = None"
    using redis_env.blacklistedD [OF assms(1) bl, of "clock w + d"] d assms(11) by auto
  then have "\<exists>r' w''. rotate_tokens E (sign E ?c) (tick d w') = (Inr r', w'') \<and> True"
    using assms up clk d
    by (intro runs_returnsD [OF runs_mono [OF redis_env.rotate_issued [OF assms(1,2) _ assms(6,7), of _ "clock w0" rm u]]])
       (auto simp: tick_def)
  then show ?thesis unfolding old by auto
qed

theorem refresh_replay_gap_witness:
  "let old = fst (projr (fst (issue_pair sample_env ''u'' False (Some ''s'') sample_world)));
       w = tick (days 7 - 500000) sample_world
   in \<exists>r w' r' w''. rotate_tokens sample_env (tp_refresh old) w = (Inr r, w') \<and>
        rotate_tokens sample_env (tp_refresh old) (tick 0 w') = (Inr r', w'')"
proof -
  let ?w = "tick (days 7 - 500000) sample_world"
  obtain old jti w1 where issue: "issue_pair sample_env ''u'' False (Some ''s'') sample_world = (Inr (old, jti), w1)"
    and jti: "jti \<noteq> []"
    and old: "tp_refresh old = sign sample_env (refresh_claims sample_env ''u'' False (Some ''s'') jti (days 20000))"
    by (simp add: issue_pair_run)
  have times: "0 \<le> clock ?w"
      "clock ?w < seconds (int_seconds (days 20000 + refresh_ttl (cfg sample_env) False))"
      "seconds (int_seconds (seconds (int_seconds (days 20000 + refresh_ttl (cfg sample_env) False)) -
         clock ?w)) \<le> 0"
    by (simp_all add: refresh_ttl_def default_settings_def tick_def time_defs int_seconds_def)
  obtain r w' where run: "rotate_tokens sample_env (tp_refresh old) ?w = (Inr r, w')"
    using runs_returnsD [OF sample.rotate_issued [OF jwt_sound_sample _ _ jti times(1,2), of "Some ''s''" "''u''"]] old
    by (auto simp: tick_def)
  have "\<exists>r' w''. rotate_tokens sample_env (tp_refresh old) (tick 0 w') = (Inr r', w'')"
    by (rule refresh_replay_gap [OF sample.redis_env_axioms jwt_sound_sample _ _ issue _ jti _ _ run])
       (use times in \<open>simp_all add: tick_def\<close>)
  with run issue show ?thesis by (cases r) (auto simp: Let_def)
qed

end
