(* ===== verification/Repositories.thy ===== *)
theory Repositories
  imports Redis_Client
begin

text \<open>
  \<^verbatim>\<open>app/repositories\<close>: the queries and inserts on the tables. A query returns rows of the table in
  the order the list has them, sorted where the query sorts; the theorems hold for every order.
  An insert that violates a primary key or a unique constraint raises \<open>IntegrityError\<close> at its
  flush. Lengths of columns and foreign keys are not modelled.

  The locale \<open>unique_lookup\<close> is the contract of the queries that end in \<open>scalar_one_or_none\<close>, proved
  of each of them below.
\<close>

section \<open>Inserting\<close>

definition insert_row ::
    "(database \<Rightarrow> 'row list) \<Rightarrow> (('row list \<Rightarrow> 'row list) \<Rightarrow> database \<Rightarrow> database) \<Rightarrow>
     ('row \<Rightarrow> 'row \<Rightarrow> bool) \<Rightarrow> 'row \<Rightarrow> ('r world, unit) prog" where
  "insert_row tbl upd clash row =
     bnd (db_query tbl) (\<lambda>rows.
     if list_ex (clash row) rows then raise IntegrityError
     else db_write (upd (\<lambda>rs. rs @ [row])))"

definition add_user :: "user_row \<Rightarrow> ('r world, unit) prog" where
  "add_user = insert_row users users_update (\<lambda>r s. u_id r = u_id s \<or> u_email r = u_email s)"

definition add_session :: "session_row \<Rightarrow> ('r world, unit) prog" where
  "add_session = insert_row sessions sessions_update
     (\<lambda>r s. s_id r = s_id s \<or> s_session_uuid r = s_session_uuid s)"

definition add_two_factor :: "two_factor_row \<Rightarrow> ('r world, unit) prog" where
  "add_two_factor = insert_row two_factors two_factors_update
     (\<lambda>r s. tf_id r = tf_id s \<or> tf_user_id r = tf_user_id s)"

definition add_backup_code :: "backup_code_row \<Rightarrow> ('r world, unit) prog" where
  "add_backup_code = insert_row backup_codes backup_codes_update (\<lambda>r s. bc_id r = bc_id s)"

definition add_email_token :: "email_token_row \<Rightarrow> ('r world, unit) prog" where
  "add_email_token = insert_row email_tokens email_tokens_update
     (\<lambda>r s. et_id r = et_id s \<or> et_token_hash r = et_token_hash s)"

definition add_oauth_account :: "oauth_account_row \<Rightarrow> ('r world, unit) prog" where
  "add_oauth_account = insert_row oauth_accounts oauth_accounts_update
     (\<lambda>r s. oa_id r = oa_id s \<or>
        (oa_provider r = oa_provider s \<and> oa_provider_account_id r = oa_provider_account_id s))"

section \<open>Users and roles\<close>

definition get_user :: "uuid \<Rightarrow> ('r world, user_row option) prog" where
  "get_user uid = db_query (\<lambda>d. List.find (\<lambda>u. u_id u = uid) (users d))"

definition get_by_email :: "string \<Rightarrow> ('r world, user_row option) prog" where
  "get_by_email email =
     bnd (db_query (\<lambda>d. filter (\<lambda>u. lower (u_email u) = lower email) (users d))) scalar_one_or_none"

definition email_exists :: "string \<Rightarrow> ('r world, bool) prog" where
  "email_exists email =
     db_query (\<lambda>d. 0 < length (filter (\<lambda>u. lower (u_email u) = lower email) (users d)))"

text \<open>\<open>OFFSET\<close> and \<open>LIMIT\<close>.\<close>

definition page_of :: "nat option \<Rightarrow> nat \<Rightarrow> 'a list \<Rightarrow> 'a list" where
  "page_of limit offset rows =
     (let rest = drop offset rows in case limit of None \<Rightarrow> rest | Some n \<Rightarrow> take n rest)"

definition list_all_users :: "nat option \<Rightarrow> nat \<Rightarrow> ('r world, user_row list) prog" where
  "list_all_users limit offset =
     db_query (\<lambda>d. page_of limit offset (sort_key u_created_at (users d)))"

definition count_all_users :: "('r world, nat) prog" where
  "count_all_users = db_query (\<lambda>d. length (users d))"

definition get_by_name :: "string \<Rightarrow> ('r world, role_row option) prog" where
  "get_by_name name =
     bnd (db_query (\<lambda>d. filter (\<lambda>r. ro_name r = name) (roles d))) scalar_one_or_none"

text \<open>\<open>user.roles\<close>, \<open>role.permissions\<close> and what \<^verbatim>\<open>app/models\<close> derives from them.\<close>

definition roles_of :: "database \<Rightarrow> uuid \<Rightarrow> role_row list" where
  "roles_of d uid = filter (\<lambda>r. (uid, ro_id r) \<in> set (user_roles d)) (roles d)"

definition role_permission_codes :: "database \<Rightarrow> role_row \<Rightarrow> string list" where
  "role_permission_codes d r =
     List.map pe_code (filter (\<lambda>p. (ro_id r, pe_id p) \<in> set (role_permissions d)) (permissions d))"

definition role_names :: "database \<Rightarrow> uuid \<Rightarrow> string list" where
  "role_names d uid = remdups (List.map ro_name (roles_of d uid))"

definition permission_codes :: "database \<Rightarrow> uuid \<Rightarrow> string list" where
  "permission_codes d uid = remdups (concat (List.map (role_permission_codes d) (roles_of d uid)))"

definition has_permission :: "database \<Rightarrow> user_row \<Rightarrow> string \<Rightarrow> bool" where
  "has_permission d u code \<longleftrightarrow> u_is_superuser u \<or> code \<in> set (permission_codes d (u_id u))"

section \<open>Sessions\<close>

definition get_by_uuid :: "uuid \<Rightarrow> ('r world, session_row option) prog" where
  "get_by_uuid session_uuid =
     bnd (db_query (\<lambda>d. filter (\<lambda>s. s_session_uuid s = session_uuid) (sessions d))) scalar_one_or_none"

text \<open>\<open>ORDER BY last_activity_at DESC\<close>.\<close>

definition latest_first :: "session_row list \<Rightarrow> session_row list" where
  "latest_first rows = sort_key (\<lambda>s. - s_last_activity_at s) rows"

definition list_for_user :: "uuid \<Rightarrow> bool \<Rightarrow> ('r world, session_row list) prog" where
  "list_for_user uid active_only =
     db_query (\<lambda>d. latest_first
       (filter (\<lambda>s. s_user_id s = uid \<and> (active_only \<longrightarrow> s_is_active s)) (sessions d)))"

definition list_active_for_user ::
    "uuid \<Rightarrow> nat option \<Rightarrow> nat \<Rightarrow> ('r world, session_row list) prog" where
  "list_active_for_user uid limit offset =
     db_query (\<lambda>d. page_of limit offset
       (latest_first (filter (\<lambda>s. s_user_id s = uid \<and> s_is_active s) (sessions d))))"

definition count_active_for_user :: "uuid \<Rightarrow> ('r world, nat) prog" where
  "count_active_for_user uid =
     db_query (\<lambda>d. length (filter (\<lambda>s. s_user_id s = uid \<and> s_is_active s) (sessions d)))"

definition has_any_for_user :: "uuid \<Rightarrow> ('r world, bool) prog" where
  "has_any_for_user uid =
     db_query (\<lambda>d. 0 < length (filter (\<lambda>s. s_user_id s = uid) (sessions d)))"

definition has_matching_device ::
    "uuid \<Rightarrow> string \<Rightarrow> string \<Rightarrow> string \<Rightarrow> ('r world, bool) prog" where
  "has_matching_device uid browser operating_system device_type =
     db_query (\<lambda>d. 0 < length (filter (\<lambda>s. s_user_id s = uid \<and> s_browser s = browser \<and>
        s_operating_system s = operating_system \<and> s_device_type s = device_type) (sessions d)))"

text \<open>Writing attributes of a loaded session.\<close>

definition write_session ::
    "session_row \<Rightarrow> (session_row \<Rightarrow> session_row) \<Rightarrow> ('r world, unit) prog" where
  "write_session record f = db_write (sessions_update (update_where (\<lambda>s. s_id s = s_id record) f))"

definition write_user :: "user_row \<Rightarrow> (user_row \<Rightarrow> user_row) \<Rightarrow> ('r world, unit) prog" where
  "write_user user f = db_write (users_update (update_where (\<lambda>u. u_id u = u_id user) f))"

text \<open>
  Writing the address of a user, which the unique constraint may refuse, and appending a role to
  the roles of a new user.
\<close>

definition write_email :: "user_row \<Rightarrow> string \<Rightarrow> (user_row \<Rightarrow> user_row) \<Rightarrow> ('r world, unit) prog" where
  "write_email user email f =
     bnd (db_query users) (\<lambda>rows.
     if list_ex (\<lambda>u. u_id u \<noteq> u_id user \<and> u_email u = email) rows then raise IntegrityError
     else write_user user (\<lambda>u. (f u)\<lparr>u_email := email\<rparr>))"

definition append_role :: "uuid \<Rightarrow> role_row \<Rightarrow> ('r world, unit) prog" where
  "append_role uid r = db_write (user_roles_update (\<lambda>rs. rs @ [(uid, ro_id r)]))"

section \<open>Two-factor configuration, recovery codes, email tokens, linked accounts\<close>

definition get_two_factor :: "uuid \<Rightarrow> ('r world, two_factor_row option) prog" where
  "get_two_factor uid =
     bnd (db_query (\<lambda>d. filter (\<lambda>t. tf_user_id t = uid) (two_factors d))) scalar_one_or_none"

definition write_two_factor ::
    "two_factor_row \<Rightarrow> (two_factor_row \<Rightarrow> two_factor_row) \<Rightarrow> ('r world, unit) prog" where
  "write_two_factor record f =
     db_write (two_factors_update (update_where (\<lambda>t. tf_id t = tf_id record) f))"

definition delete_two_factor :: "two_factor_row \<Rightarrow> ('r world, unit) prog" where
  "delete_two_factor record =
     db_write (two_factors_update (delete_where (\<lambda>t. tf_id t = tf_id record)))"

definition list_unused :: "uuid \<Rightarrow> ('r world, backup_code_row list) prog" where
  "list_unused uid =
     db_query (\<lambda>d. filter (\<lambda>c. bc_user_id c = uid \<and> bc_used_at c = None) (backup_codes d))"

definition count_unused :: "uuid \<Rightarrow> ('r world, nat) prog" where
  "count_unused uid =
     db_query (\<lambda>d. length (filter (\<lambda>c. bc_user_id c = uid \<and> bc_used_at c = None) (backup_codes d)))"

definition delete_codes_for_user :: "uuid \<Rightarrow> ('r world, unit) prog" where
  "delete_codes_for_user uid =
     db_write (backup_codes_update (delete_where (\<lambda>c. bc_user_id c = uid)))"

definition write_backup_code ::
    "backup_code_row \<Rightarrow> (backup_code_row \<Rightarrow> backup_code_row) \<Rightarrow> ('r world, unit) prog" where
  "write_backup_code code f =
     db_write (backup_codes_update (update_where (\<lambda>c. bc_id c = bc_id code) f))"

definition get_by_hash :: "string \<Rightarrow> ('r world, email_token_row option) prog" where
  "get_by_hash token_hash =
     bnd (db_query (\<lambda>d. filter (\<lambda>t. et_token_hash t = token_hash) (email_tokens d))) scalar_one_or_none"

definition delete_for_purpose :: "uuid \<Rightarrow> string \<Rightarrow> ('r world, unit) prog" where
  "delete_for_purpose uid purpose =
     db_write (email_tokens_update (delete_where (\<lambda>t. et_user_id t = uid \<and> et_purpose t = purpose)))"

definition write_email_token ::
    "email_token_row \<Rightarrow> (email_token_row \<Rightarrow> email_token_row) \<Rightarrow> ('r world, unit) prog" where
  "write_email_token token f =
     db_write (email_tokens_update (update_where (\<lambda>t. et_id t = et_id token) f))"

definition get_by_provider_account ::
    "string \<Rightarrow> string \<Rightarrow> ('r world, oauth_account_row option) prog" where
  "get_by_provider_account provider account_id =
     bnd (db_query (\<lambda>d. filter (\<lambda>a. oa_provider a = provider \<and> oa_provider_account_id a = account_id)
            (oauth_accounts d))) scalar_one_or_none"

definition list_accounts_for_user :: "uuid \<Rightarrow> ('r world, oauth_account_row list) prog" where
  "list_accounts_for_user uid =
     db_query (\<lambda>d. filter (\<lambda>a. oa_user_id a = uid) (oauth_accounts d))"

section \<open>The contract of a unique lookup\<close>

text \<open>
  \<open>find k\<close> looks a row up by a key that a unique constraint makes unique in the table: it changes
  nothing, it raises only if two rows have the key, and what it returns decides whether there is
  a row with the key.
\<close>

locale unique_lookup =
  fixes tbl :: "database \<Rightarrow> 'row list"
    and key :: "'row \<Rightarrow> 'k"
    and norm :: "'k \<Rightarrow> 'k"
    and find :: "'k \<Rightarrow> ('r world, 'row option) prog"
  assumes find_def: "find k w = scalar_one_or_none (filter (\<lambda>r. key r = norm k) (tbl (db w))) w"
begin

lemma state: "find k w = (r, w') \<Longrightarrow> w' = w"
  by (metis find_def scalar_one_or_none_state snd_conv)

lemma found: "find k w = (Inr (Some r), w') \<Longrightarrow> r \<in> set (tbl (db w)) \<and> key r = norm k"
  by (auto simp: find_def scalar_one_or_none_Inr filter_eq_Cons_iff)

lemma missing: "find k w = (Inr None, w') \<Longrightarrow> r \<in> set (tbl (db w)) \<Longrightarrow> key r \<noteq> norm k"
  by (auto simp: find_def scalar_one_or_none_Inr filter_empty_conv)

text \<open>With distinct keys the lookup does not raise.\<close>

lemma unique:
  assumes "distinct (List.map key (tbl (db w)))"
  shows "find k w = (Inr (List.find (\<lambda>r. key r = norm k) (tbl (db w))), w)"
  using filter_key_at_most_one [OF assms, of "norm k"] by (auto simp: find_def find_filter)

lemma runs_find:
  assumes "(\<And>r. r \<in> set (tbl (db w)) \<Longrightarrow> key r \<noteq> norm k) \<Longrightarrow> S None w"
    and "\<And>r. r \<in> set (tbl (db w)) \<Longrightarrow> key r = norm k \<Longrightarrow> S (Some r) w"
    and "\<not> distinct (List.map key (tbl (db w))) \<Longrightarrow> F MultipleResultsFound w"
  shows "runs (find k) w S F"
proof (cases "distinct (List.map key (tbl (db w)))")
  case True
  have "S (List.find (\<lambda>r. key r = norm k) (tbl (db w))) w"
    by (rule find_cases) (use assms(1,2) in auto)
  then show ?thesis by (simp add: runs_def unique [OF True])
next
  case False
  show ?thesis
    unfolding runs_def find_def
    by (rule runs_scalar_one_or_none [unfolded runs_def])
       (use assms False in \<open>auto simp: filter_empty_conv filter_eq_Cons_iff\<close>)
qed

lemma raises [intro]: "S MultipleResultsFound \<Longrightarrow> raises_only S (find k)"
  by (auto intro!: raises_onlyI simp: find_def dest: raises_onlyD [OF raises_only_scalar_one_or_none])

end

interpretation user_by_email: unique_lookup users "\<lambda>u. lower (u_email u)" lower get_by_email
  by unfold_locales (simp add: get_by_email_def db_query_def)

interpretation role_by_name: unique_lookup roles ro_name "\<lambda>k. k" get_by_name
  by unfold_locales (simp add: get_by_name_def db_query_def)

interpretation session_by_uuid: unique_lookup sessions s_session_uuid "\<lambda>k. k" get_by_uuid
  by unfold_locales (simp add: get_by_uuid_def db_query_def)

interpretation two_factor_by_user: unique_lookup two_factors tf_user_id "\<lambda>k. k" get_two_factor
  by unfold_locales (simp add: get_two_factor_def db_query_def)

interpretation email_token_by_hash: unique_lookup email_tokens et_token_hash "\<lambda>k. k" get_by_hash
  by unfold_locales (simp add: get_by_hash_def db_query_def)

interpretation account_by_provider: unique_lookup oauth_accounts
    "\<lambda>a. (oa_provider a, oa_provider_account_id a)" "\<lambda>k. k" "\<lambda>(p, a). get_by_provider_account p a"
  by unfold_locales (auto simp: get_by_provider_account_def db_query_def)

section \<open>Rules for the primitive operations\<close>

lemma runs_insert_row:
  assumes "list_ex (clash row) (tbl (db w)) \<Longrightarrow> F IntegrityError w"
    and "\<not> list_ex (clash row) (tbl (db w)) \<Longrightarrow> S () (w\<lparr>db := upd (\<lambda>rs. rs @ [row]) (db w)\<rparr>)"
  shows "runs (insert_row tbl upd clash row) w S F"
  using assms by (simp add: insert_row_def runs_def db_query_def db_write_def)

lemmas query_defs =
  get_user_def email_exists_def list_all_users_def count_all_users_def list_for_user_def
  list_active_for_user_def count_active_for_user_def has_any_for_user_def has_matching_device_def
  list_unused_def count_unused_def list_accounts_for_user_def

lemmas lookup_defs =
  get_by_email_def get_by_name_def get_by_uuid_def get_two_factor_def get_by_hash_def
  get_by_provider_account_def

lemmas insert_defs =
  add_user_def add_session_def add_two_factor_def add_backup_code_def add_email_token_def
  add_oauth_account_def

lemmas write_defs =
  write_session_def write_user_def write_two_factor_def delete_two_factor_def
  delete_codes_for_user_def write_backup_code_def delete_for_purpose_def write_email_token_def
  append_role_def

lemma runs_writes [runs_intros]:
  "S () (w\<lparr>db := sessions_update (update_where (\<lambda>s. s_id s = s_id r) f) (db w)\<rparr>) \<Longrightarrow>
     runs (write_session r f) w S F"
  "S () (w\<lparr>db := users_update (update_where (\<lambda>x. u_id x = u_id u) g) (db w)\<rparr>) \<Longrightarrow>
     runs (write_user u g) w S F"
  "S () (w\<lparr>db := two_factors_update (update_where (\<lambda>x. tf_id x = tf_id t) h) (db w)\<rparr>) \<Longrightarrow>
     runs (write_two_factor t h) w S F"
  "S () (w\<lparr>db := two_factors_update (delete_where (\<lambda>x. tf_id x = tf_id t)) (db w)\<rparr>) \<Longrightarrow>
     runs (delete_two_factor t) w S F"
  "S () (w\<lparr>db := backup_codes_update (delete_where (\<lambda>x. bc_user_id x = i)) (db w)\<rparr>) \<Longrightarrow>
     runs (delete_codes_for_user i) w S F"
  "S () (w\<lparr>db := backup_codes_update (update_where (\<lambda>x. bc_id x = bc_id c) k) (db w)\<rparr>) \<Longrightarrow>
     runs (write_backup_code c k) w S F"
  "S () (w\<lparr>db := email_tokens_update (delete_where (\<lambda>x. et_user_id x = i \<and> et_purpose x = pu)) (db w)\<rparr>) \<Longrightarrow>
     runs (delete_for_purpose i pu) w S F"
  "S () (w\<lparr>db := email_tokens_update (update_where (\<lambda>x. et_id x = et_id e) l) (db w)\<rparr>) \<Longrightarrow>
     runs (write_email_token e l) w S F"
  "S () (w\<lparr>db := user_roles_update (\<lambda>rs. rs @ [(i, ro_id ro)]) (db w)\<rparr>) \<Longrightarrow>
     runs (append_role i ro) w S F"
  unfolding write_defs by (erule runs_db_write)+

lemma runs_get_user:
  assumes "(\<And>u. u \<in> set (users (db w)) \<Longrightarrow> u_id u \<noteq> uid) \<Longrightarrow> S None w"
    and "\<And>u. u \<in> set (users (db w)) \<Longrightarrow> u_id u = uid \<Longrightarrow> S (Some u) w"
  shows "runs (get_user uid) w S F"
  unfolding get_user_def
  by (rule runs_db_query, rule find_cases) (use assms in auto)

lemma raises_only_queries [raises_intros]:
  "raises_only S (get_user i)" "raises_only S (email_exists em)"
  "raises_only S (list_all_users l off)" "raises_only S count_all_users"
  "raises_only S (list_for_user i b)" "raises_only S (list_active_for_user i l off)"
  "raises_only S (count_active_for_user i)" "raises_only S (has_any_for_user i)"
  "raises_only S (has_matching_device i b1 b2 b3)" "raises_only S (list_unused i)"
  "raises_only S (count_unused i)" "raises_only S (list_accounts_for_user i)"
  unfolding query_defs by (rule raises_only_steps)+

lemma raises_only_writes [raises_intros]:
  "raises_only S (write_session r f)" "raises_only S (write_user u g)"
  "raises_only S (write_two_factor t h)" "raises_only S (delete_two_factor t)"
  "raises_only S (delete_codes_for_user i)" "raises_only S (write_backup_code c k)"
  "raises_only S (delete_for_purpose i pu)" "raises_only S (write_email_token e l)"
  "raises_only S (append_role i ro)"
  unfolding write_defs by (rule raises_only_steps)+

lemma raises_only_lookups [raises_intros]:
  assumes "S MultipleResultsFound"
  shows "raises_only S (get_by_email em)" "raises_only S (get_by_name n)"
    "raises_only S (get_by_uuid i)" "raises_only S (get_two_factor i)"
    "raises_only S (get_by_hash h)" "raises_only S (get_by_provider_account p a)"
  unfolding lookup_defs by (intro raises_intros assms)+

lemma raises_only_inserts [raises_intros]:
  assumes "S IntegrityError"
  shows "raises_only S (add_user u)" "raises_only S (add_session s)"
    "raises_only S (add_two_factor t)" "raises_only S (add_backup_code c)"
    "raises_only S (add_email_token e)" "raises_only S (add_oauth_account a)"
  unfolding insert_defs insert_row_def by (intro raises_intros assms)+

lemma raises_only_write_email [raises_intros]:
  "S IntegrityError \<Longrightarrow> raises_only S (write_email u e f)"
  unfolding write_email_def by (intro raises_intros)

context world_frame
begin

lemma queries [intro]:
  "within T (get_user i)" "within T (email_exists em)" "within T (list_all_users l off)"
  "within T count_all_users" "within T (list_for_user i b)" "within T (list_active_for_user i l off)"
  "within T (count_active_for_user i)" "within T (has_any_for_user i)"
  "within T (has_matching_device i b1 b2 b3)" "within T (list_unused i)"
  "within T (count_unused i)" "within T (list_accounts_for_user i)"
  unfolding query_defs by (rule db_query)+

lemma lookups [intro]:
  "within T (get_by_email em)" "within T (get_by_name n)" "within T (get_by_uuid i)"
  "within T (get_two_factor i)" "within T (get_by_hash h)" "within T (get_by_provider_account p a)"
  unfolding lookup_defs by (intro world_rules)+

end

text \<open>A relation that also allows any change of the tables.\<close>

locale any_db_frame = world_frame T for T :: "'r world \<Rightarrow> 'r world \<Rightarrow> bool" +
  assumes T_db: "T w (w\<lparr>db := d\<rparr>)"
begin

lemma writes [intro]:
  "within T (write_session r f)" "within T (write_user u g)" "within T (write_two_factor t h)"
  "within T (delete_two_factor t)" "within T (delete_codes_for_user i)"
  "within T (write_backup_code c k)" "within T (delete_for_purpose i pu)"
  "within T (write_email_token e l)" "within T (append_role i ro)"
  unfolding write_defs by (intro db_write T_db)+

lemma inserts [intro]:
  "within T (add_user u)" "within T (add_session s)" "within T (add_two_factor t)"
  "within T (add_backup_code c)" "within T (add_email_token e)" "within T (add_oauth_account a)"
  unfolding insert_defs insert_row_def
  by (intro world_rules db_write T_db)+

lemma write_email [intro]: "within T (write_email u e f)"
  unfolding write_email_def by (intro world_rules writes)

lemma rollback [intro]: "within T rollback"
  by (simp add: within_def rollback_def T_db)

lemmas db_rules = writes write_email inserts rollback queries lookups world_rules

end

end
