(* ===== verification/Tables.thy ===== *)
theory Tables
  imports Token Repositories
begin

text \<open>
  Relations between the states before and after an operation that the components share: which
  keys of Redis may change, that the clock stands still, and which invariants of the tables
  survive. The locale \<open>table_invariant\<close> is what an invariant has to survive.
\<close>

interpretation any_db_clock: any_db_frame "\<lambda>w w'. clock w' = clock w"
  by unfold_locales auto

interpretation redis_only: any_db_frame "redis_only val K" for val K
  by unfold_locales (auto simp: redis_only_def)

text \<open>A relation that allows any write to the tables and to Redis.\<close>

locale free_frame = any_db_frame T + blind_frame T for T :: "'r world \<Rightarrow> 'r world \<Rightarrow> bool"
begin

lemmas free_rules = db_rules blind_rules

end

text \<open>One that allows writes to the sessions, and to commit.\<close>

locale session_frame = blind_frame T for T :: "'r world \<Rightarrow> 'r world \<Rightarrow> bool" +
  assumes T_sessions: "T w (w\<lparr>db := sessions_update f (db w)\<rparr>)"
    and T_commit: "T w (w\<lparr>committed := db w\<rparr>)"
begin

lemma session_db [intro]: "within T (write_session r f)" "within T commit"
  unfolding write_session_def by (intro db_write T_sessions commit T_commit)+

lemmas session_rules = session_db queries lookups blind_rules

end

text \<open>One that allows all of it. What does not commit leaves the committed tables alone.\<close>

locale commit_frame = free_frame T for T :: "'r world \<Rightarrow> 'r world \<Rightarrow> bool" +
  assumes T_committed: "T w (w\<lparr>committed := d\<rparr>)"
begin

lemma get_db [intro]: "within T m \<Longrightarrow> within T (get_db m)"
  unfolding get_db_def by (intro free_rules commit T_committed)

lemma commit_any [intro]: "within T commit"
  by (intro commit T_committed)

lemmas commit_rules = commit_any get_db free_rules

end

sublocale commit_frame \<subseteq> session_frame
  by unfold_locales (rule T_db T_committed)+

interpretation same_clock: commit_frame "\<lambda>w w'. clock w' = clock w"
  by unfold_locales simp

interpretation same_committed: free_frame "\<lambda>w w'. committed w' = committed w"
  by unfold_locales auto

section \<open>Invariants of the tables\<close>

text \<open>
  \<open>both I\<close>: if \<open>I\<close> holds of the tables the session sees and of the committed ones, it still does
  afterwards. Commit and rollback keep it, whatever \<open>I\<close> is. The locale collects what the
  server writes to each table; an \<open>I\<close> that survives these writes survives every operation, and
  the components prove that once, for all such \<open>I\<close>.
\<close>

definition both :: "(database \<Rightarrow> bool) \<Rightarrow> 'r world \<Rightarrow> 'r world \<Rightarrow> bool" where
  "both I w w' \<longleftrightarrow> (I (db w) \<and> I (committed w) \<longrightarrow> I (db w') \<and> I (committed w'))"

interpretation both: blind_frame "both I" for I
  by unfold_locales (auto simp: both_def)

lemma bothD: "both I w w' \<Longrightarrow> I (db w) \<Longrightarrow> I (committed w) \<Longrightarrow> I (db w') \<and> I (committed w')"
  by (simp add: both_def)

text \<open>What an update of a row leaves alone.\<close>

definition session_change :: "(session_row \<Rightarrow> session_row) \<Rightarrow> bool" where
  "session_change f \<longleftrightarrow> (\<forall>s. s_id (f s) = s_id s \<and> s_session_uuid (f s) = s_session_uuid s \<and>
     s_user_id (f s) = s_user_id s \<and> (s_is_active (f s) \<longrightarrow> s_is_active s))"

lemma session_changeD:
  assumes "session_change f"
  shows "s_id (f s) = s_id s" "s_session_uuid (f s) = s_session_uuid s" "s_user_id (f s) = s_user_id s"
    "s_is_active (f s) \<Longrightarrow> s_is_active s"
  using assms by (simp_all add: session_change_def)

definition user_change :: "(user_row \<Rightarrow> user_row) \<Rightarrow> bool" where
  "user_change f \<longleftrightarrow> (\<forall>u. u_id (f u) = u_id u \<and> u_email (f u) = u_email u)"

definition two_factor_change :: "(two_factor_row \<Rightarrow> two_factor_row) \<Rightarrow> bool" where
  "two_factor_change f \<longleftrightarrow> (\<forall>t. tf_id (f t) = tf_id t \<and> tf_user_id (f t) = tf_user_id t)"

definition code_change :: "(backup_code_row \<Rightarrow> backup_code_row) \<Rightarrow> bool" where
  "code_change f \<longleftrightarrow> (\<forall>c. bc_id (f c) = bc_id c \<and> bc_user_id (f c) = bc_user_id c \<and>
     bc_hashed_code (f c) = bc_hashed_code c \<and> bc_used_at (f c) \<noteq> None)"

definition token_change :: "(email_token_row \<Rightarrow> email_token_row) \<Rightarrow> bool" where
  "token_change f \<longleftrightarrow> (\<forall>t. et_id (f t) = et_id t \<and> et_token_hash (f t) = et_token_hash t \<and>
     et_new_email (f t) = et_new_email t \<and> et_purpose (f t) = et_purpose t \<and>
     et_user_id (f t) = et_user_id t \<and> et_used_at (f t) \<noteq> None)"

locale table_invariant =
  fixes I :: "database \<Rightarrow> bool"
  assumes ins_user: "I d \<Longrightarrow> lower (u_email u) = u_email u \<Longrightarrow>
      \<not> list_ex (\<lambda>s. u_id u = u_id s \<or> u_email u = u_email s) (users d) \<Longrightarrow>
      I (users_update (\<lambda>rs. rs @ [u]) d)"
    and ins_session: "I d \<Longrightarrow> s_is_active s \<Longrightarrow>
      \<not> list_ex (\<lambda>x. s_id s = s_id x \<or> s_session_uuid s = s_session_uuid x) (sessions d) \<Longrightarrow>
      I (sessions_update (\<lambda>rs. rs @ [s]) d)"
    and ins_two_factor: "I d \<Longrightarrow>
      \<not> list_ex (\<lambda>x. tf_id t = tf_id x \<or> tf_user_id t = tf_user_id x) (two_factors d) \<Longrightarrow>
      I (two_factors_update (\<lambda>rs. rs @ [t]) d)"
    and ins_code: "I d \<Longrightarrow> \<not> list_ex (\<lambda>x. bc_id c = bc_id x) (backup_codes d) \<Longrightarrow>
      I (backup_codes_update (\<lambda>rs. rs @ [c]) d)"
    and ins_token: "I d \<Longrightarrow> map_option lower (et_new_email e) = et_new_email e \<Longrightarrow>
      \<not> list_ex (\<lambda>x. et_id e = et_id x \<or> et_token_hash e = et_token_hash x) (email_tokens d) \<Longrightarrow>
      I (email_tokens_update (\<lambda>rs. rs @ [e]) d)"
    and ins_account: "I d \<Longrightarrow>
      \<not> list_ex (\<lambda>x. oa_id a = oa_id x \<or> (oa_provider a = oa_provider x \<and>
        oa_provider_account_id a = oa_provider_account_id x)) (oauth_accounts d) \<Longrightarrow>
      I (oauth_accounts_update (\<lambda>rs. rs @ [a]) d)"
    and upd_session: "I d \<Longrightarrow> session_change f \<Longrightarrow>
      I (sessions_update (update_where (\<lambda>x. s_id x = i) f) d)"
    and upd_user: "I d \<Longrightarrow> user_change g \<Longrightarrow> I (users_update (update_where (\<lambda>x. u_id x = i) g) d)"
    and upd_email: "I d \<Longrightarrow> user_change g \<Longrightarrow> t' \<in> set (email_tokens d) \<Longrightarrow> et_new_email t' = Some em \<Longrightarrow>
      \<not> list_ex (\<lambda>u. u_id u \<noteq> i \<and> u_email u = em) (users d) \<Longrightarrow>
      I (users_update (update_where (\<lambda>x. u_id x = i) (\<lambda>u. (g u)\<lparr>u_email := em\<rparr>)) d)"
    and add_role: "I d \<Longrightarrow> I (user_roles_update (\<lambda>rs. rs @ [(i, j)]) d)"
    and upd_two_factor: "I d \<Longrightarrow> two_factor_change h \<Longrightarrow>
      I (two_factors_update (update_where (\<lambda>x. tf_id x = i) h) d)"
    and del_two_factor: "I d \<Longrightarrow> I (two_factors_update (delete_where (\<lambda>x. tf_id x = i)) d)"
    and upd_code: "I d \<Longrightarrow> code_change k \<Longrightarrow>
      I (backup_codes_update (update_where (\<lambda>x. bc_id x = i) k) d)"
    and del_codes: "I d \<Longrightarrow> I (backup_codes_update (delete_where (\<lambda>x. bc_user_id x = i)) d)"
    and upd_token: "I d \<Longrightarrow> token_change l \<Longrightarrow>
      I (email_tokens_update (update_where (\<lambda>x. et_id x = i) l) d)"
    and del_tokens: "I d \<Longrightarrow>
      I (email_tokens_update (delete_where (\<lambda>x. et_user_id x = i \<and> et_purpose x = pu)) d)"
begin

lemma both_insert:
  assumes "\<And>d. I d \<Longrightarrow> \<not> list_ex (clash row) (tbl d) \<Longrightarrow> I (upd (\<lambda>rs. rs @ [row]) d)"
  shows "within (both I) (insert_row tbl upd clash row)"
  using assms by (auto simp: within_def insert_row_def both_def db_query_def db_write_def)

lemma both_write: "(\<And>d. I d \<Longrightarrow> I (f d)) \<Longrightarrow> within (both I) (db_write f)"
  by (auto simp: within_def both_def db_write_def)

lemma both_inserts [intro]:
  "lower (u_email u) = u_email u \<Longrightarrow> within (both I) (add_user u)"
  "s_is_active s \<Longrightarrow> within (both I) (add_session s)" "within (both I) (add_two_factor t)"
  "within (both I) (add_backup_code c)"
  "map_option lower (et_new_email e) = et_new_email e \<Longrightarrow> within (both I) (add_email_token e)"
  "within (both I) (add_oauth_account a)"
  unfolding insert_defs
  by (rule both_insert, (erule (2) ins_user | erule (2) ins_session | erule (1) ins_two_factor |
        erule (1) ins_code | erule (2) ins_token | erule (1) ins_account))+

lemma both_writes [intro]:
  "session_change f \<Longrightarrow> within (both I) (write_session r f)"
  "user_change g \<Longrightarrow> within (both I) (write_user u g)"
  "two_factor_change h \<Longrightarrow> within (both I) (write_two_factor t h)"
  "within (both I) (delete_two_factor t)" "within (both I) (delete_codes_for_user i)"
  "code_change k \<Longrightarrow> within (both I) (write_backup_code c k)"
  "within (both I) (delete_for_purpose i pu)"
  "token_change l \<Longrightarrow> within (both I) (write_email_token e l)"
  "within (both I) (append_role i ro)"
  unfolding write_defs
  by (rule both_write, (erule upd_session upd_user upd_two_factor del_two_factor del_codes
        upd_code del_tokens upd_token add_role, assumption?))+

text \<open>An address is only ever written from a token that was issued for it.\<close>

lemma both_write_email:
  "user_change g \<Longrightarrow> t \<in> set (email_tokens (db w)) \<Longrightarrow> et_new_email t = Some em \<Longrightarrow>
     runs (write_email u em g) w (\<lambda>_. both I w) (\<lambda>_. both I w)"
  using upd_email
  by (auto simp: runs_def write_email_def both_def db_query_def db_write_def write_user_def)

lemma both_commits [intro]: "within (both I) commit" "within (both I) rollback"
  by (auto simp: within_def both_def commit_def rollback_def)

lemma both_get_db [intro]: "within (both I) m \<Longrightarrow> within (both I) (get_db m)"
  unfolding get_db_def by (intro both.frame_rules both_commits)

lemmas both_rules =
  both_writes both_commits both.queries both.lookups both.blind_rules

end

text \<open>
  The unique constraints of the tables, and that addresses are stored in lower case (the unique
  constraint on addresses distinguishes case, the lookup does not).
\<close>

definition unique_keys :: "database \<Rightarrow> bool" where
  "unique_keys d \<longleftrightarrow>
     distinct (List.map u_id (users d)) \<and> distinct (List.map u_email (users d)) \<and>
     distinct (List.map s_id (sessions d)) \<and> distinct (List.map s_session_uuid (sessions d)) \<and>
     distinct (List.map tf_id (two_factors d)) \<and> distinct (List.map tf_user_id (two_factors d)) \<and>
     distinct (List.map bc_id (backup_codes d)) \<and>
     distinct (List.map et_id (email_tokens d)) \<and> distinct (List.map et_token_hash (email_tokens d)) \<and>
     distinct (List.map oa_id (oauth_accounts d)) \<and>
     distinct (List.map (\<lambda>a. (oa_provider a, oa_provider_account_id a)) (oauth_accounts d)) \<and>
     (\<forall>u \<in> set (users d). lower (u_email u) = u_email u) \<and>
     (\<forall>t \<in> set (email_tokens d). map_option lower (et_new_email t) = et_new_email t)"

text \<open>A session that is there and closed.\<close>

definition session_closed :: "uuid \<Rightarrow> database \<Rightarrow> bool" where
  "session_closed sid d \<longleftrightarrow>
     sid \<in> set (List.map s_session_uuid (sessions d)) \<and>
     (\<forall>s \<in> set (sessions d). s_session_uuid s = sid \<longrightarrow> \<not> s_is_active s)"

lemma distinct_snoc_key:
  "distinct (List.map k rs) \<Longrightarrow> \<not> list_ex c rs \<Longrightarrow> (\<And>s. s \<in> set rs \<Longrightarrow> k r = k s \<Longrightarrow> c s) \<Longrightarrow>
     distinct (List.map k (rs @ [r]))"
  by (auto simp: list_ex_iff)

lemma distinct_map_delete: "distinct (List.map k rs) \<Longrightarrow> distinct (List.map k (delete_where p rs))"
  by (simp add: delete_where_def distinct_map_filter)

lemma distinct_set_email:
  "distinct (List.map u_id us) \<Longrightarrow> distinct (List.map u_email us) \<Longrightarrow> user_change g \<Longrightarrow>
   \<not> list_ex (\<lambda>u. u_id u \<noteq> i \<and> u_email u = em) us \<Longrightarrow>
     distinct (List.map u_email (update_where (\<lambda>x. u_id x = i) (\<lambda>u. (g u)\<lparr>u_email := em\<rparr>) us))"
proof (induction us)
  case (Cons u us)
  have other: "u_email x \<noteq> em" if "x \<in> set us" "u_id x \<noteq> i" for x
    using Cons.prems(4) that by (auto simp: list_ex_iff)
  show ?case
    using Cons other by (auto simp: in_update_where image_iff) metis+
qed simp

lemma token_address_lower:
  "unique_keys d \<Longrightarrow> t \<in> set (email_tokens d) \<Longrightarrow> et_new_email t = Some em \<Longrightarrow> lower em = em"
  by (fastforce simp: unique_keys_def)

interpretation unique_tables: table_invariant unique_keys
  by unfold_locales
     (auto simp: unique_keys_def distinct_map_delete map_update_where session_change_def user_change_def
        two_factor_change_def code_change_def token_change_def in_update_where distinct_set_email
        list_ex_iff, fastforce)

interpretation closed: table_invariant "session_closed sid" for sid
proof unfold_locales
  fix d f i
  assume d: "session_closed sid d" and f: "session_change f"
  then have "List.map s_session_uuid (update_where (\<lambda>x. s_id x = i) f (sessions d)) =
      List.map s_session_uuid (sessions d)"
    by (intro map_update_where) (simp add: session_change_def)
  moreover have "\<not> s_is_active s'"
    if "s' \<in> set (update_where (\<lambda>x. s_id x = i) f (sessions d))" and "s_session_uuid s' = sid" for s'
  proof -
    from that(1) obtain r where r: "r \<in> set (sessions d)" "s' = f r \<or> s' = r"
      by (auto simp: in_update_where)
    then have "s_session_uuid r = sid" using that(2) session_changeD(2) [OF f] by auto
    with d r(1) have "\<not> s_is_active r" by (simp add: session_closed_def)
    with r(2) session_changeD(4) [OF f] show ?thesis by blast
  qed
  ultimately show "session_closed sid (sessions_update (update_where (\<lambda>x. s_id x = i) f) d)"
    using d by (simp add: session_closed_def)
qed (auto simp: session_closed_def list_ex_iff)

end
