(* ===== verification/Device.thy ===== *)
theory Device
  imports Http
begin

text \<open>
  What the server records of a client: the device read off the \<open>User-Agent\<close> header
  (\<^verbatim>\<open>app/core/useragent.py\<close>, on top of the \<open>user-agents\<close> library) and the location hints of a
  proxy (\<^verbatim>\<open>app/services/geoip.py\<close>).
\<close>

record device_info =
  di_device_name :: string
  di_device_type :: string
  di_browser :: string
  di_browser_version :: string
  di_operating_system :: string
  di_operating_system_version :: string
  di_user_agent :: string

fun clean :: "string option \<Rightarrow> string" where
  "clean None = []"
| "clean (Some value) =
     (if value = [] \<or> lower value \<in> {''other'', ''none''} then [] else value)"

text \<open>\<open>a or b\<close> on strings.\<close>

definition or_else :: "string \<Rightarrow> string \<Rightarrow> string" where
  "or_else a b = (if a = [] then b else a)"

definition parse_user_agent :: "'r env \<Rightarrow> string option \<Rightarrow> device_info" where
  "parse_user_agent E raw_opt =
     (let raw = (case raw_opt of None \<Rightarrow> [] | Some r \<Rightarrow> r);
          ua = ua_parse E raw;
          device_type =
            (if ua_is_bot ua then ''Bot'' else if ua_is_tablet ua then ''Tablet''
             else if ua_is_mobile ua then ''Mobile'' else if ua_is_pc ua then ''Desktop''
             else ''Unknown'');
          os_family = clean (ua_os_family ua);
          device_model = clean (ua_device_family ua);
          device_name = or_else device_model
            (or_else (strip (os_family @ '' '' @ device_type)) ''Unknown'')
      in \<lparr>di_device_name = device_name, di_device_type = device_type,
          di_browser = or_else (clean (ua_browser_family ua)) ''Unknown'',
          di_browser_version = ua_browser_version ua,
          di_operating_system = or_else os_family ''Unknown'',
          di_operating_system_version = ua_os_version ua,
          di_user_agent = take 512 raw\<rparr>)"

record geo_location =
  geo_country :: "string option"
  geo_city :: "string option"

text \<open>\<open>headers.get(a) or headers.get(b)\<close>, and \<open>None\<close> for an empty result.\<close>

definition first_header :: "(string \<times> string) list \<Rightarrow> string \<Rightarrow> string \<Rightarrow> string option" where
  "first_header headers a b =
     (if \<not> falsy (header_of headers a) then header_of headers a
      else if \<not> falsy (header_of headers b) then header_of headers b else None)"

definition resolve_location :: "(string \<times> string) list \<Rightarrow> geo_location" where
  "resolve_location headers =
     (let country = first_header headers ''cf-ipcountry'' ''x-country'';
          city = first_header headers ''cf-ipcity'' ''x-city'';
          country = (case country of
              None \<Rightarrow> None
            | Some c \<Rightarrow> if upper c \<in> {''XX'', ''T1''} then None else Some c)
      in \<lparr>geo_country = country, geo_city = city\<rparr>)"

text \<open>The metadata is bounded and never empty where the table wants a value.\<close>

lemma parse_user_agent_facts:
  "length (di_user_agent (parse_user_agent E raw)) \<le> 512"
  "di_browser (parse_user_agent E raw) \<noteq> []"
  "di_operating_system (parse_user_agent E raw) \<noteq> []"
  "di_device_name (parse_user_agent E raw) \<noteq> []"
  by (simp_all add: parse_user_agent_def Let_def or_else_def)

lemma resolve_location_facts:
  "geo_country (resolve_location hs) = Some c \<Longrightarrow> c \<noteq> [] \<and> upper c \<noteq> ''XX'' \<and> upper c \<noteq> ''T1''"
  "geo_city (resolve_location hs) = Some c \<Longrightarrow> c \<noteq> []"
  by (auto simp: resolve_location_def first_header_def Let_def split: option.splits if_splits
      elim!: falsy.elims)

end
