(* ===== verification/Session_Service.thy ===== *)
theory Session_Service
  imports Tables Device
begin

text \<open>
  \<^verbatim>\<open>app/services/session.py\<close>: the life of a session. The table is authoritative; Redis keeps a
  revocation flag, a throttle for activity updates and an activity marker per session.
\<close>

section \<open>Redis side\<close>

definition set_active :: "'r env \<Rightarrow> uuid \<Rightarrow> ('r world, unit) prog" where
  "set_active E session_uuid =
     redis_set E (active_key session_uuid) ''1'' (SESSION_IDLE_TIMEOUT_MINUTES (cfg E) * 60)"

definition clear_cache :: "'r env \<Rightarrow> uuid \<Rightarrow> bool \<Rightarrow> ('r world, unit) prog" where
  "clear_cache E session_uuid revoke =
     bnd (redis_delete E (active_key session_uuid)) (\<lambda>_.
     bnd (redis_delete E (touch_key session_uuid)) (\<lambda>_.
     when_do revoke
       (redis_set E (revoked_key session_uuid) ''1'' (SESSION_ABSOLUTE_EXPIRE_HOURS (cfg E) * 3600))))"

section \<open>Creation\<close>

definition session_expiry :: "settings \<Rightarrow> bool \<Rightarrow> time \<Rightarrow> time" where
  "session_expiry c remember_me t =
     (let refresh_days = (if remember_me then REFRESH_TOKEN_REMEMBER_ME_DAYS c
                          else REFRESH_TOKEN_EXPIRE_DAYS c)
      in t + min (days refresh_days) (hours (SESSION_ABSOLUTE_EXPIRE_HOURS c)))"

definition jstr_opt :: "string option \<Rightarrow> jval" where
  "jstr_opt v = (case v of None \<Rightarrow> JNull | Some s \<Rightarrow> JStr s)"

definition create_session ::
    "'r env \<Rightarrow> user_row \<Rightarrow> uuid \<Rightarrow> string \<Rightarrow> bool \<Rightarrow> string \<Rightarrow> string \<Rightarrow> (string \<times> string) list \<Rightarrow>
     ('r world, session_row \<times> bool) prog" where
  "create_session E user session_uuid refresh_jti remember_me ip user_agent headers =
     (let device = parse_user_agent E (Some user_agent);
          geo = resolve_location headers in
      bnd now (\<lambda>t.
      bnd (has_any_for_user (u_id user)) (\<lambda>has_any.
      bnd (if has_any
           then has_matching_device (u_id user) (di_browser device) (di_operating_system device)
                  (di_device_type device)
           else ret False) (\<lambda>matching.
      let is_new_device = (has_any \<and> \<not> matching) in
      bnd (draw (uuid7 E)) (\<lambda>i.
      let record = \<lparr>s_id = i, s_user_id = u_id user, s_session_uuid = session_uuid,
            s_refresh_token_id = refresh_jti, s_device_name = di_device_name device,
            s_device_type = di_device_type device, s_browser = di_browser device,
            s_browser_version = di_browser_version device,
            s_operating_system = di_operating_system device,
            s_operating_system_version = di_operating_system_version device,
            s_user_agent = di_user_agent device, s_ip_address = ip,
            s_country = geo_country geo, s_city = geo_city geo,
            s_login_at = t, s_last_activity_at = t, s_logout_at = None,
            s_expires_at = session_expiry (cfg E) remember_me t, s_logout_reason = None,
            s_is_current = False, s_is_active = True, s_request_count = 0, s_created_at = t\<rparr> in
      bnd (add_session record) (\<lambda>_.
      bnd (set_active E session_uuid) (\<lambda>_.
      bnd (audit ''session_created'' (Some (uuid_str (u_id user)))
             [(''session'', JStr (uuid_str session_uuid)), (''ip'', JStr ip)]) (\<lambda>_.
      bnd (when_do is_new_device
             (audit ''new_device_login'' (Some (uuid_str (u_id user)))
                [(''session'', JStr (uuid_str session_uuid)),
                 (''device'', JStr (di_device_name device)),
                 (''browser'', JStr (di_browser device)),
                 (''country'', jstr_opt (geo_country geo))])) (\<lambda>_.
      ret (record, is_new_device))))))))))"

section \<open>Ending a session\<close>

definition close_row :: "time \<Rightarrow> string \<Rightarrow> session_row \<Rightarrow> session_row" where
  "close_row t reason s =
     s\<lparr>s_is_active := False, s_logout_at := Some t, s_logout_reason := Some reason\<rparr>"

definition expire_session :: "'r env \<Rightarrow> session_row \<Rightarrow> string \<Rightarrow> ('r world, unit) prog" where
  "expire_session E record reason =
     bnd now (\<lambda>t.
     bnd (write_session record (close_row t reason)) (\<lambda>_.
     bnd commit (\<lambda>_.
     bnd (clear_cache E (s_session_uuid record) True) (\<lambda>_.
     audit ''session_expired'' (Some (uuid_str (s_user_id record)))
       [(''session'', JStr (uuid_str (s_session_uuid record))), (''reason'', JStr reason)]))))"

text \<open>\<open>revoke\<close> mutates the loaded record; the record after it is returned.\<close>

definition revoke :: "'r env \<Rightarrow> session_row \<Rightarrow> string \<Rightarrow> ('r world, session_row) prog" where
  "revoke E record reason =
     bnd now (\<lambda>t.
     bnd (write_session record (close_row t reason)) (\<lambda>_.
     bnd (revoke_jti E (s_refresh_token_id record) None) (\<lambda>_.
     bnd flush (\<lambda>_.
     bnd (clear_cache E (s_session_uuid record) True) (\<lambda>_.
     bnd (audit ''session_revoked'' (Some (uuid_str (s_user_id record)))
       [(''session'', JStr (uuid_str (s_session_uuid record))), (''reason'', JStr reason)]) (\<lambda>_.
     ret (close_row t reason record)))))))"

definition revoke_by_uuid :: "'r env \<Rightarrow> user_row \<Rightarrow> uuid \<Rightarrow> string \<Rightarrow> ('r world, session_row) prog" where
  "revoke_by_uuid E user session_uuid reason =
     bnd (get_by_uuid session_uuid) (\<lambda>found.
     case found of
       None \<Rightarrow> raise (err NotFoundError ''Session not found.'')
     | Some record \<Rightarrow>
         if s_user_id record \<noteq> u_id user then raise (err NotFoundError ''Session not found.'')
         else if s_is_active record then revoke E record reason
         else ret record)"

definition revoke_by_sid :: "'r env \<Rightarrow> string \<Rightarrow> string \<Rightarrow> ('r world, session_row option) prog" where
  "revoke_by_sid E sid reason =
     (case uuid_of_str sid of
        None \<Rightarrow> ret None
      | Some session_uuid \<Rightarrow>
          bnd (get_by_uuid session_uuid) (\<lambda>found.
          case found of
            None \<Rightarrow> ret None
          | Some record \<Rightarrow>
              if \<not> s_is_active record then ret None
              else bnd (revoke E record reason) (\<lambda>closed. ret (Some closed))))"

text \<open>The loop of \<open>revoke_all\<close>, with its counter.\<close>

fun revoke_loop ::
    "'r env \<Rightarrow> string \<Rightarrow> uuid option \<Rightarrow> session_row list \<Rightarrow> nat \<Rightarrow> ('r world, nat) prog" where
  "revoke_loop E reason except_uuid [] count = ret count"
| "revoke_loop E reason except_uuid (record # records) count =
     (if except_uuid = Some (s_session_uuid record)
      then revoke_loop E reason except_uuid records count
      else bnd (revoke E record reason) (\<lambda>_.
           revoke_loop E reason except_uuid records (count + 1)))"

definition revoke_all :: "'r env \<Rightarrow> user_row \<Rightarrow> string \<Rightarrow> uuid option \<Rightarrow> ('r world, nat) prog" where
  "revoke_all E user reason except_uuid =
     bnd (list_active_for_user (u_id user) None 0) (\<lambda>sessions.
     bnd (revoke_loop E reason except_uuid sessions 0) (\<lambda>count.
     bnd (audit ''logout_all_devices'' (Some (uuid_str (u_id user)))
            [(''revoked'', JInt (int count))]) (\<lambda>_.
     ret count)))"

section \<open>Using a session\<close>

definition touch_row :: "time \<Rightarrow> session_row \<Rightarrow> session_row" where
  "touch_row t s = s\<lparr>s_last_activity_at := t, s_request_count := s_request_count s + 1\<rparr>"

text \<open>\<open>_touch\<close> mutates the loaded record; the record after it is returned.\<close>

definition touch :: "'r env \<Rightarrow> session_row \<Rightarrow> time \<Rightarrow> ('r world, session_row) prog" where
  "touch E record t =
     (let throttle_key = touch_key (s_session_uuid record) in
      bnd (redis_exists E throttle_key) (\<lambda>throttled.
      if throttled then ret record
      else
        bnd (write_session record (touch_row t)) (\<lambda>_.
        bnd flush (\<lambda>_.
        bnd (redis_set E throttle_key ''1'' (SESSION_ACTIVITY_THROTTLE_SECONDS (cfg E))) (\<lambda>_.
        bnd (set_active E (s_session_uuid record)) (\<lambda>_.
        ret (touch_row t record)))))))"

definition validate_and_touch :: "'r env \<Rightarrow> uuid \<Rightarrow> uuid \<Rightarrow> ('r world, session_row) prog" where
  "validate_and_touch E session_uuid user_id =
     bnd (redis_exists E (revoked_key session_uuid)) (\<lambda>revoked.
     if revoked then raise (err AuthError ''Session has been revoked.'')
     else
       bnd (get_by_uuid session_uuid) (\<lambda>found.
       case found of
         None \<Rightarrow> raise (err AuthError ''Session is no longer valid.'')
       | Some record \<Rightarrow>
           if s_user_id record \<noteq> user_id \<or> \<not> s_is_active record
           then raise (err AuthError ''Session is no longer valid.'')
           else
             bnd now (\<lambda>t.
             if s_expires_at record \<le> t then
               bnd (expire_session E record ''absolute_expiry'') (\<lambda>_.
               raise (err AuthError ''Session has expired.''))
             else
               let idle_cutoff = s_last_activity_at record +
                     minutes (SESSION_IDLE_TIMEOUT_MINUTES (cfg E)) in
               if idle_cutoff < t then
                 bnd (expire_session E record ''idle_timeout'') (\<lambda>_.
                 raise (err AuthError ''Session expired due to inactivity.''))
               else touch E record t)))"

definition rebind_row :: "time \<Rightarrow> string \<Rightarrow> session_row \<Rightarrow> session_row" where
  "rebind_row t jti s = s\<lparr>s_refresh_token_id := jti, s_last_activity_at := t\<rparr>"

definition rebind_refresh :: "'r env \<Rightarrow> uuid \<Rightarrow> uuid \<Rightarrow> string \<Rightarrow> ('r world, unit) prog" where
  "rebind_refresh E user_id session_uuid new_refresh_jti =
     bnd (get_by_uuid session_uuid) (\<lambda>found.
     case found of
       None \<Rightarrow> raise (err AuthError ''Session is no longer valid.'')
     | Some record \<Rightarrow>
         if \<not> s_is_active record \<or> s_user_id record \<noteq> user_id
         then raise (err AuthError ''Session is no longer valid.'')
         else
           bnd now (\<lambda>t.
           bnd (write_session record (rebind_row t new_refresh_jti)) (\<lambda>_.
           bnd flush (\<lambda>_.
           bnd (set_active E session_uuid) (\<lambda>_.
           audit ''token_refresh'' (Some (uuid_str user_id))
             [(''session'', JStr (uuid_str session_uuid))])))))"

section \<open>Queries\<close>

definition list_active :: "user_row \<Rightarrow> nat option \<Rightarrow> nat \<Rightarrow> ('r world, session_row list) prog" where
  "list_active user limit offset = list_active_for_user (u_id user) limit offset"

definition count_active :: "user_row \<Rightarrow> ('r world, nat) prog" where
  "count_active user = count_active_for_user (u_id user)"

definition get_owned :: "user_row \<Rightarrow> uuid \<Rightarrow> ('r world, session_row) prog" where
  "get_owned user session_uuid =
     bnd (get_by_uuid session_uuid) (\<lambda>found.
     case found of
       None \<Rightarrow> raise (err NotFoundError ''Session not found.'')
     | Some record \<Rightarrow>
         if s_user_id record \<noteq> u_id user then raise (err NotFoundError ''Session not found.'')
         else ret record)"

text \<open>\<open>max(xs, key=k)\<close>: the first of the rows with the greatest key.\<close>

fun first_max :: "('a \<Rightarrow> int) \<Rightarrow> 'a \<Rightarrow> 'a list \<Rightarrow> 'a" where
  "first_max k best [] = best"
| "first_max k best (x # xs) = first_max k (if k best < k x then x else best) xs"

definition previous_login ::
    "user_row \<Rightarrow> session_row option \<Rightarrow> ('r world, session_row option) prog" where
  "previous_login user current =
     bnd (list_for_user (u_id user) False) (\<lambda>rows.
     bnd now (\<lambda>t.
     let cutoff = (case current of Some c \<Rightarrow> s_login_at c | None \<Rightarrow> t);
         candidates = filter (\<lambda>s. Some (s_session_uuid s) \<noteq> map_option s_session_uuid current \<and>
           s_login_at s < cutoff) rows
     in ret (case candidates of [] \<Rightarrow> None | c # cs \<Rightarrow> Some (first_max s_login_at c cs))))"

section \<open>What the operations touch\<close>

context blind_frame
begin

lemma session_cache [intro]:
  "within T (set_active E sid)" "within T (clear_cache E sid b)"
  unfolding set_active_def clear_cache_def by (intro blind_rules)+

lemma session_queries [intro]:
  "within T (list_active u l off)" "within T (count_active u)" "within T (get_owned u sid)"
  "within T (previous_login u cur)"
  unfolding list_active_def count_active_def get_owned_def previous_login_def Let_def
  by (intro queries lookups blind_rules)+

end

context free_frame
begin

lemma session_writes [intro]:
  "within T (create_session E u sid j rm ip ua hs)" "within T (revoke E r why)" "within T (touch E r t)"
  "within T (rebind_refresh E uid sid j)"
  unfolding create_session_def revoke_def touch_def rebind_refresh_def Let_def
  by (intro free_rules session_cache token_redis_ops)+

lemma revoke_loop [intro]: "within T (revoke_loop E why ex rs n)"
  by (induction E why ex rs n rule: revoke_loop.induct) (auto simp del: ret_run intro!: free_rules session_writes)

lemma session_ops [intro]:
  "within T (revoke_by_uuid E u sid why)" "within T (revoke_by_sid E s why)" "within T (revoke_all E u why ex)"
  unfolding revoke_by_uuid_def revoke_by_sid_def revoke_all_def
  by (intro free_rules session_writes revoke_loop)+

end

text \<open>Using and ending a session writes to the sessions only, and expiring one commits.\<close>

context session_frame
begin

lemma closing_ops [intro]:
  "within T (revoke E r why)" "within T (revoke_by_sid E s why)" "within T (expire_session E r why)"
  "within T (touch E r t)" "within T (validate_and_touch E sid uid)"
proof -
  show revoke: "within T (revoke E r why)" for r why
    unfolding revoke_def by (intro session_rules session_cache token_redis_ops)
  show expire: "within T (expire_session E r why)" for r why
    unfolding expire_session_def by (intro session_rules session_cache)
  show touch: "within T (touch E r t)" for r t
    unfolding touch_def Let_def by (intro session_rules session_cache)
  show "within T (revoke_by_sid E s why)"
    unfolding revoke_by_sid_def by (intro session_rules revoke)
  show "within T (validate_and_touch E sid uid)"
    unfolding validate_and_touch_def Let_def by (intro session_rules expire touch)
qed

end

lemma session_changes [simp]:
  "session_change (close_row t why)" "session_change (touch_row t)" "session_change (rebind_row t j)"
  by (simp_all add: session_change_def close_row_def touch_row_def rebind_row_def)

context table_invariant
begin

lemma both_session_writes [intro]:
  "within (both I) (create_session E u sid j rm ip ua hs)" "within (both I) (expire_session E r why)"
  "within (both I) (revoke E r why)" "within (both I) (touch E r t)"
  "within (both I) (rebind_refresh E uid sid j)"
  unfolding create_session_def expire_session_def revoke_def touch_def rebind_refresh_def Let_def
  by (intro both_rules both_inserts(2) both.session_cache both.token_redis_ops session_changes; simp)+

lemma both_revoke_loop [intro]: "within (both I) (revoke_loop E why ex rs n)"
  by (induction E why ex rs n rule: revoke_loop.induct) (auto simp del: ret_run intro!: both_rules both_session_writes)

lemma both_session_ops [intro]:
  "within (both I) (revoke_by_uuid E u sid why)" "within (both I) (revoke_by_sid E s why)"
  "within (both I) (revoke_all E u why ex)" "within (both I) (validate_and_touch E sid uid)"
  unfolding revoke_by_uuid_def revoke_by_sid_def revoke_all_def validate_and_touch_def Let_def
  by (intro both_rules both_session_writes both_revoke_loop)+

end

section \<open>Closing a session, step by step\<close>

text \<open>What the end of a session leaves in Redis.\<close>

definition closed_values ::
    "settings \<Rightarrow> time \<Rightarrow> uuid \<Rightarrow> time \<Rightarrow> (string \<Rightarrow> rval option) \<Rightarrow> (string \<Rightarrow> rval option)" where
  "closed_values c t0 sid t f = f(active_key sid := None, touch_key sid := None,
     revoked_key sid :=
       if t < t0 + seconds (SESSION_ABSOLUTE_EXPIRE_HOURS c * 3600) then Some (Text ''1'') else None)"

definition blacklist_values ::
    "settings \<Rightarrow> time \<Rightarrow> string \<Rightarrow> time \<Rightarrow> (string \<Rightarrow> rval option) \<Rightarrow> (string \<Rightarrow> rval option)" where
  "blacklist_values c t0 j t f = (if j = [] then f else f(blacklist_key j :=
       if t < t0 + refresh_ttl c True then Some (Text ''1'') else None))"

text \<open>The tables after the end of a session.\<close>

definition close_in_db :: "session_row \<Rightarrow> time \<Rightarrow> string \<Rightarrow> database \<Rightarrow> database" where
  "close_in_db r t why d = sessions_update (update_where (\<lambda>s. s_id s = s_id r) (close_row t why)) d"

text \<open>When a session with row \<open>r\<close> may be used at time \<open>t\<close>.\<close>

definition usable :: "settings \<Rightarrow> session_row \<Rightarrow> time \<Rightarrow> bool" where
  "usable c r t \<longleftrightarrow> s_is_active r \<and> t < s_expires_at r \<and>
     t \<le> s_last_activity_at r + minutes (SESSION_IDLE_TIMEOUT_MINUTES c)"

lemma session_lookup:
  assumes "distinct (List.map s_session_uuid (sessions d))" and "r \<in> set (sessions d)"
    and "s \<in> set (sessions d)" and "s_session_uuid r = s_session_uuid s"
  shows "r = s"
  using assms by (metis distinct_map inj_onD)

lemma close_in_db_closed:
  assumes "distinct (List.map s_session_uuid (sessions d))" and "r \<in> set (sessions d)"
  shows "session_closed (s_session_uuid r) (close_in_db r t why d)"
proof -
  have eq: "s = r" if "s \<in> set (sessions d)" "s_session_uuid s = s_session_uuid r" for s
    using session_lookup [OF assms that(1)] that(2) by simp
  show ?thesis
    using assms
    by (auto simp: session_closed_def close_in_db_def in_update_where close_row_def map_update_where dest: eq)
qed

text \<open>Closing the sessions of a list one after the other is closing them at once.\<close>

lemma close_row_idem [simp]: "close_row t why (close_row t why s) = close_row t why s"
  by (simp add: close_row_def)

lemma close_row_fields [simp]:
  "s_id (close_row t why s) = s_id s" "s_session_uuid (close_row t why s) = s_session_uuid s"
  "s_user_id (close_row t why s) = s_user_id s" "\<not> s_is_active (close_row t why s)"
  by (simp_all add: close_row_def)

lemma sessions_close_in_db [simp]:
  "sessions (close_in_db r t why d) = update_where (\<lambda>s. s_id s = s_id r) (close_row t why) (sessions d)"
  by (simp add: close_in_db_def)

lemma sessions_close_all:
  "sessions (fold (\<lambda>r. close_in_db r t why) rs d) =
     update_where (\<lambda>s. s_id s \<in> s_id ` set rs) (close_row t why) (sessions d)"
proof (induction rs arbitrary: d)
  case Nil
  show ?case by (simp add: update_where_def)
next
  case (Cons r rs)
  then show ?case by (auto simp: update_where_def)
qed

text \<open>The sessions \<open>revoke_all\<close> is about.\<close>

definition to_revoke :: "uuid \<Rightarrow> uuid option \<Rightarrow> session_row \<Rightarrow> bool" where
  "to_revoke uid except_uuid s \<longleftrightarrow>
     s_user_id s = uid \<and> s_is_active s \<and> except_uuid \<noteq> Some (s_session_uuid s)"

context redis_env
begin

lemma runs_clear_cache:
  assumes sane: "sane (cfg E)"
    and raised: "\<And>w'. \<not> up (redis w) \<Longrightarrow> but_redis w w' \<Longrightarrow> F RedisError w'"
    and done_: "\<And>w'. redis_upd val (closed_values (cfg E) (clock w) sid) w w' \<Longrightarrow>
      (up (redis w) \<Longrightarrow> up (redis w')) \<Longrightarrow> S () w'"
  shows "runs (clear_cache E sid True) w S F"
proof -
  have pos: "0 < SESSION_ABSOLUTE_EXPIRE_HOURS (cfg E) * 3600" using saneD(7) [OF sane] by simp
  show ?thesis
    unfolding clear_cache_def when_do_simps
  proof (intro runs_intros runs_redis_delete runs_redis_set pos, goal_cases)
    case (4 w1 w2 w3)
    from redis_upd_trans [OF redis_upd_trans [OF 4(1,3)] 4(5)] redis_upd_fields(1) [OF 4(1)]
      redis_upd_fields(1) [OF 4(3)]
    have "redis_upd val (closed_values (cfg E) (clock w) sid) w w3"
      by (simp add: closed_values_def [abs_def])
    with 4 done_ show ?case by blast
  qed (use raised in \<open>blast intro: but_redis_upd but_redis_trans\<close>)+
qed

lemma runs_revoke_jti:
  assumes sane: "sane (cfg E)"
    and "\<And>w'. \<not> up (redis w) \<Longrightarrow> but_redis w w' \<Longrightarrow> F RedisError w'"
    and done_: "\<And>w'. redis_upd val (blacklist_values (cfg E) (clock w) j) w w' \<Longrightarrow>
      (up (redis w) \<Longrightarrow> up (redis w')) \<Longrightarrow> S () w'"
  shows "runs (revoke_jti E j None) w S F"
proof -
  have ttl: "int_seconds (refresh_ttl (cfg E) True) = 86400 * REFRESH_TOKEN_REMEMBER_ME_DAYS (cfg E)"
    "refresh_ttl (cfg E) True = seconds (86400 * REFRESH_TOKEN_REMEMBER_ME_DAYS (cfg E))"
    by (simp_all add: refresh_ttl_def days_def)
  have pos: "0 < 86400 * REFRESH_TOKEN_REMEMBER_ME_DAYS (cfg E)" using saneD(3) [OF sane] by simp
  show ?thesis
    unfolding revoke_jti_def
    by (auto simp: Let_def ttl(1) intro!: runs_intros runs_redis_set pos)
       (auto simp: blacklist_values_def [abs_def] ttl(2) intro: assms(2) but_redis_upd
         intro!: done_ redis_upd_refl)
qed

lemma runs_revoke:
  assumes sane: "sane (cfg E)"
    and raised: "\<And>w'. \<not> up (redis w) \<Longrightarrow> clock w' = clock w \<Longrightarrow>
      db w' = close_in_db r (clock w) why (db w) \<Longrightarrow> committed w' = committed w \<Longrightarrow> F RedisError w'"
    and done_: "\<And>w'. db w' = close_in_db r (clock w) why (db w) \<Longrightarrow> committed w' = committed w \<Longrightarrow>
      clock w' = clock w \<Longrightarrow> draws w' = draws w \<Longrightarrow> (up (redis w) \<Longrightarrow> up (redis w')) \<Longrightarrow>
      (\<And>t. clock w \<le> t \<Longrightarrow> val (redis w') t = closed_values (cfg E) (clock w) (s_session_uuid r) t
         (blacklist_values (cfg E) (clock w) (s_refresh_token_id r) t (val (redis w) t))) \<Longrightarrow> S (close_row (clock w) why r) w'"
  shows "runs (revoke E r why) w S F"
  unfolding revoke_def
proof (intro runs_intros runs_revoke_jti runs_clear_cache sane, goal_cases)
  case (1 w1)
  then show ?case by (intro raised) (auto dest!: but_redis_fields simp: close_in_db_def)
next
  case (2 w1 w2)
  then show ?case
    by (intro raised) (auto dest!: but_redis_fields simp: close_in_db_def redis_upd_fields)
next
  case (3 w1 w2)
  then show ?case
    by (intro done_) (auto simp: close_in_db_def redis_upd_fields redis_upd_vals)
qed

lemma runs_expire_session:
  assumes sane: "sane (cfg E)"
    and raised: "\<And>w'. \<not> up (redis w) \<Longrightarrow> clock w' = clock w \<Longrightarrow>
      db w' = close_in_db r (clock w) why (db w) \<Longrightarrow> committed w' = db w' \<Longrightarrow> F RedisError w'"
    and done_: "\<And>w'. db w' = close_in_db r (clock w) why (db w) \<Longrightarrow> committed w' = db w' \<Longrightarrow>
      clock w' = clock w \<Longrightarrow> (up (redis w) \<Longrightarrow> up (redis w')) \<Longrightarrow>
      (\<And>t. clock w \<le> t \<Longrightarrow> val (redis w') t =
         closed_values (cfg E) (clock w) (s_session_uuid r) t (val (redis w) t)) \<Longrightarrow> S () w'"
  shows "runs (expire_session E r why) w S F"
  unfolding expire_session_def
proof (intro runs_intros runs_clear_cache sane, goal_cases)
  case (1 w1)
  then show ?case by (intro raised) (auto dest!: but_redis_fields simp: close_in_db_def)
next
  case (2 w1)
  then show ?case
    by (intro done_) (auto simp: close_in_db_def redis_upd_fields redis_upd_vals)
qed

lemma runs_touch:
  assumes sane: "sane (cfg E)"
    and raised: "\<And>w'. \<not> up (redis w) \<Longrightarrow> F RedisError w'"
    and skipped: "\<And>w'. seen w (touch_key (s_session_uuid r)) \<noteq> None \<Longrightarrow>
      redis_upd val (\<lambda>t f. f) w w' \<Longrightarrow> (up (redis w) \<Longrightarrow> up (redis w')) \<Longrightarrow> S r w'"
    and touched: "\<And>w'. seen w (touch_key (s_session_uuid r)) = None \<Longrightarrow> clock w' = clock w \<Longrightarrow>
      db w' = sessions_update (update_where (\<lambda>s. s_id s = s_id r) (touch_row u)) (db w) \<Longrightarrow>
      committed w' = committed w \<Longrightarrow> (up (redis w) \<Longrightarrow> up (redis w')) \<Longrightarrow>
      (\<And>t. clock w \<le> t \<Longrightarrow> val (redis w') t = (val (redis w) t)
        (touch_key (s_session_uuid r) :=
           if t < clock w + seconds (SESSION_ACTIVITY_THROTTLE_SECONDS (cfg E)) then Some (Text ''1'') else None,
         active_key (s_session_uuid r) :=
           if t < clock w + seconds (SESSION_IDLE_TIMEOUT_MINUTES (cfg E) * 60) then Some (Text ''1'') else None)) \<Longrightarrow>
      S (touch_row u r) w'"
  shows "runs (touch E r u) w S F"
proof -
  have pos: "0 < SESSION_ACTIVITY_THROTTLE_SECONDS (cfg E)" "0 < SESSION_IDLE_TIMEOUT_MINUTES (cfg E) * 60"
    using saneD(6,8) [OF sane] by simp_all
  show ?thesis
    unfolding touch_def set_active_def Let_def
  proof (intro runs_intros runs_redis_exists runs_redis_set pos, goal_cases)
    case (5 w1 w2 w3)
    then show ?case
      by (intro touched) (auto simp: redis_upd_fields redis_upd_vals)
  qed (auto intro: raised skipped)
qed

text \<open>The decision, while Redis answers.\<close>

lemma validate_decides:
  fixes sid uid w
  assumes sane: "sane (cfg E)" and up: "up (redis w)"
    and unique: "distinct (List.map s_session_uuid (sessions (db w)))"
  defines "ok \<equiv> \<lambda>r. seen w (revoked_key sid) = None \<and> r \<in> set (sessions (db w)) \<and>
      s_session_uuid r = sid \<and> s_user_id r = uid \<and> usable (cfg E) r (clock w)"
  shows "runs (validate_and_touch E sid uid) w
     (\<lambda>r' w'. (\<exists>r. ok r \<and> r' \<in> {r, touch_row (clock w) r}) \<and> up (redis w')) (\<lambda>_ _. \<not> (\<exists>r. ok r))"
  unfolding validate_and_touch_def Let_def
proof (intro runs_intros runs_redis_exists session_by_uuid.runs_find runs_expire_session runs_touch sane,
    goal_cases)
qed (use up unique in \<open>auto simp: ok_def usable_def redis_upd_fields not_le not_less
      dest: session_lookup [OF unique]\<close>)

text \<open>An expired session is closed for good before the request is refused.\<close>

lemma validate_expires:
  assumes sane: "sane (cfg E)"
    and unique: "distinct (List.map s_session_uuid (sessions (db w)))"
    and r: "r \<in> set (sessions (db w))" "s_user_id r = uid" "s_is_active r"
      "\<not> usable (cfg E) r (clock w)"
    and unrevoked: "redis_exists E (revoked_key (s_session_uuid r)) w = (Inr False, w1)"
  shows "runs (validate_and_touch E (s_session_uuid r) uid) w (\<lambda>_ _. False)
    (\<lambda>e w'. e \<in> {err AuthError ''Session has expired.'',
         err AuthError ''Session expired due to inactivity.'', RedisError} \<and>
       session_closed (s_session_uuid r) (committed w') \<and> db w' = committed w')"
proof -
  have "runs (redis_exists E (revoked_key (s_session_uuid r))) w
      (\<lambda>_ w'. but_redis w w') (\<lambda>_ _. True)"
    by (intro runs_redis_exists) (auto intro: but_redis_upd)
  from runs_InrD [OF this unrevoked] have w1: "but_redis w w1" .
  note w1 = but_redis_fields [OF w1]
  have ex: "runs (redis_exists E (revoked_key (s_session_uuid r))) w
      (\<lambda>b w'. b = False \<and> w' = w1) (\<lambda>_ _. False)"
    using unrevoked by (simp add: runs_def)
  have closed: "session_closed (s_session_uuid r) (close_in_db r t why (db w))" for t why
    by (rule close_in_db_closed [OF unique r(1)])
  have same: "s = r" if "s \<in> set (sessions (db w))" "s_session_uuid s = s_session_uuid r" for s
    using session_lookup [OF unique that(1) r(1) that(2)] .
  show ?thesis
    unfolding validate_and_touch_def Let_def
  proof (rule runs_seq [OF ex], goal_cases)
    case (1 b v)
    then have b: "b = False" "v = w1" by auto
    show ?case
      unfolding b if_False
      by (intro runs_intros session_by_uuid.runs_find runs_expire_session sane)
         (use r unique w1 in \<open>auto simp: usable_def closed dest: same\<close>)
  qed simp
qed

text \<open>The loop over the sessions of a user.\<close>

definition flagged :: "'r world \<Rightarrow> time \<Rightarrow> session_row list \<Rightarrow> bool" where
  "flagged w t0 rs \<longleftrightarrow> (\<forall>r \<in> set rs. \<forall>t \<ge> t0. val (redis w) t (revoked_key (s_session_uuid r)) =
     (if t < t0 + hours (SESSION_ABSOLUTE_EXPIRE_HOURS (cfg E)) then Some (Text ''1'') else None))"

lemma runs_revoke_loop:
  assumes sane: "sane (cfg E)" and flag: "flagged w (clock w) done_rs"
  shows "runs (revoke_loop E why ex rs n) w
     (\<lambda>k w'. k = n + length (filter (\<lambda>r. ex \<noteq> Some (s_session_uuid r)) rs) \<and>
        clock w' = clock w \<and> (up (redis w) \<longrightarrow> up (redis w')) \<and> committed w' = committed w \<and>
        db w' = fold (\<lambda>r. close_in_db r (clock w) why)
                  (filter (\<lambda>r. ex \<noteq> Some (s_session_uuid r)) rs) (db w) \<and>
        flagged w' (clock w) (done_rs @ filter (\<lambda>r. ex \<noteq> Some (s_session_uuid r)) rs))
     (\<lambda>e w'. e = RedisError \<and> \<not> up (redis w))"
  using flag
proof (induction rs arbitrary: n w done_rs)
  case Nil
  then show ?case by (simp add: runs_def)
next
  case (Cons r rs)
  show ?case
  proof (cases "ex = Some (s_session_uuid r)")
    case True
    with Cons.IH [OF Cons.prems] show ?thesis by simp
  next
    case False
    have step: "runs (revoke E r why) w
       (\<lambda>_ w'. clock w' = clock w \<and> (up (redis w) \<longrightarrow> up (redis w')) \<and> committed w' = committed w \<and>
          db w' = close_in_db r (clock w) why (db w) \<and> flagged w' (clock w') (done_rs @ [r]))
       (\<lambda>e w'. e = RedisError \<and> \<not> up (redis w))"
      using Cons.prems
      by (intro runs_revoke sane)
         (auto simp: flagged_def closed_values_def blacklist_values_def hours_def mult.commute)
    show ?thesis
      unfolding revoke_loop.simps if_not_P [OF False]
    proof (rule runs_seq [OF step], goal_cases)
      case (1 u w1)
      show ?case
        by (rule runs_mono [OF Cons.IH [of w1 "done_rs @ [r]"]]) (use 1 False in auto)
    qed simp
  qed
qed

lemma runs_revoke_all:
  assumes sane: "sane (cfg E)" and unique: "distinct (List.map s_id (sessions (db w)))"
  shows "runs (revoke_all E user why ex) w
     (\<lambda>k w'. k = length (filter (to_revoke (u_id user) ex) (sessions (db w))) \<and>
        sessions (db w') = update_where (to_revoke (u_id user) ex) (close_row (clock w) why) (sessions (db w)) \<and>
        committed w' = committed w \<and>
        flagged w' (clock w) (filter (to_revoke (u_id user) ex) (sessions (db w))))
     (\<lambda>_ _. \<not> up (redis w))"
proof -
  let ?rows = "page_of None 0 (latest_first (filter (\<lambda>s. s_user_id s = u_id user \<and> s_is_active s)
      (sessions (db w))))"
  define chosen where "chosen = filter (\<lambda>r. ex \<noteq> Some (s_session_uuid r)) ?rows"
  have set_chosen: "set chosen = set (filter (to_revoke (u_id user) ex) (sessions (db w)))"
    by (auto simp: chosen_def page_of_def latest_first_def to_revoke_def)
  have len: "length chosen = length (filter (to_revoke (u_id user) ex) (sessions (db w)))"
    by (simp add: chosen_def page_of_def latest_first_def to_revoke_def [abs_def] filter_sort conj_ac
        flip: filter_filter)
  have ids: "s_id s \<in> s_id ` set chosen \<longleftrightarrow> to_revoke (u_id user) ex s" if "s \<in> set (sessions (db w))" for s
    unfolding set_chosen using that unique
    by (auto dest: distinct_map [THEN iffD1, THEN conjunct2, THEN inj_onD])
  have upd: "sessions (fold (\<lambda>r. close_in_db r (clock w) why) chosen (db w)) =
      update_where (to_revoke (u_id user) ex) (close_row (clock w) why) (sessions (db w))"
    unfolding sessions_close_all update_where_def by (rule map_cong [OF refl]) (simp only: ids)
  have flags: "flagged w' t chosen = flagged w' t (filter (to_revoke (u_id user) ex) (sessions (db w)))"
    for w' t unfolding flagged_def set_chosen ..
  have none: "flagged w (clock w) []" by (simp add: flagged_def)
  note loop = runs_revoke_loop [OF sane none, of why ex ?rows 0, folded chosen_def]
  show ?thesis
    unfolding revoke_all_def list_active_for_user_def
  proof (intro runs_intros, rule runs_mono [OF loop], goal_cases)
    case (1 k w')
    then show ?case
      unfolding append_Nil flags by (intro runs_intros) (simp add: len upd flagged_def)
  qed auto
qed

lemma revoke_all_outcome:
  assumes sane: "sane (cfg E)" and up: "up (redis w)"
    and unique: "distinct (List.map s_id (sessions (db w)))"
  shows "runs (revoke_all E user why ex) w
     (\<lambda>k w'. k = length (filter (to_revoke (u_id user) ex) (sessions (db w))) \<and>
        sessions (db w') = update_where (to_revoke (u_id user) ex) (close_row (clock w) why) (sessions (db w)) \<and>
        committed w' = committed w \<and>
        flagged w' (clock w) (filter (to_revoke (u_id user) ex) (sessions (db w))))
     (\<lambda>_ _. False)"
  by (rule runs_mono [OF runs_revoke_all [OF sane unique]]) (use up in auto)

end

section \<open>A client that keeps using a session\<close>

fun uses ::
    "'r env \<Rightarrow> uuid \<Rightarrow> uuid \<Rightarrow> time list \<Rightarrow> 'r world \<Rightarrow> (exn + session_row) list \<times> 'r world" where
  "uses E sid uid [] w = ([], w)"
| "uses E sid uid (d # ds) w =
     (let (r, w') = validate_and_touch E sid uid (tick d w);
          (rs, w'') = uses E sid uid ds w'
      in (r # rs, w''))"

context redis_env
begin

text \<open>
  What is kept from one use to the next: the row is there, the throttle flag is no older than the
  last activity says, and the last activity is at most the throttle time back.
\<close>

definition in_use :: "'r world \<Rightarrow> uuid \<Rightarrow> uuid \<Rightarrow> time \<Rightarrow> bool" where
  "in_use w sid uid x \<longleftrightarrow> up (redis w) \<and>
     distinct (List.map s_session_uuid (sessions (db w))) \<and>
     (\<forall>t \<ge> clock w. val (redis w) t (revoked_key sid) = None) \<and>
     (\<exists>r \<in> set (sessions (db w)). s_session_uuid r = sid \<and> s_user_id r = uid \<and> s_is_active r \<and>
        s_expires_at r = x \<and>
        clock w \<le> s_last_activity_at r + seconds (SESSION_ACTIVITY_THROTTLE_SECONDS (cfg E)) \<and>
        (\<forall>t \<ge> clock w. val (redis w) t (touch_key sid) \<noteq> None \<longrightarrow>
           t < s_last_activity_at r + seconds (SESSION_ACTIVITY_THROTTLE_SECONDS (cfg E))))"

lemma touch_row_fields [simp]:
  "s_id (touch_row t s) = s_id s" "s_session_uuid (touch_row t s) = s_session_uuid s"
  "s_user_id (touch_row t s) = s_user_id s" "s_is_active (touch_row t s) = s_is_active s"
  "s_expires_at (touch_row t s) = s_expires_at s" "s_last_activity_at (touch_row t s) = t"
  by (simp_all add: touch_row_def)

lemma runs_validate_usable:
  assumes sane: "sane (cfg E)" and up: "up (redis w)"
    and unique: "distinct (List.map s_session_uuid (sessions (db w)))"
    and r: "r \<in> set (sessions (db w))" "s_session_uuid r = sid" "s_user_id r = uid"
      "usable (cfg E) r (clock w)" "seen w (revoked_key sid) = None"
    and skipped: "\<And>w'. seen w (touch_key sid) \<noteq> None \<Longrightarrow> redis_upd val (\<lambda>t f. f) w w' \<Longrightarrow>
      up (redis w') \<Longrightarrow> S r w'"
    and touched: "\<And>w'. seen w (touch_key sid) = None \<Longrightarrow> clock w' = clock w \<Longrightarrow>
      db w' = sessions_update (update_where (\<lambda>s. s_id s = s_id r) (touch_row (clock w))) (db w) \<Longrightarrow>
      committed w' = committed w \<Longrightarrow> up (redis w') \<Longrightarrow>
      (\<And>t. clock w \<le> t \<Longrightarrow> val (redis w') t = (val (redis w) t)
        (touch_key sid :=
           if t < clock w + seconds (SESSION_ACTIVITY_THROTTLE_SECONDS (cfg E)) then Some (Text ''1'') else None,
         active_key sid :=
           if t < clock w + seconds (SESSION_IDLE_TIMEOUT_MINUTES (cfg E) * 60) then Some (Text ''1'') else None)) \<Longrightarrow>
      S (touch_row (clock w) r) w'"
  shows "runs (validate_and_touch E sid uid) w S F"
proof -
  have flag: "runs (redis_exists E (revoked_key sid)) w
      (\<lambda>b w1. b = False \<and> redis_upd val (\<lambda>t f. f) w w1 \<and> up (redis w1)) (\<lambda>_ _. False)"
    using r(5) up by (intro runs_redis_exists) auto
  have same: "s = r" if "s \<in> set (sessions (db w))" "s_session_uuid s = sid" for s
    using session_lookup [OF unique that(1) r(1)] that(2) r(2) by simp
  show ?thesis
    unfolding validate_and_touch_def
  proof (rule runs_seq [OF flag], goal_cases)
    case (1 b w1)
    then have b: "b = False" and w1: "redis_upd val (\<lambda>t f. f) w w1" "up (redis w1)" by auto
    note fw1 = redis_upd_fields [OF w1(1)]
    have find: "runs (get_by_uuid sid) w1 (\<lambda>x w'. x = Some r \<and> w' = w1) (\<lambda>_ _. False)"
      by (rule session_by_uuid.runs_find) (use r unique fw1 in \<open>auto dest: same\<close>)
    show ?case
      unfolding b if_False
    proof (rule runs_seq [OF find], goal_cases)
      case (1 x w')
      then have x: "x = Some r" "w' = w1" by auto
      have ok: "\<not> (s_user_id r \<noteq> uid \<or> \<not> s_is_active r)" "\<not> s_expires_at r \<le> clock w1"
        "\<not> s_last_activity_at r + minutes (SESSION_IDLE_TIMEOUT_MINUTES (cfg E)) < clock w1"
        using r fw1 by (auto simp: usable_def)
      have "runs (touch E r (clock w1)) w1 S F"
        by (rule runs_touch [OF sane], use w1 in blast)
           (use w1 fw1 r(2) in \<open>auto simp: redis_upd_vals intro: skipped touched redis_upd_trans
              dest: redis_upd_trans [OF w1(1)]\<close>)
      then show ?case
        unfolding x Let_def option.case if_not_P [OF ok(1)]
        by (intro runs_bnd [of now] runs_now) (simp add: ok(2,3))
    qed simp
  qed simp
qed

lemma use_step:
  assumes sane: "sane (cfg E)" and use: "in_use w sid uid x"
    and d: "0 \<le> d" "d + seconds (SESSION_ACTIVITY_THROTTLE_SECONDS (cfg E)) \<le>
       minutes (SESSION_IDLE_TIMEOUT_MINUTES (cfg E))"
    and alive: "clock w + d < x"
  shows "runs (validate_and_touch E sid uid) (tick d w)
     (\<lambda>_ w'. in_use w' sid uid x \<and> clock w' = clock w + d) (\<lambda>_ _. False)"
proof -
  from use obtain r where r: "r \<in> set (sessions (db w))" "s_session_uuid r = sid" "s_user_id r = uid"
      "s_is_active r" "s_expires_at r = x"
    and last: "clock w \<le> s_last_activity_at r + seconds (SESSION_ACTIVITY_THROTTLE_SECONDS (cfg E))"
    and flag: "\<And>t. clock w \<le> t \<Longrightarrow> val (redis w) t (touch_key sid) \<noteq> None \<Longrightarrow>
        t < s_last_activity_at r + seconds (SESSION_ACTIVITY_THROTTLE_SECONDS (cfg E))"
    and up: "up (redis w)" and unique: "distinct (List.map s_session_uuid (sessions (db w)))"
    and unrevoked: "\<And>t. clock w \<le> t \<Longrightarrow> val (redis w) t (revoked_key sid) = None"
    by (auto simp: in_use_def)
  have same: "s = r" if "s \<in> set (sessions (db w))" "s_session_uuid s = sid" for s
    using session_lookup [OF unique that(1) r(1)] that(2) r(2) by simp
  have pos: "0 < seconds (SESSION_ACTIVITY_THROTTLE_SECONDS (cfg E))"
    using saneD(8) [OF sane] by (simp add: seconds_def)
  have "usable (cfg E) r (clock (tick d w))"
    using r d last alive by (simp add: usable_def)
  with r show ?thesis
  proof (intro runs_validate_usable [OF sane, where r = r], goal_cases)
    case (8 w')
    have "val (redis w) (clock w + d) (touch_key sid) \<noteq> None" using 8 by simp
    with flag [of "clock w + d"] d
    have le: "clock w + d \<le> s_last_activity_at r + seconds (SESSION_ACTIVITY_THROTTLE_SECONDS (cfg E))"
      by simp
    show ?case
      using 8 r d up unique unrevoked le flag
      by (auto simp: in_use_def redis_upd_fields redis_upd_vals intro!: bexI [of _ r])
  next
    case (9 w')
    have mem: "touch_row (clock w + d) r \<in> set (sessions (db w'))"
      using 9 r by (auto simp: in_update_where)
    have uuids: "List.map s_session_uuid (sessions (db w')) = List.map s_session_uuid (sessions (db w))"
      using 9 by (simp add: map_update_where)
    have vals: "val (redis w') t (revoked_key sid) = None"
      "val (redis w') t (touch_key sid) \<noteq> None \<Longrightarrow>
         t < clock w + d + seconds (SESSION_ACTIVITY_THROTTLE_SECONDS (cfg E))"
      if "clock w + d \<le> t" for t
      using 9 that d unrevoked [of t] by (auto split: if_splits)
    have clk: "clock w' = clock w + d" and up': "up (redis w')" using 9 by auto
    show ?case
      unfolding in_use_def uuids clk
      by (intro conjI bexI [OF _ mem]) (use r d up' unique vals pos in auto)
  qed (use up unique unrevoked d in auto)
qed

end

context redis_env
begin

lemma uses_all:
  assumes sane: "sane (cfg E)" and use: "in_use w sid uid x"
    and ds: "list_all (\<lambda>d. 0 \<le> d \<and> d + seconds (SESSION_ACTIVITY_THROTTLE_SECONDS (cfg E)) \<le>
       minutes (SESSION_IDLE_TIMEOUT_MINUTES (cfg E))) ds"
    and alive: "clock w + sum_list ds < x"
  shows "list_all (\<lambda>r. \<exists>s. r = Inr s) (fst (uses E sid uid ds w))"
  using use ds alive
proof (induction ds arbitrary: w)
  case (Cons d ds)
  have nn: "0 \<le> sum_list ds" using Cons.prems(2) by (induction ds) auto
  have d: "0 \<le> d" "d + seconds (SESSION_ACTIVITY_THROTTLE_SECONDS (cfg E)) \<le>
       minutes (SESSION_IDLE_TIMEOUT_MINUTES (cfg E))" "clock w + d < x"
    using Cons.prems nn by auto
  from runs_returnsD [OF use_step [OF sane Cons.prems(1) d]]
  obtain s w1 where run: "validate_and_touch E sid uid (tick d w) = (Inr s, w1)"
    and w1: "in_use w1 sid uid x" "clock w1 = clock w + d" by auto
  from Cons.IH [OF w1(1)] Cons.prems w1(2) run show ?case
    by (simp add: split_def Let_def add.assoc)
qed simp

text \<open>Refreshing ignores how long the session was idle.\<close>

lemma rebind_then_usable:
  assumes sane: "sane (cfg E)" and up: "up (redis w)"
    and unique: "distinct (List.map s_session_uuid (sessions (db w)))"
    and r: "r \<in> set (sessions (db w))" "s_is_active r" "clock w < s_expires_at r"
      "seen w (revoked_key (s_session_uuid r)) = None"
  shows "runs (rebind_refresh E (s_user_id r) (s_session_uuid r) jti) w
     (\<lambda>_ w'. \<exists>x. fst (validate_and_touch E (s_session_uuid r) (s_user_id r) w') = Inr x) (\<lambda>_ _. False)"
proof -
  let ?r = "rebind_row (clock w) jti r"
  have same: "s = r" if "s \<in> set (sessions (db w))" "s_session_uuid s = s_session_uuid r" for s
    using session_lookup [OF unique that(1) r(1)] that(2) by simp
  have idle: "0 < SESSION_IDLE_TIMEOUT_MINUTES (cfg E) * 60" using saneD(6) [OF sane] by simp
  have later: "\<exists>x. fst (validate_and_touch E (s_session_uuid r) (s_user_id r) w') = Inr x"
    if w': "clock w' = clock w" "up (redis w')"
      "db w' = sessions_update (update_where (\<lambda>s. s_id s = s_id r) (rebind_row (clock w) jti)) (db w)"
      "val (redis w') (clock w) (revoked_key (s_session_uuid r)) = None" for w'
  proof -
    have "?r \<in> set (sessions (db w'))" using r(1) w'(3) by (auto simp: in_update_where)
    moreover have "distinct (List.map s_session_uuid (sessions (db w')))"
      using unique w'(3) by (simp add: map_update_where rebind_row_def)
    moreover have "usable (cfg E) ?r (clock w')"
      using r w'(1) saneD(6) [OF sane] by (simp add: usable_def rebind_row_def minutes_def seconds_def)
    ultimately have "runs (validate_and_touch E (s_session_uuid r) (s_user_id r)) w' (\<lambda>_ _. True) (\<lambda>_ _. False)"
      using w' by (intro runs_validate_usable [OF sane, where r = ?r]) (auto simp: rebind_row_def)
    from runs_returnsD [OF this] show ?thesis by auto
  qed
  show ?thesis
    unfolding rebind_refresh_def set_active_def
    by (intro runs_intros session_by_uuid.runs_find runs_redis_set idle)
       (use r up unique same in \<open>auto simp: redis_upd_fields redis_upd_vals dest: same intro!: later\<close>)
qed

end

lemma first_max_spec:
  "first_max k b xs \<in> set (b # xs) \<and> (\<forall>x \<in> set (b # xs). k x \<le> k (first_max k b xs))"
  by (induction xs arbitrary: b) force+

section \<open>What the session service promises\<close>

text \<open>
  Validation decides exactly: while Redis answers, a request on a session is accepted if and
  only if the session carries no revocation flag and its row belongs to the user, is active, has
  not reached its absolute expiry, and was last active at most the idle timeout ago.
\<close>

theorem session_accepted_iff_usable:
  assumes "redis_env E val up" and "sane (cfg E)" and "up (redis w)" and "unique_keys (db w)"
  shows "(\<exists>r. fst (validate_and_touch E sid uid w) = Inr r) \<longleftrightarrow>
      val (redis w) (clock w) (revoked_key sid) = None \<and>
      (\<exists>r \<in> set (sessions (db w)). s_session_uuid r = sid \<and> s_user_id r = uid \<and> s_is_active r \<and>
         clock w < s_expires_at r \<and>
         clock w \<le> s_last_activity_at r + minutes (SESSION_IDLE_TIMEOUT_MINUTES (cfg E)))"
proof -
  have "runs (validate_and_touch E sid uid) w
     (\<lambda>_ _. \<exists>r. val (redis w) (clock w) (revoked_key sid) = None \<and> r \<in> set (sessions (db w)) \<and>
        s_session_uuid r = sid \<and> s_user_id r = uid \<and> usable (cfg E) r (clock w))
     (\<lambda>_ _. \<not> (\<exists>r. val (redis w) (clock w) (revoked_key sid) = None \<and> r \<in> set (sessions (db w)) \<and>
        s_session_uuid r = sid \<and> s_user_id r = uid \<and> usable (cfg E) r (clock w)))"
    using assms(4)
    by (intro runs_mono [OF redis_env.validate_decides [OF assms(1-3)]]) (auto simp: unique_keys_def)
  from runs_decides [OF this] show ?thesis unfolding usable_def by blast
qed

lemma unique_keys_sample [simp]: "unique_keys (db sample_login)"
  by (simp add: unique_keys_def sample_login_def sample_db_def empty_db_def sample_user_def lower_def
      lower_char_def is_upper_def)

theorem session_accepted_iff_usable_witness:
  "\<exists>r. fst (validate_and_touch sample_env 9 7 sample_login) = Inr r"
  by (subst session_accepted_iff_usable [OF sample.redis_env_axioms])
     (simp_all add: time_defs)

text \<open>
  Expiry is durable: when a session is found expired or idle, the row is closed and committed
  before the request is refused, so neither the rollback of the refused request nor a failure of
  Redis in the middle leaves it active.
\<close>

theorem session_expiry_durable:
  assumes "redis_env E val up" and "sane (cfg E)" and "unique_keys (db w)"
    and "r \<in> set (sessions (db w))" and "s_user_id r = uid" and "s_is_active r"
    and "s_expires_at r \<le> clock w \<or>
      s_last_activity_at r + minutes (SESSION_IDLE_TIMEOUT_MINUTES (cfg E)) < clock w"
    and "redis_exists E (revoked_key (s_session_uuid r)) w = (Inr False, w1)"
    and "get_db (validate_and_touch E (s_session_uuid r) uid) w = (res, w')"
  shows "res \<in> Inl ` {err AuthError ''Session has expired.'',
         err AuthError ''Session expired due to inactivity.'', RedisError} \<and>
      session_closed (s_session_uuid r) (db w') \<and> session_closed (s_session_uuid r) (committed w')"
proof -
  have "\<not> usable (cfg E) r (clock w)" using assms(7) by (auto simp: usable_def)
  with assms(3) have "runs (get_db (validate_and_touch E (s_session_uuid r) uid)) w (\<lambda>_ _. False)
    (\<lambda>e w'. e \<in> {err AuthError ''Session has expired.'',
         err AuthError ''Session expired due to inactivity.'', RedisError} \<and>
       session_closed (s_session_uuid r) (db w') \<and> session_closed (s_session_uuid r) (committed w'))"
    by (intro runs_get_db runs_mono [OF redis_env.validate_expires [OF assms(1,2) _ assms(4-6) _ assms(8)]])
       (auto simp: unique_keys_def)
  from runs_raisesD [OF this] assms(9) show ?thesis by auto
qed

theorem session_expiry_durable_witness:
  "session_closed 9 (committed (snd (get_db (validate_and_touch sample_env 9 7)
     (tick (hours 1) sample_login))))"
proof -
  let ?w = "tick (hours 1) sample_login"
  have "redis_exists sample_env (revoked_key (s_session_uuid sample_session)) ?w =
      (Inr False, snd (redis_exists sample_env (revoked_key (s_session_uuid sample_session)) ?w))"
    by (simp add: redis_exists_def redis_call_def ref_redis_def)
  from session_expiry_durable [OF sample.redis_env_axioms _ _ _ _ _ _ this, of 7
      "fst (get_db (validate_and_touch sample_env 9 7) ?w)" "snd (get_db (validate_and_touch sample_env 9 7) ?w)"]
  show ?thesis by (simp add: time_defs)
qed

text \<open>
  Logging out everywhere: \<open>revoke_all\<close> closes exactly the active sessions of the user, all but
  the excepted one, with the reason and time; it reports their number; each of them is flagged as
  revoked in Redis for the whole absolute lifetime; rows of other users do not change.
\<close>

theorem revoke_all_closes:
  assumes "redis_env E val up" and "sane (cfg E)" and "up (redis w)" and "unique_keys (db w)"
    and "revoke_all E user why ex w = (res, w')"
  shows "res = Inr (length (filter (to_revoke (u_id user) ex) (sessions (db w)))) \<and>
    sessions (db w') = List.map (\<lambda>s.
        if s_user_id s = u_id user \<and> s_is_active s \<and> ex \<noteq> Some (s_session_uuid s)
        then s\<lparr>s_is_active := False, s_logout_at := Some (clock w), s_logout_reason := Some why\<rparr>
        else s) (sessions (db w)) \<and>
    (\<forall>s t. s \<in> set (sessions (db w)) \<and> to_revoke (u_id user) ex s \<and> clock w \<le> t \<longrightarrow>
       (val (redis w') t (revoked_key (s_session_uuid s)) \<noteq> None \<longleftrightarrow>
        t < clock w + hours (SESSION_ABSOLUTE_EXPIRE_HOURS (cfg E))))"
proof -
  have "distinct (List.map s_id (sessions (db w)))" using assms(4) by (simp add: unique_keys_def)
  from runs_returnsD [OF redis_env.revoke_all_outcome [OF assms(1-3) this, of user why ex]] assms(5)
  have "res = Inr (length (filter (to_revoke (u_id user) ex) (sessions (db w))))"
    and "sessions (db w') = update_where (to_revoke (u_id user) ex) (close_row (clock w) why) (sessions (db w))"
    and "redis_env.flagged E val w' (clock w) (filter (to_revoke (u_id user) ex) (sessions (db w)))"
    by auto
  then show ?thesis
    by (auto simp: update_where_def to_revoke_def close_row_def redis_env.flagged_def [OF assms(1)])
qed

theorem revoke_all_closes_witness:
  "fst (revoke_all sample_env sample_user ''logout_all'' None sample_login) = Inr 1"
  using revoke_all_closes [OF sample.redis_env_axioms, of sample_login sample_user "''logout_all''" None
      "fst (revoke_all sample_env sample_user ''logout_all'' None sample_login)"
      "snd (revoke_all sample_env sample_user ''logout_all'' None sample_login)"]
  by (simp add: to_revoke_def)

text \<open>
  The record of a new session: it is active, bound to the refresh token, and expires after the
  refresh lifetime or the absolute lifetime, whichever is shorter; the login counts as one from a
  new device exactly if the user has sessions and none of them, open or closed, has the same
  browser, operating system and device type.
\<close>

theorem created_session:
  assumes "create_session E user sid jti rm ip ua hs w = (Inr (r, new_device), w')"
  shows "sessions (db w') = sessions (db w) @ [r] \<and> s_session_uuid r = sid \<and> s_user_id r = u_id user \<and>
    s_refresh_token_id r = jti \<and> s_is_active r \<and> s_login_at r = clock w \<and>
    s_expires_at r = clock w + min (refresh_ttl (cfg E) rm) (hours (SESSION_ABSOLUTE_EXPIRE_HOURS (cfg E))) \<and>
    (\<forall>s \<in> set (sessions (db w)). s_session_uuid s \<noteq> sid) \<and>
    (new_device \<longleftrightarrow> (\<exists>s \<in> set (sessions (db w)). s_user_id s = u_id user) \<and>
       \<not> (\<exists>s \<in> set (sessions (db w)). s_user_id s = u_id user \<and> s_browser s = s_browser r \<and>
            s_operating_system s = s_operating_system r \<and> s_device_type s = s_device_type r))"
proof -
  let ?dev = "parse_user_agent E (Some ua)"
  have "runs (create_session E user sid jti rm ip ua hs) w
    (\<lambda>(r, new_device) w'. sessions (db w') = sessions (db w) @ [r] \<and> s_session_uuid r = sid \<and>
      s_user_id r = u_id user \<and> s_refresh_token_id r = jti \<and> s_is_active r \<and> s_login_at r = clock w \<and>
      s_expires_at r = session_expiry (cfg E) rm (clock w) \<and>
      (\<forall>s \<in> set (sessions (db w)). s_session_uuid s \<noteq> sid) \<and>
      s_browser r = di_browser ?dev \<and> s_operating_system r = di_operating_system ?dev \<and>
      s_device_type r = di_device_type ?dev \<and>
      (new_device \<longleftrightarrow> (\<exists>s \<in> set (sessions (db w)). s_user_id s = u_id user) \<and>
       \<not> (\<exists>s \<in> set (sessions (db w)). s_user_id s = u_id user \<and> s_browser s = di_browser ?dev \<and>
            s_operating_system s = di_operating_system ?dev \<and> s_device_type s = di_device_type ?dev)))
    (\<lambda>_ _. True)"
    unfolding create_session_def Let_def has_any_for_user_def has_matching_device_def add_session_def
      set_active_def redis_set_def
    by (intro runs_intros runs_insert_row runs_redis_blind)
       (auto simp: filter_empty_conv list_ex_iff dest!: but_redis_fields)
  from runs_InrD [OF this assms] show ?thesis
    by (auto simp: session_expiry_def refresh_ttl_def Let_def)
qed

theorem created_session_witness:
  "\<exists>r new w'. create_session sample_env sample_user 11 ''jti2'' False ''10.0.0.1'' ''Mozilla'' [] sample_login =
      (Inr (r, new), w') \<and> s_expires_at r = days 20007"
proof -
  have "runs (create_session sample_env sample_user 11 ''jti2'' False ''10.0.0.1'' ''Mozilla'' [])
      sample_login (\<lambda>_ _. True) (\<lambda>_ _. False)"
    unfolding create_session_def Let_def has_any_for_user_def has_matching_device_def add_session_def
      set_active_def
    by (intro runs_intros runs_insert_row sample.runs_redis_set)
       (auto simp: sample_session_def sample_env_def)
  from runs_returnsD [OF this] obtain x w' where run: "create_session sample_env sample_user 11 ''jti2''
      False ''10.0.0.1'' ''Mozilla'' [] sample_login = (Inr x, w')" by auto
  obtain r new where x: "x = (r, new)" by (cases x)
  from created_session [OF run [unfolded x]] have "s_expires_at r = days 20007"
    by (simp add: refresh_ttl_def time_defs)
  with run x show ?thesis by blast
qed

text \<open>
  C29. Regular use keeps a session alive: if every request comes at most the idle timeout, less the
  throttle interval, after the one before, then all of them are accepted until the absolute
  expiry, although activity is recorded only once per throttle interval.
\<close>

theorem regular_use_never_idles_out:
  assumes "redis_env E val up" and "sane (cfg E)" and "up (redis w)" and "unique_keys (db w)"
    and "\<forall>t \<ge> clock w. val (redis w) t (revoked_key (s_session_uuid r)) = None"
    and "\<forall>t \<ge> clock w. val (redis w) t (touch_key (s_session_uuid r)) = None"
    and "r \<in> set (sessions (db w))" and "s_is_active r" and "s_last_activity_at r = clock w"
    and "list_all (\<lambda>d. 0 \<le> d \<and> d + seconds (SESSION_ACTIVITY_THROTTLE_SECONDS (cfg E)) \<le>
       minutes (SESSION_IDLE_TIMEOUT_MINUTES (cfg E))) ds"
    and "clock w + sum_list ds < s_expires_at r"
  shows "list_all (\<lambda>r. \<exists>s. r = Inr s) (fst (uses E (s_session_uuid r) (s_user_id r) ds w))"
proof (rule redis_env.uses_all [OF assms(1,2) _ assms(10,11)])
  have "0 < SESSION_ACTIVITY_THROTTLE_SECONDS (cfg E)" using saneD(8) [OF assms(2)] .
  then show "redis_env.in_use E val up w (s_session_uuid r) (s_user_id r) (s_expires_at r)"
    unfolding redis_env.in_use_def [OF assms(1)]
    using assms(3-9) by (auto simp: unique_keys_def seconds_def intro!: bexI [of _ r])
qed

theorem regular_use_never_idles_out_witness:
  "list_all (\<lambda>r. \<exists>s. r = Inr s) (fst (uses sample_env 9 7 [minutes 29, 0, minutes 29]
     (tick (- minutes 10) sample_login)))"
proof -
  have "list_all (\<lambda>r. \<exists>s. r = Inr s) (fst (uses sample_env (s_session_uuid sample_session)
      (s_user_id sample_session) [minutes 29, 0, minutes 29] (tick (- minutes 10) sample_login)))"
    by (rule regular_use_never_idles_out [OF sample.redis_env_axioms]) (simp_all add: time_defs)
  then show ?thesis by simp
qed

text \<open>
  The idle timeout does not bind refreshing: a session that has been idle for too long, so that
  any request with its access token would expire it, is brought back by rotating its refresh
  token; right after it, validation accepts the session.
\<close>

theorem refresh_bypasses_idle_timeout:
  assumes "redis_env E val up" and "sane (cfg E)" and "up (redis w)" and "unique_keys (db w)"
    and "r \<in> set (sessions (db w))" and "s_is_active r" and "clock w < s_expires_at r"
    and "val (redis w) (clock w) (revoked_key (s_session_uuid r)) = None"
    and "s_last_activity_at r + minutes (SESSION_IDLE_TIMEOUT_MINUTES (cfg E)) < clock w"
  shows "(\<exists>e. fst (validate_and_touch E (s_session_uuid r) (s_user_id r) w) = Inl e) \<and>
    (\<exists>w' x. rebind_refresh E (s_user_id r) (s_session_uuid r) jti w = (Inr (), w') \<and>
       fst (validate_and_touch E (s_session_uuid r) (s_user_id r) w') = Inr x)"
proof
  have unique: "distinct (List.map s_session_uuid (sessions (db w)))"
    using assms(4) by (simp add: unique_keys_def)
  have "\<not> usable (cfg E) r (clock w)" using assms(9) by (simp add: usable_def)
  then have "runs (validate_and_touch E (s_session_uuid r) (s_user_id r)) w (\<lambda>_ _. False) (\<lambda>_ _. True)"
    by (intro runs_mono [OF redis_env.validate_decides [OF assms(1-3) unique]])
       (auto dest: session_lookup [OF unique assms(5)])
  from runs_raisesD [OF this] show "\<exists>e. fst (validate_and_touch E (s_session_uuid r) (s_user_id r) w) = Inl e"
    by auto
  from runs_returnsD [OF redis_env.rebind_then_usable [OF assms(1-3) unique assms(5-8), of jti]]
  show "\<exists>w' x. rebind_refresh E (s_user_id r) (s_session_uuid r) jti w = (Inr (), w') \<and>
       fst (validate_and_touch E (s_session_uuid r) (s_user_id r) w') = Inr x"
    by auto
qed

theorem refresh_bypasses_idle_timeout_witness:
  "\<exists>w' x. rebind_refresh sample_env 7 9 ''jti3'' (tick (hours 1) sample_login) = (Inr (), w') \<and>
     fst (validate_and_touch sample_env 9 7 w') = Inr x"
  using refresh_bypasses_idle_timeout [OF sample.redis_env_axioms, of "tick (hours 1) sample_login"
      sample_session "''jti3''"]
  by (simp add: time_defs)

text \<open>
  The previous login shown to a user is the latest login of another session of the user before
  the current one (before now, if there is no current session), and there is none exactly if no
  such session exists.
\<close>

theorem previous_login_is_latest:
  "\<exists>p. previous_login user current w = (Inr p, w) \<and>
     (let cutoff = (case current of Some c \<Rightarrow> s_login_at c | None \<Rightarrow> clock w);
          earlier = {s \<in> set (sessions (db w)). s_user_id s = u_id user \<and> s_login_at s < cutoff \<and>
            Some (s_session_uuid s) \<noteq> map_option s_session_uuid current}
      in (case p of None \<Rightarrow> earlier = {}
          | Some q \<Rightarrow> q \<in> earlier \<and> (\<forall>s \<in> earlier. s_login_at s \<le> s_login_at q)))"
proof -
  let ?cutoff = "case current of Some c \<Rightarrow> s_login_at c | None \<Rightarrow> clock w"
  let ?earlier = "{s \<in> set (sessions (db w)). s_user_id s = u_id user \<and> s_login_at s < ?cutoff \<and>
            Some (s_session_uuid s) \<noteq> map_option s_session_uuid current}"
  define cs where "cs = filter (\<lambda>s. Some (s_session_uuid s) \<noteq> map_option s_session_uuid current \<and>
      s_login_at s < ?cutoff) (latest_first (filter (\<lambda>s. s_user_id s = u_id user \<and>
        (False \<longrightarrow> s_is_active s)) (sessions (db w))))"
  have cs: "set cs = ?earlier" by (auto simp: cs_def latest_first_def)
  have run: "previous_login user current w =
      (Inr (case cs of [] \<Rightarrow> None | c # cs \<Rightarrow> Some (first_max s_login_at c cs)), w)"
    by (simp add: previous_login_def bnd_def list_for_user_def db_query_def now_def Let_def cs_def)
  show ?thesis
    unfolding run Let_def cs [symmetric]
  proof (cases cs, goal_cases)
    case (2 c rest)
    then show ?case using first_max_spec [of s_login_at c rest] by simp
  qed simp
qed

theorem previous_login_is_latest_witness:
  "previous_login sample_user None sample_login = (Inr (Some sample_session), sample_login)"
proof -
  from previous_login_is_latest [of sample_user None sample_login]
  obtain p where p: "previous_login sample_user None sample_login = (Inr p, sample_login)"
      "case p of None \<Rightarrow> False | Some q \<Rightarrow> q = sample_session"
    by (force simp: Let_def time_defs split: option.splits)
  then show ?thesis by (cases p) auto
qed

text \<open>
  Ownership: a user can neither read nor revoke a session of somebody else by its identifier;
  the answer is the same as for a session that does not exist, and nothing changes.
\<close>

theorem foreign_session_not_found:
  assumes "unique_keys (db w)"
    and "\<forall>s \<in> set (sessions (db w)). s_session_uuid s = sid \<longrightarrow> s_user_id s \<noteq> u_id user"
  shows "get_owned user sid w = (Inl (err NotFoundError ''Session not found.''), w) \<and>
    revoke_by_uuid E user sid why w = (Inl (err NotFoundError ''Session not found.''), w)"
proof -
  have "distinct (List.map s_session_uuid (sessions (db w)))"
    using assms(1) by (simp add: unique_keys_def)
  then have "runs (get_owned user sid) w (\<lambda>_ _. False)
      (\<lambda>e w'. e = err NotFoundError ''Session not found.'' \<and> w' = w)"
    and "runs (revoke_by_uuid E user sid why) w (\<lambda>_ _. False)
      (\<lambda>e w'. e = err NotFoundError ''Session not found.'' \<and> w' = w)"
    unfolding get_owned_def revoke_by_uuid_def
    by (intro runs_intros session_by_uuid.runs_find; use assms(2) in auto)+
  from this [THEN runs_raisesD] show ?thesis by auto
qed

theorem foreign_session_not_found_witness:
  "revoke_by_uuid sample_env (sample_user\<lparr>u_id := 8\<rparr>) 9 ''x'' sample_login =
     (Inl (err NotFoundError ''Session not found.''), sample_login)"
  using foreign_session_not_found [of sample_login 9 "sample_user\<lparr>u_id := 8\<rparr>" sample_env "''x''"]
  by simp

end
