(* ===== verification/Auth_Service.thy ===== *)
theory Auth_Service
  imports Tables
begin

text \<open>
  \<^verbatim>\<open>app/services/auth.py\<close>: registration and the check of credentials, behind the lockout of the
  rate limiter.
\<close>

definition DEFAULT_ROLE :: string where
  "DEFAULT_ROLE = ''user''"

definition register :: "'r env \<Rightarrow> string \<Rightarrow> string \<Rightarrow> string \<Rightarrow> ('r world, user_row) prog" where
  "register E email password full_name =
     bnd (lift_sum (validate_password_strength password)) (\<lambda>_.
     bnd (email_exists email) (\<lambda>taken.
     if taken then raise (err ConflictError ''A user with this email already exists.'')
     else
       bnd (hash_password E password) (\<lambda>hashed.
       bnd (get_by_name DEFAULT_ROLE) (\<lambda>default_role.
       bnd (draw (uuid7 E)) (\<lambda>i.
       bnd now (\<lambda>t.
       let user = \<lparr>u_id = i, u_email = lower email, u_hashed_password = hashed,
             u_full_name = full_name, u_is_active = True, u_is_verified = False,
             u_is_superuser = False, u_created_at = t\<rparr> in
       bnd (add_user user) (\<lambda>_.
       bnd (case default_role of None \<Rightarrow> ret () | Some r \<Rightarrow> append_role i r) (\<lambda>_.
       ret user))))))))"

definition authenticate ::
    "'r env \<Rightarrow> string \<Rightarrow> string \<Rightarrow> string option \<Rightarrow> ('r world, user_row) prog" where
  "authenticate E email password ip =
     bnd (ensure_not_locked E email ip) (\<lambda>_.
     bnd (get_by_email email) (\<lambda>user.
     bnd (case user of
            Some u \<Rightarrow> ret (u_hashed_password u)
          | None \<Rightarrow> hash_password E ''invalid-placeholder'') (\<lambda>stored.
     bnd (verify_password E password stored) (\<lambda>password_ok.
     case user of
       None \<Rightarrow> bnd (record_failure E email ip) (\<lambda>_.
         raise (err AuthError ''Invalid email or password.''))
     | Some u \<Rightarrow>
         if \<not> password_ok then
           bnd (record_failure E email ip) (\<lambda>_.
           raise (err AuthError ''Invalid email or password.''))
         else if \<not> u_is_active u then raise (err AuthError ''This account is disabled.'')
         else
           bnd (clear_failures E email ip) (\<lambda>_.
           if needs_rehash E (u_hashed_password u) then
             bnd (hash_password E password) (\<lambda>hashed.
             bnd (write_user u (\<lambda>v. v\<lparr>u_hashed_password := hashed\<rparr>)) (\<lambda>_.
             bnd flush (\<lambda>_.
             ret (u\<lparr>u_hashed_password := hashed\<rparr>))))
           else ret u)))))"

section \<open>What the operations touch\<close>

context free_frame
begin

lemma auth_ops [intro]:
  "within T (register E em pw name)" "within T (authenticate E em pw ip)"
  unfolding register_def authenticate_def Let_def
  by (intro free_rules rate_limit_ops security_ops)+

end

lemma user_changes [simp]:
  "user_change (\<lambda>v. v\<lparr>u_hashed_password := h\<rparr>)" "user_change (\<lambda>v. v\<lparr>u_is_verified := True\<rparr>)"
  by (simp_all add: user_change_def)

context table_invariant
begin

lemma both_auth_ops [intro]:
  "within (both I) (register E em pw name)" "within (both I) (authenticate E em pw ip)"
  unfolding register_def authenticate_def Let_def
  by (intro both_rules both_inserts(1) both.rate_limit_ops both.security_ops user_changes | simp)+

end

section \<open>Facts about authentication\<close>

lemma unique_lower_emails:
  assumes "unique_keys d"
  shows "distinct (List.map (\<lambda>u. lower (u_email u)) (users d))"
proof -
  have "List.map (\<lambda>u. lower (u_email u)) (users d) = List.map u_email (users d)"
    using assms by (intro map_cong) (auto simp: unique_keys_def)
  with assms show ?thesis by (simp only: unique_keys_def)
qed

text \<open>What passlib is relied on for: it can read the hashes that are compared.\<close>

definition hashes_readable :: "'r env \<Rightarrow> database \<Rightarrow> string \<Rightarrow> bool" where
  "hashes_readable E d pw \<longleftrightarrow> (\<forall>u \<in> set (users d). pwd_verify E pw (u_hashed_password u) \<noteq> None) \<and>
     (\<forall>n. pwd_verify E pw (pwd_hash E n ''invalid-placeholder'') \<noteq> None)"

text \<open>The verdict on credentials.\<close>

definition auth_verdict ::
    "'r env \<Rightarrow> bool \<Rightarrow> user_row list \<Rightarrow> string \<Rightarrow> string \<Rightarrow> exn + uuid" where
  "auth_verdict E locked us email pw =
     (if locked then Inl (err0 AccountLocked)
      else case List.find (\<lambda>u. lower (u_email u) = lower email) us of
          None \<Rightarrow> Inl (err AuthError ''Invalid email or password.'')
        | Some u \<Rightarrow>
            if pwd_verify E pw (u_hashed_password u) \<noteq> Some True
            then Inl (err AuthError ''Invalid email or password.'')
            else if \<not> u_is_active u then Inl (err AuthError ''This account is disabled.'')
            else Inr (u_id u))"

lemma runs_get_by_email:
  assumes "unique_keys (db w)"
    and "S (List.find (\<lambda>u. lower (u_email u) = lower em) (users (db w))) w"
  shows "runs (get_by_email em) w S F"
  using user_by_email.unique [OF unique_lower_emails [OF assms(1)], of em] assms(2)
  by (simp add: runs_def)

lemma runs_hash_password [runs_intros]:
  "S (pwd_hash E (draws w) p) (w\<lparr>draws := Suc (draws w)\<rparr>) \<Longrightarrow> runs (hash_password E p) w S F"
  unfolding hash_password_def by (rule runs_draw)

lemma runs_verify_password [runs_intros]:
  assumes "pwd_verify E p h = None \<Longrightarrow> F ValueError w" and "\<And>b. pwd_verify E p h = Some b \<Longrightarrow> S b w"
  shows "runs (verify_password E p h) w S F"
  unfolding verify_password_def by (intro runs_intros assms)

lemma runs_record_failure:
  "(\<And>w'. but_redis w w' \<Longrightarrow> S () w') \<Longrightarrow> runs (record_failure E i ip) w S F"
  by (rule runs_mono [OF runs_conj [OF runs_redis_local [OF redis_local_rate_limit(3),
        where S = "\<lambda>_. but_redis w" and F = "\<lambda>_. but_redis w"]
        raises_only_runs [OF raises_only_failures(1) [of "\<lambda>_. False"]]]]) auto

lemma runs_clear_failures:
  "(\<And>w'. but_redis w w' \<Longrightarrow> S () w') \<Longrightarrow> runs (clear_failures E i ip) w S F"
  by (rule runs_mono [OF runs_conj [OF runs_redis_local [OF redis_local_rate_limit(4),
        where S = "\<lambda>_. but_redis w" and F = "\<lambda>_. but_redis w"]
        raises_only_runs [OF raises_only_failures(2) [of "\<lambda>_. False"]]]]) auto

context redis_env
begin

lemma authenticate_verdict_runs:
  fixes em ip pw w
  assumes up: "up (redis w)" and unique: "unique_keys (db w)" and readable: "hashes_readable E (db w) pw"
  defines "v \<equiv> auth_verdict E (seen w (lockout_key em ip) \<noteq> None) (users (db w)) em pw"
  shows "runs (authenticate E em pw ip) w (\<lambda>u _. v = Inr (u_id u)) (\<lambda>e _. v = Inl e)"
proof -
  have pw: "pwd_verify E pw (u_hashed_password u) \<noteq> None"
    if "List.find P (users (db w)) = Some u" for P u
    using that readable unfolding hashes_readable_def find_Some_iff by auto
  have ph: "pwd_verify E pw (pwd_hash E n ''invalid-placeholder'') \<noteq> None" for n
    using readable by (simp add: hashes_readable_def)
  show ?thesis
    unfolding authenticate_def
    apply (intro runs_intros runs_ensure_not_locked runs_get_by_email runs_record_failure runs_clear_failures)
    using up unique pw ph
    apply (auto simp: v_def auth_verdict_def redis_upd_fields simp del: split_paired_All dest: but_redis_fields)
    done
qed

end

section \<open>A wrong password\<close>

text \<open>What a log-in with a wrong password comes to: the lock check, and one recorded failure.\<close>

definition refusal :: "'r env \<Rightarrow> string \<Rightarrow> string option \<Rightarrow> ('r world, user_row) prog" where
  "refusal E email ip =
     bnd (ensure_not_locked E email ip) (\<lambda>_.
     bnd (record_failure E email ip) (\<lambda>_.
     raise (err AuthError ''Invalid email or password.'')))"

text \<open>No account with the address, or another password; and passlib reads the placeholder's hash.\<close>

definition wrong_password :: "'r env \<Rightarrow> user_row list \<Rightarrow> string \<Rightarrow> string \<Rightarrow> bool" where
  "wrong_password E us email pw \<longleftrightarrow>
     (case List.find (\<lambda>u. lower (u_email u) = lower email) us of
        None \<Rightarrow> True | Some u \<Rightarrow> pwd_verify E pw (u_hashed_password u) = Some False) \<and>
     (\<forall>n. pwd_verify E pw (pwd_hash E n ''invalid-placeholder'') \<noteq> None)"

lemma redis_local_refusal: "redis_local (refusal E em ip)"
  unfolding refusal_def by (intro redis_local_rules redis_local_rate_limit)

lemma redis_local_draws:
  assumes "redis_local m"
  shows "m (w\<lparr>draws := n\<rparr>) = (fst (m w), (snd (m w))\<lparr>draws := n\<rparr>)"
proof -
  let ?v = "w\<lparr>draws := n\<rparr>"
  obtain r r' where "snd (m w) = w\<lparr>redis := r\<rparr>" "snd (m ?v) = ?v\<lparr>redis := r'\<rparr>"
    using redis_localD(1) [OF assms, of w] redis_localD(1) [OF assms, of ?v]
    unfolding but_redis_def by blast
  with redis_localD(2) [OF assms, of w ?v] show ?thesis
    by (cases "m ?v") simp
qed

lemma authenticate_refused:
  assumes unique: "unique_keys (db w)" and wrong: "wrong_password E (users (db w)) em pw"
  shows "\<exists>n. authenticate E em pw ip w = (fst (refusal E em ip w), (snd (refusal E em ip w))\<lparr>draws := n\<rparr>)"
proof (cases "ensure_not_locked E em ip w")
  case (Pair r w1)
  have w1: "but_redis w w1"
    using redis_localD(1) [OF redis_local_rate_limit(2), of w E em ip] Pair by simp
  show ?thesis
  proof (cases r)
    case (Inl e)
    with Pair show ?thesis
      by (intro exI [of _ "draws w1"]) (simp add: authenticate_def refusal_def bnd_def)
  next
    case (Inr x)
    let ?u = "List.find (\<lambda>u. lower (u_email u) = lower em) (users (db w))"
    have get: "get_by_email em w1 = (Inr ?u, w1)"
      using user_by_email.unique [of w1 em] unique_lower_emails [OF unique] but_redis_fields [OF w1]
      by simp
    show ?thesis
    proof (cases ?u)
      case None
      obtain b where "pwd_verify E pw (pwd_hash E (draws w1) ''invalid-placeholder'') = Some b"
        using wrong unfolding wrong_password_def by blast
      with None get Pair Inr redis_local_draws [OF redis_local_rate_limit(3), where w = w1 and n = "Suc (draws w1)"]
      show ?thesis
        by (intro exI [of _ "Suc (draws w1)"])
           (auto simp: authenticate_def refusal_def bnd_def hash_password_def draw_def verify_password_def
              split: prod.splits sum.splits)
    next
      case (Some u)
      then have "pwd_verify E pw (u_hashed_password u) = Some False"
        using wrong by (simp add: wrong_password_def)
      with Some get Pair Inr
      show ?thesis
        by (intro exI [of _ "draws (snd (record_failure E em ip w1))"])
           (auto simp: authenticate_def refusal_def bnd_def verify_password_def split: prod.splits sum.splits)
    qed
  qed
qed

section \<open>Guessing a password\<close>

text \<open>
  An attacker who, against one address from one network address, tries one password after the
  other, waiting the times \<open>ds\<close>: \<open>guess\<close> may choose the password from all of the state.
\<close>

definition attack ::
    "'r env \<Rightarrow> string \<Rightarrow> string option \<Rightarrow> ('r world \<Rightarrow> string) \<Rightarrow> time list \<Rightarrow> 'r world \<Rightarrow> 'r world" where
  "attack E em ip guess ds w = repeated (\<lambda>w. snd (authenticate E em (guess w) ip w)) ds w"

definition guesses_wrong ::
    "'r env \<Rightarrow> string \<Rightarrow> ('r world \<Rightarrow> string) \<Rightarrow> database \<Rightarrow> 'r world \<Rightarrow> bool" where
  "guesses_wrong E em guess d w \<longleftrightarrow> db w = d \<and> unique_keys d \<and>
     (\<forall>v. wrong_password E (users d) em (guess v))"

lemma refused_frame:
  assumes "unique_keys (db w)" and "wrong_password E (users (db w)) em pw"
  shows "db (snd (authenticate E em pw ip w)) = db w \<and> committed (snd (authenticate E em pw ip w)) = committed w"
  using authenticate_refused [OF assms, of ip] redis_localD(1) [OF redis_local_refusal, of w E em ip]
  by (auto dest: but_redis_fields)

lemma lock_at_draws [simp]: "lock_at val (w\<lparr>draws := n\<rparr>) k e = lock_at val w k e"
  by (simp add: lock_at_def)

context redis_env
begin

lemma guarded_draws [simp]: "guarded (w\<lparr>draws := n\<rparr>) i ip c e = guarded w i ip c e"
  by (simp add: guarded_def counter_at_def)

lemma refused_counts:
  assumes J: "guesses_wrong E em guess d w" and g: "guarded w em ip c e" and sane: "sane (cfg E)"
    and c: "0 \<le> c" "c = 0 \<or> before (clock w) e"
  shows "let w' = snd (authenticate E em (guess w) ip w) in clock w' = clock w \<and> up (redis w') \<and>
      (if MAX_FAILED_LOGINS (cfg E) \<le> c + 1
       then lock_at val w' (lockout_key em ip) (Some (clock w + seconds (LOCKOUT_SECONDS (cfg E))))
       else guarded w' em ip (c + 1) (if c = 0 then Some (clock w + seconds (LOCKOUT_SECONDS (cfg E))) else e))"
proof -
  from g have up: "up (redis w)" and free: "seen w (lockout_key em ip) = None"
    by (auto simp: guarded_def lock_at_def)
  have "runs (ensure_not_locked E em ip) w
      (\<lambda>_ w1. redis_upd val (\<lambda>t f. f) w w1 \<and> up (redis w1)) (\<lambda>_ _. False)"
    by (rule runs_ensure_not_locked) (use up free in auto)
  from runs_returnsD [OF this] obtain w1 where run: "ensure_not_locked E em ip w = (Inr (), w1)"
    and w1: "redis_upd val (\<lambda>t f. f) w w1" "up (redis w1)"
    by auto
  obtain n where "snd (authenticate E em (guess w) ip w) = (snd (record_failure E em ip w1))\<lparr>draws := n\<rparr>"
    using authenticate_refused [of w E em "guess w" ip] J run
    by (cases "record_failure E em ip w1") (auto simp: guesses_wrong_def refusal_def bnd_def split: sum.splits)
  with failure_step_after [OF g sane c w1 refl] show ?thesis
    by (auto simp: Let_def)
qed

end

sublocale redis_env \<subseteq> guessing: counted_failure E val up "\<lambda>w. snd (authenticate E em (guess w) ip w)" em ip
    "guesses_wrong E em guess d"
  for em guess ip d
proof unfold_locales
  show "guesses_wrong E em guess d (snd (authenticate E em (guess w) ip w))"
    if "guesses_wrong E em guess d w" for w
    using that refused_frame [of w E em "guess w" ip] by (auto simp: guesses_wrong_def)
qed (use refused_counts in \<open>auto simp: guesses_wrong_def Let_def\<close>)

context redis_env
begin

lemmas guessing_locks_check = guessing.locks_check
lemmas guessing_J_repeated = guessing.J_repeated

end

section \<open>A new account\<close>

lemma runs_register:
  "runs (register E em pw name) w
     (\<lambda>u w'. users (db w') = users (db w) @ [u] \<and> clock w' = clock w \<and> redis w' = redis w \<and>
        committed w' = committed w \<and> roles (db w') = roles (db w) \<and>
        user_roles (db w') = user_roles (db w) @
          (case filter (\<lambda>r. ro_name r = DEFAULT_ROLE) (roles (db w)) of [] \<Rightarrow> [] | r # _ \<Rightarrow> [(u_id u, ro_id r)]) \<and>
        u_email u = lower em \<and> (\<exists>n. u_hashed_password u = pwd_hash E n pw) \<and>
        u_is_active u \<and> \<not> u_is_verified u \<and> \<not> u_is_superuser u \<and>
        (\<forall>x \<in> set (users (db w)). lower (u_email x) \<noteq> lower em) \<and> password_problems pw = [])
     (\<lambda>_ _. True)"
  unfolding register_def get_by_name_def email_exists_def add_user_def Let_def
  by (intro runs_intros runs_insert_row TrueI)
     (auto simp: filter_empty_conv validate_password_cases split: if_splits)

section \<open>What registration and the check of credentials promise\<close>

lemma sample_address [simp]:
  "lower ''ann@example.org'' = ''ann@example.org''" "lower ''Ann@Example.org'' = ''ann@example.org''"
  by code_simp+

lemma sample_auth [simp]:
  "unique_keys empty_db" "unique_keys sample_db" "hashes_readable sample_env sample_db pw"
  by (simp_all add: unique_keys_def hashes_readable_def sample_db_def empty_db_def)

text \<open>
  C26. The outcome of a log-in, while Redis answers: refused if the account is locked for the address,
  then if there is no account with the email address (compared without case) or the password
  does not verify, both with the same message, then if the account is disabled; else the
  account itself.
\<close>

theorem authenticate_verdict:
  assumes "redis_env E val up" and "up (redis w)" and "unique_keys (db w)"
    and "hashes_readable E (db w) pw"
  shows "map_sum id u_id (fst (authenticate E em pw ip w)) =
    auth_verdict E (val (redis w) (clock w) (lockout_key em ip) \<noteq> None) (users (db w)) em pw"
  using redis_env.authenticate_verdict_runs [OF assms, of em ip]
  by (auto simp: runs_def split: prod.splits sum.splits)

theorem authenticate_verdict_witness:
  "map_sum id u_id (fst (authenticate sample_env ''Ann@Example.org'' ''Secret-99'' None sample_world)) = Inr 7 \<and>
   fst (authenticate sample_env ''ann@example.org'' ''other'' None sample_world) =
     Inl (err AuthError ''Invalid email or password.'')"
proof -
  note verdict = authenticate_verdict [OF sample.redis_env_axioms, of sample_world]
  have "map_sum id u_id (fst (authenticate sample_env ''Ann@Example.org'' ''Secret-99'' None sample_world)) = Inr 7"
    by (subst verdict) (simp_all add: auth_verdict_def)
  moreover have "map_sum id u_id (fst (authenticate sample_env ''ann@example.org'' ''other'' None sample_world)) =
      Inl (err AuthError ''Invalid email or password.'')"
    by (subst verdict) (simp_all add: auth_verdict_def)
  ultimately show ?thesis
    by (cases "fst (authenticate sample_env ''ann@example.org'' ''other'' None sample_world)") auto
qed

text \<open>
  C27. No enumeration of accounts: a log-in to an address without an account and one with a wrong
  password to an existing account have the same result and the same effect on Redis, whatever
  Redis answers, and neither writes a table, an audit entry or a mail.
\<close>

theorem no_user_enumeration:
  assumes "unique_keys (db w)" and "wrong_password E (users (db w)) em pw"
    and "unique_keys (db v)" and "wrong_password E (users (db v)) em pw'"
    and "clock v = clock w" and "redis v = redis w"
  shows "fst (authenticate E em pw ip w) = fst (authenticate E em pw' ip v) \<and>
    redis (snd (authenticate E em pw ip w)) = redis (snd (authenticate E em pw' ip v)) \<and>
    (let w' = snd (authenticate E em pw ip w) in db w' = db w \<and> committed w' = committed w \<and>
       background w' = background w \<and> audit_log w' = audit_log w \<and> outbox w' = outbox w)"
proof -
  obtain n m where eq: "authenticate E em pw ip w = (fst (refusal E em ip w), (snd (refusal E em ip w))\<lparr>draws := n\<rparr>)"
      "authenticate E em pw' ip v = (fst (refusal E em ip v), (snd (refusal E em ip v))\<lparr>draws := m\<rparr>)"
    using authenticate_refused [OF assms(1,2)] authenticate_refused [OF assms(3,4)] by blast
  have same: "fst (refusal E em ip w) = fst (refusal E em ip v) \<and>
      redis (snd (refusal E em ip w)) = redis (snd (refusal E em ip v))"
    by (rule redis_localD(2) [OF redis_local_refusal]) (simp_all add: assms(5,6))
  show ?thesis
    using but_redis_fields [OF redis_localD(1) [OF redis_local_refusal, of w E em ip]]
    by (simp add: eq same Let_def)
qed

theorem no_user_enumeration_witness:
  "fst (authenticate sample_env ''ann@example.org'' ''guess'' None sample_world) =
     fst (authenticate sample_env ''ann@example.org'' ''guess'' None (sample_world\<lparr>db := empty_db\<rparr>))"
  by (rule no_user_enumeration [THEN conjunct1])
     (simp_all add: wrong_password_def, simp add: empty_db_def)





end
