(* ===== verification/Two_Factor.thy ===== *)
theory Two_Factor
  imports Auth_Service Session_Service
begin

text \<open>
  \<^verbatim>\<open>app/services/two_factor.py\<close>: one-time passwords and recovery codes. pyotp, qrcode and Fernet are
  parameters of the environment. A code of either kind is checked behind the same lockout, whose
  identifier is the account; a one-time password that was accepted is remembered in Redis for as
  long as it could be accepted again.
\<close>

section \<open>The service\<close>

definition CODE_ALPHABET :: string where
  "CODE_ALPHABET = ''ABCDEFGHJKLMNPQRSTUVWXYZ23456789''"

definition OTP_STEP_SECONDS :: int where
  "OTP_STEP_SECONDS = 30"

definition lock_id :: "user_row \<Rightarrow> string" where
  "lock_id user = ''2fa:'' @ uuid_str (u_id user)"

definition require_password :: "'r env \<Rightarrow> user_row \<Rightarrow> string \<Rightarrow> ('r world, unit) prog" where
  "require_password E user password =
     bnd (verify_password E password (u_hashed_password user)) (\<lambda>ok.
     when_do (\<not> ok) (raise (err AuthError ''Password confirmation failed.'')))"

definition provisioning_uri :: "'r env \<Rightarrow> string \<Rightarrow> string \<Rightarrow> string" where
  "provisioning_uri E secret email = totp_uri E secret email (TWO_FACTOR_ISSUER (cfg E))"

definition qr_code_base64 :: "'r env \<Rightarrow> string \<Rightarrow> string" where
  "qr_code_base64 E uri = base64_text E (qr_png E uri)"

definition qr_code_png :: "'r env \<Rightarrow> string \<Rightarrow> string" where
  "qr_code_png E uri = qr_png E uri"

text \<open>\<open>TOTP(secret).verify(otp, valid_window=\<dots>)\<close>.\<close>

definition otp_valid :: "'r env \<Rightarrow> time \<Rightarrow> string \<Rightarrow> string \<Rightarrow> bool" where
  "otp_valid E t secret otp = totp_verify E t secret otp (TOTP_VALID_WINDOW (cfg E))"

definition start_setup :: "'r env \<Rightarrow> user_row \<Rightarrow> string \<Rightarrow> ('r world, string \<times> string) prog" where
  "start_setup E user password =
     bnd (require_password E user password) (\<lambda>_.
     bnd (get_two_factor (u_id user)) (\<lambda>record.
     if (case record of None \<Rightarrow> False | Some r \<Rightarrow> tf_enabled r)
     then raise (err ConflictError ''Two-factor authentication is already enabled.'')
     else
       bnd (draw (random_base32 E)) (\<lambda>secret.
       bnd (encrypt E secret) (\<lambda>cipher.
       bnd (case record of
              None \<Rightarrow>
                bnd (draw (uuid7 E)) (\<lambda>i.
                add_two_factor \<lparr>tf_id = i, tf_user_id = u_id user, tf_encrypted_secret = cipher,
                  tf_enabled = False, tf_verified_at = None\<rparr>)
            | Some r \<Rightarrow>
                write_two_factor r (\<lambda>v. v\<lparr>tf_encrypted_secret := cipher, tf_enabled := False,
                  tf_verified_at := None\<rparr>)) (\<lambda>_.
       bnd flush (\<lambda>_.
       ret (secret, provisioning_uri E secret (u_email user))))))))"

definition get_pending_secret :: "'r env \<Rightarrow> user_row \<Rightarrow> ('r world, string) prog" where
  "get_pending_secret E user =
     bnd (get_two_factor (u_id user)) (\<lambda>record.
     case record of
       None \<Rightarrow> raise (err NotFoundError ''No pending two-factor setup to display.'')
     | Some r \<Rightarrow>
         if tf_enabled r then raise (err NotFoundError ''No pending two-factor setup to display.'')
         else decrypt E (tf_encrypted_secret r))"

definition confirm_setup :: "'r env \<Rightarrow> user_row \<Rightarrow> string \<Rightarrow> ('r world, unit) prog" where
  "confirm_setup E user otp =
     bnd (get_two_factor (u_id user)) (\<lambda>record.
     case record of
       None \<Rightarrow> raise (err NotFoundError ''Start two-factor setup first.'')
     | Some r \<Rightarrow>
         if tf_enabled r then raise (err ConflictError ''Two-factor authentication is already enabled.'')
         else
           bnd (decrypt E (tf_encrypted_secret r)) (\<lambda>secret.
           bnd now (\<lambda>t.
           if \<not> otp_valid E t secret otp then raise (err AuthError ''Invalid verification code.'')
           else
             bnd (write_two_factor r (\<lambda>v. v\<lparr>tf_enabled := True, tf_verified_at := Some t\<rparr>)) (\<lambda>_.
             flush))))"

section \<open>Verification\<close>

definition enabled_record :: "user_row \<Rightarrow> ('r world, two_factor_row) prog" where
  "enabled_record user =
     bnd (get_two_factor (u_id user)) (\<lambda>record.
     case record of
       None \<Rightarrow> raise (err ConflictError ''Two-factor authentication is not enabled.'')
     | Some r \<Rightarrow>
         if \<not> tf_enabled r then raise (err ConflictError ''Two-factor authentication is not enabled.'')
         else ret r)"

text \<open>The seconds for which an accepted one-time password is remembered.\<close>

definition replay_ttl :: "settings \<Rightarrow> int" where
  "replay_ttl c = OTP_STEP_SECONDS * (2 * TOTP_VALID_WINDOW c + 1)"

definition verify_totp :: "'r env \<Rightarrow> user_row \<Rightarrow> string \<Rightarrow> ('r world, unit) prog" where
  "verify_totp E user otp =
     bnd (ensure_not_locked E (lock_id user) None) (\<lambda>_.
     bnd (enabled_record user) (\<lambda>record.
     bnd (decrypt E (tf_encrypted_secret record)) (\<lambda>secret.
     let replay_key = otp_used_key (u_id user) otp in
     bnd (redis_exists E replay_key) (\<lambda>used.
     if used then
       bnd (record_failure E (lock_id user) None) (\<lambda>_.
       raise (err AuthError ''This code has already been used.''))
     else
       bnd now (\<lambda>t.
       if \<not> otp_valid E t secret otp then
         bnd (record_failure E (lock_id user) None) (\<lambda>_.
         raise (err AuthError ''Invalid verification code.''))
       else
         bnd (redis_set E replay_key ''1'' (replay_ttl (cfg E))) (\<lambda>_.
         clear_failures E (lock_id user) None))))))"

section \<open>Recovery codes\<close>

text \<open>\<open>secrets.choice(_CODE_ALPHABET) for _ in range(k)\<close>.\<close>

fun draw_chars :: "'r env \<Rightarrow> nat \<Rightarrow> ('r world, string) prog" where
  "draw_chars E 0 = ret []"
| "draw_chars E (Suc k) =
     bnd (draw (rand_below E (length CODE_ALPHABET))) (\<lambda>i.
     bnd (draw_chars E k) (\<lambda>rest.
     ret (CODE_ALPHABET ! i # rest)))"

definition generate_code :: "'r env \<Rightarrow> ('r world, string) prog" where
  "generate_code E =
     bnd (draw_chars E 12) (\<lambda>raw.
     ret (take 4 raw @ ''-'' @ take 4 (drop 4 raw) @ ''-'' @ drop 8 raw))"

fun generate_codes :: "'r env \<Rightarrow> nat \<Rightarrow> ('r world, string list) prog" where
  "generate_codes E 0 = ret []"
| "generate_codes E (Suc k) =
     bnd (generate_code E) (\<lambda>code.
     bnd (generate_codes E k) (\<lambda>rest.
     ret (code # rest)))"

text \<open>A code is stored as a hash; its row gets its id and time at the flush.\<close>

definition store_code :: "'r env \<Rightarrow> user_row \<Rightarrow> string \<Rightarrow> ('r world, unit) prog" where
  "store_code E user code =
     bnd (hash_password E code) (\<lambda>hashed.
     bnd (draw (uuid7 E)) (\<lambda>i.
     bnd now (\<lambda>t.
     add_backup_code \<lparr>bc_id = i, bc_user_id = u_id user, bc_hashed_code = hashed,
       bc_used_at = None, bc_created_at = t\<rparr>)))"

definition generate_recovery_codes ::
    "'r env \<Rightarrow> user_row \<Rightarrow> bool \<Rightarrow> ('r world, string list) prog" where
  "generate_recovery_codes E user replace =
     bnd (count_unused (u_id user)) (\<lambda>existing.
     if existing \<noteq> 0 \<and> \<not> replace then
       raise (err ConflictError ''Recovery codes already exist. Use regenerate to replace them.'')
     else
       bnd (when_do replace (delete_codes_for_user (u_id user))) (\<lambda>_.
       bnd (generate_codes E (nat (BACKUP_CODE_COUNT (cfg E)))) (\<lambda>plaintext.
       bnd (for_each (store_code E user) plaintext) (\<lambda>_.
       bnd flush (\<lambda>_.
       ret plaintext)))))"

text \<open>\<open>for candidate in \<dots>: if await verify_password(normalized, candidate.hashed_code)\<close>: the first match.\<close>

fun match_code ::
    "'r env \<Rightarrow> string \<Rightarrow> backup_code_row list \<Rightarrow> ('r world, backup_code_row option) prog" where
  "match_code E code [] = ret None"
| "match_code E code (candidate # rest) =
     bnd (verify_password E code (bc_hashed_code candidate)) (\<lambda>ok.
     if ok then ret (Some candidate) else match_code E code rest)"

definition consume_recovery_code :: "'r env \<Rightarrow> user_row \<Rightarrow> string \<Rightarrow> ('r world, unit) prog" where
  "consume_recovery_code E user code =
     bnd (ensure_not_locked E (lock_id user) None) (\<lambda>_.
     bnd (list_unused (u_id user)) (\<lambda>candidates.
     bnd (match_code E (upper (strip code)) candidates) (\<lambda>found.
     case found of
       Some candidate \<Rightarrow>
         bnd now (\<lambda>t.
         bnd (write_backup_code candidate (\<lambda>c. c\<lparr>bc_used_at := Some t\<rparr>)) (\<lambda>_.
         bnd flush (\<lambda>_.
         clear_failures E (lock_id user) None)))
     | None \<Rightarrow>
         bnd (record_failure E (lock_id user) None) (\<lambda>_.
         raise (err AuthError ''Invalid recovery code.'')))))"

section \<open>Disabling and status\<close>

definition disable :: "'r env \<Rightarrow> user_row \<Rightarrow> string \<Rightarrow> string \<Rightarrow> ('r world, unit) prog" where
  "disable E user password otp =
     bnd (require_password E user password) (\<lambda>_.
     bnd (verify_totp E user otp) (\<lambda>_.
     bnd (get_two_factor (u_id user)) (\<lambda>record.
     bnd (case record of None \<Rightarrow> ret () | Some r \<Rightarrow> delete_two_factor r) (\<lambda>_.
     bnd (delete_codes_for_user (u_id user)) (\<lambda>_.
     flush)))))"

definition is_enabled :: "user_row \<Rightarrow> ('r world, bool) prog" where
  "is_enabled user =
     bnd (get_two_factor (u_id user)) (\<lambda>record.
     ret (case record of None \<Rightarrow> False | Some r \<Rightarrow> tf_enabled r))"

record two_factor_status =
  st_enabled :: bool
  st_verified_at :: "time option"
  st_codes_remaining :: nat

definition two_factor_state :: "user_row \<Rightarrow> ('r world, two_factor_status) prog" where
  "two_factor_state user =
     bnd (get_two_factor (u_id user)) (\<lambda>record.
     let enabled = (case record of None \<Rightarrow> False | Some r \<Rightarrow> tf_enabled r) in
     bnd (if enabled then count_unused (u_id user) else ret 0) (\<lambda>remaining.
     ret \<lparr>st_enabled = enabled,
          st_verified_at = (case record of None \<Rightarrow> None | Some r \<Rightarrow> tf_verified_at r),
          st_codes_remaining = remaining\<rparr>))"

section \<open>What the operations touch\<close>

context world_frame
begin

lemma draw_codes [intro]:
  "within T (draw_chars E k)" "within T (generate_code E)" "within T (generate_codes E k)"
proof -
  show chars: "within T (draw_chars E k)" for k
    by (induction k) (auto simp del: ret_run intro!: world_rules)
  show code: "within T (generate_code E)"
    unfolding generate_code_def by (intro world_rules chars)
  show "within T (generate_codes E k)"
    by (induction k) (auto simp del: ret_run intro!: world_rules code)
qed

lemma two_factor_queries [intro]:
  "within T (require_password E u pw)" "within T (get_pending_secret E u)"
  "within T (enabled_record u)" "within T (is_enabled u)" "within T (two_factor_state u)"
  unfolding require_password_def get_pending_secret_def enabled_record_def is_enabled_def
    two_factor_state_def Let_def
  by (intro queries lookups world_rules security_ops crypto_ops)+

lemma match_code [intro]: "within T (match_code E c rs)"
  by (induction E c rs rule: match_code.induct) (auto simp del: ret_run intro!: world_rules security_ops)

end

context blind_frame
begin

lemma verify_totp [intro]: "within T (verify_totp E u otp)"
  unfolding verify_totp_def Let_def
  by (intro blind_rules rate_limit_ops two_factor_queries crypto_ops)+

end

context free_frame
begin

lemma two_factor_ops [intro]:
  "within T (start_setup E u pw)" "within T (confirm_setup E u otp)" "within T (store_code E u c)"
  "within T (consume_recovery_code E u c)" "within T (disable E u pw otp)"
  unfolding start_setup_def confirm_setup_def store_code_def consume_recovery_code_def disable_def
  by (intro free_rules rate_limit_ops two_factor_queries crypto_ops security_ops match_code verify_totp)+

lemma generate_recovery_codes [intro]: "within T (generate_recovery_codes E u b)"
  unfolding generate_recovery_codes_def by (intro free_rules draw_codes two_factor_ops)

end

lemma two_factor_changes [simp]:
  "two_factor_change (\<lambda>v. v\<lparr>tf_encrypted_secret := c, tf_enabled := b, tf_verified_at := t\<rparr>)"
  "two_factor_change (\<lambda>v. v\<lparr>tf_enabled := b, tf_verified_at := t\<rparr>)"
  "code_change (\<lambda>c. c\<lparr>bc_used_at := Some u\<rparr>)"
  by (simp_all add: two_factor_change_def code_change_def)

context table_invariant
begin

lemma both_two_factor_ops [intro]:
  "within (both I) (start_setup E u pw)" "within (both I) (confirm_setup E u otp)"
  "within (both I) (store_code E u c)"
  "within (both I) (consume_recovery_code E u c)" "within (both I) (disable E u pw otp)"
  unfolding start_setup_def confirm_setup_def store_code_def consume_recovery_code_def disable_def
  by (intro both_rules both_inserts both.rate_limit_ops both.two_factor_queries both.crypto_ops
      both.security_ops both.match_code both.verify_totp two_factor_changes)+

lemma both_generate_recovery_codes [intro]: "within (both I) (generate_recovery_codes E u b)"
  unfolding generate_recovery_codes_def by (intro both_rules both.draw_codes both_two_factor_ops)

end

section \<open>Outcomes\<close>

text \<open>The configuration of a user, and the outcome of a one-time password.\<close>

definition two_factor_of :: "database \<Rightarrow> user_row \<Rightarrow> two_factor_row option" where
  "two_factor_of d user = List.find (\<lambda>t. tf_user_id t = u_id user) (two_factors d)"

definition totp_verdict ::
    "'r env \<Rightarrow> bool \<Rightarrow> bool \<Rightarrow> two_factor_row option \<Rightarrow> time \<Rightarrow> string \<Rightarrow> exn + unit" where
  "totp_verdict E locked used record t otp =
     (if locked then Inl (err0 AccountLocked)
      else case record of
          None \<Rightarrow> Inl (err ConflictError ''Two-factor authentication is not enabled.'')
        | Some r \<Rightarrow>
            if \<not> tf_enabled r then Inl (err ConflictError ''Two-factor authentication is not enabled.'')
            else case decrypted E (tf_encrypted_secret r) of
                Inl e \<Rightarrow> Inl e
              | Inr secret \<Rightarrow>
                  if used then Inl (err AuthError ''This code has already been used.'')
                  else if \<not> otp_valid E t secret otp
                  then Inl (err AuthError ''Invalid verification code.'')
                  else Inr ())"

lemma two_factor_of_unique:
  assumes "unique_keys (db w)"
  shows "get_two_factor (u_id u) w = (Inr (two_factor_of (db w) u), w)"
  using two_factor_by_user.unique [of w "u_id u"] assms by (simp add: two_factor_of_def unique_keys_def)

lemma runs_get_two_factor:
  "unique_keys (db w) \<Longrightarrow> S (two_factor_of (db w) u) w \<Longrightarrow> runs (get_two_factor (u_id u)) w S F"
  by (simp add: runs_def two_factor_of_unique)

lemma runs_crypto [runs_intros]:
  "(\<And>e. fernet E = Inl e \<Longrightarrow> F e w) \<Longrightarrow>
   (fernet E = Inr () \<Longrightarrow> S (fernet_encrypt E (draws w) (ENCRYPTION_KEY (cfg E)) s) (w\<lparr>draws := Suc (draws w)\<rparr>)) \<Longrightarrow>
     runs (encrypt E s) w S F"
  "(\<And>e. decrypted E c = Inl e \<Longrightarrow> F e w) \<Longrightarrow>
   (\<And>s. decrypted E c = Inr s \<Longrightarrow> S s w) \<Longrightarrow> runs (decrypt E c) w S F"
  unfolding encrypt_def decrypt_lift by (intro runs_intros; simp)+

lemma runs_enabled_record:
  assumes "unique_keys (db w)"
    and "\<And>r. two_factor_of (db w) u = Some r \<Longrightarrow> tf_enabled r \<Longrightarrow> S r w"
    and "two_factor_of (db w) u = None \<or> (\<exists>r. two_factor_of (db w) u = Some r \<and> \<not> tf_enabled r) \<Longrightarrow>
      F (err ConflictError ''Two-factor authentication is not enabled.'') w"
  shows "runs (enabled_record u) w S F"
  unfolding enabled_record_def
  by (intro runs_intros runs_get_two_factor assms(1)) (auto intro!: runs_intros assms(2,3))

lemma replay_ttl_pos: "sane c \<Longrightarrow> 0 < replay_ttl c"
  using saneD(5) [of c] by (simp add: replay_ttl_def OTP_STEP_SECONDS_def)

context redis_env
begin

abbreviation lock_keys :: "string \<Rightarrow> string option \<Rightarrow> string set" where
  "lock_keys i ip \<equiv> {failcount_key i ip, lockout_key i ip}"

lemma runs_record_failure_only:
  "(\<And>w'. but_redis w w' \<Longrightarrow> redis_only val (lock_keys i ip) w w' \<Longrightarrow> S () w') \<Longrightarrow>
     runs (record_failure E i ip) w S F"
  by (rule runs_mono [OF runs_conj [OF runs_within [OF rate_limit_only(3) [of i ip "lock_keys i ip"]]
        runs_record_failure [where S = "\<lambda>_. but_redis w" and F = "\<lambda>_ _. False"]]]) auto

lemma runs_clear_failures_only:
  assumes "\<And>w'. but_redis w w' \<Longrightarrow> redis_only val (lock_keys i ip) w w' \<Longrightarrow>
      (up (redis w) \<Longrightarrow> up (redis w')) \<Longrightarrow> S () w'"
  shows "runs (clear_failures E i ip) w S F"
proof -
  have up: "runs (clear_failures E i ip) w (\<lambda>_ w'. up (redis w) \<longrightarrow> up (redis w')) (\<lambda>_ w'. up (redis w) \<longrightarrow> up (redis w'))"
    unfolding clear_failures_def by (intro runs_intros runs_redis_delete) (auto intro!: runs_intros)
  show ?thesis
    by (rule runs_mono [OF runs_conj [OF up runs_conj [OF runs_within [OF rate_limit_only(4) [of i ip "lock_keys i ip"]]
        runs_clear_failures [where S = "\<lambda>_. but_redis w" and F = "\<lambda>_ _. False"]]]]) (auto intro: assms)
qed

lemma runs_verify_totp:
  fixes user otp w
  assumes up: "up (redis w)" and unique: "unique_keys (db w)" and sane: "sane (cfg E)"
  defines "v \<equiv> totp_verdict E (seen w (lockout_key (lock_id user) None) \<noteq> None)
      (seen w (otp_used_key (u_id user) otp) \<noteq> None) (two_factor_of (db w) user) (clock w) otp"
    and "k \<equiv> otp_used_key (u_id user) otp"
  shows "runs (verify_totp E user otp) w
    (\<lambda>_ w'. v = Inr () \<and> but_redis w w' \<and> up (redis w') \<and> (\<forall>t \<ge> clock w. val (redis w') t k =
       (if t < clock w + seconds (replay_ttl (cfg E)) then Some (Text ''1'') else None)))
    (\<lambda>e w'. v = Inl e \<and> but_redis w w' \<and> (\<forall>t \<ge> clock w. val (redis w') t k = val (redis w) t k))"
  unfolding verify_totp_def Let_def
  apply (intro runs_intros runs_ensure_not_locked runs_enabled_record runs_redis_exists
      runs_record_failure_only runs_clear_failures_only runs_redis_set replay_ttl_pos sane)
  using up unique
  apply (auto simp: v_def k_def totp_verdict_def redis_upd_fields redis_upd_val redis_onlyD)
  apply ((drule but_redis_upd)+, meson but_redis_trans)+
  done

end

section \<open>Guessing one-time passwords\<close>

definition otp_attack ::
    "'r env \<Rightarrow> user_row \<Rightarrow> ('r world \<Rightarrow> string) \<Rightarrow> time list \<Rightarrow> 'r world \<Rightarrow> 'r world" where
  "otp_attack E user guess ds w = repeated (\<lambda>w. snd (verify_totp E user (guess w) w)) ds w"

definition otp_guesses_wrong ::
    "'r env \<Rightarrow> user_row \<Rightarrow> ('r world \<Rightarrow> string) \<Rightarrow> database \<Rightarrow> 'r world \<Rightarrow> bool" where
  "otp_guesses_wrong E user guess d w \<longleftrightarrow> db w = d \<and> unique_keys d \<and>
     (\<exists>r secret. two_factor_of d user = Some r \<and> tf_enabled r \<and>
        decrypted E (tf_encrypted_secret r) = Inr secret \<and>
        (\<forall>t v. \<not> otp_valid E t secret (guess v)))"

lemma runs_record_failure_exact:
  "S () (snd (record_failure E i ip w)) \<Longrightarrow> runs (record_failure E i ip) w S F"
  using record_failure_total [of E i ip w] by (auto simp: runs_def)

lemma verify_totp_db: "db (snd (verify_totp E u otp w)) = db w"
  using same_tables.verify_totp [of E u otp] by (cases "verify_totp E u otp w") (auto dest: withinD)

context redis_env
begin

lemma otp_refused:
  assumes up: "up (redis w)" and free: "seen w (lockout_key (lock_id user) None) = None"
    and J: "otp_guesses_wrong E user guess d w"
  shows "\<exists>w1. redis_upd val (\<lambda>t f. f) w w1 \<and> up (redis w1) \<and>
    snd (verify_totp E user (guess w) w) = snd (record_failure E (lock_id user) None w1)"
proof -
  let ?Q = "\<lambda>w2. \<exists>w1. redis_upd val (\<lambda>t f. f) w w1 \<and> up (redis w1) \<and> w2 = snd (record_failure E (lock_id user) None w1)"
  have "runs (verify_totp E user (guess w)) w (\<lambda>_. ?Q) (\<lambda>_. ?Q)"
    unfolding verify_totp_def Let_def
    apply (intro runs_intros runs_ensure_not_locked runs_enabled_record runs_redis_exists
        runs_record_failure_exact)
    using up free J
    apply (auto simp: otp_guesses_wrong_def redis_upd_fields)
    apply (rule exI, rule conjI, erule (1) redis_read_trans, simp)+
    done
  from runs_stateD [OF this] show ?thesis .
qed

end

sublocale redis_env \<subseteq> otp_guessing: counted_failure E val up "\<lambda>w. snd (verify_totp E user (guess w) w)"
    "lock_id user" None "otp_guesses_wrong E user guess d"
  for user guess d
proof unfold_locales
  fix w c e
  assume J: "otp_guesses_wrong E user guess d w" and g: "guarded w (lock_id user) None c e"
    and rest: "sane (cfg E)" "0 \<le> c" "c = 0 \<or> before (clock w) e"
  from g have "up (redis w)" "seen w (lockout_key (lock_id user) None) = None"
    by (auto simp: guarded_def lock_at_def)
  from otp_refused [OF this J] obtain w1 where w1: "redis_upd val (\<lambda>t f. f) w w1" "up (redis w1)"
    and eq: "snd (verify_totp E user (guess w) w) = snd (record_failure E (lock_id user) None w1)"
    by blast
  show "clock (snd (verify_totp E user (guess w) w)) = clock w \<and> up (redis (snd (verify_totp E user (guess w) w))) \<and>
      (if MAX_FAILED_LOGINS (cfg E) \<le> c + 1
       then lock_at val (snd (verify_totp E user (guess w) w)) (lockout_key (lock_id user) None)
         (Some (clock w + seconds (LOCKOUT_SECONDS (cfg E))))
       else guarded (snd (verify_totp E user (guess w) w)) (lock_id user) None (c + 1)
         (if c = 0 then Some (clock w + seconds (LOCKOUT_SECONDS (cfg E))) else e))"
    unfolding eq by (rule failure_step_after [OF g rest w1 refl])
qed (auto simp: otp_guesses_wrong_def verify_totp_db)

context redis_env
begin

lemmas otp_guessing_locks_check = otp_guessing.locks_check
lemmas otp_guessing_J_repeated = otp_guessing.J_repeated

end

section \<open>Recovery codes, step by step\<close>

text \<open>The unused codes of a user.\<close>

definition unused_codes :: "database \<Rightarrow> user_row \<Rightarrow> backup_code_row list" where
  "unused_codes d user = filter (\<lambda>c. bc_user_id c = u_id user \<and> bc_used_at c = None) (backup_codes d)"

lemma runs_list_unused [runs_intros]: "S (unused_codes (db w) u) w \<Longrightarrow> runs (list_unused (u_id u)) w S F"
  unfolding list_unused_def unused_codes_def by (rule runs_db_query)

lemma runs_match_code [runs_intros]:
  assumes "\<And>c. c \<in> set rs \<Longrightarrow> pwd_verify E x (bc_hashed_code c) = Some True \<Longrightarrow> S (Some c) w"
    and "(\<And>c. c \<in> set rs \<Longrightarrow> pwd_verify E x (bc_hashed_code c) = Some False) \<Longrightarrow> S None w"
    and "\<And>c. c \<in> set rs \<Longrightarrow> pwd_verify E x (bc_hashed_code c) = None \<Longrightarrow> F ValueError w"
  shows "runs (match_code E x rs) w S F"
  using assms
proof (induction E x rs rule: match_code.induct)
  case (2 E x c rs)
  have "runs (match_code E x rs) w S F" if "pwd_verify E x (bc_hashed_code c) = Some False"
    by (rule 2(1)) (use that 2(2-4) in auto)
  with 2(2-4) show ?case
    by (auto simp del: ret_run simp: list.set_intros intro!: runs_intros runs_verify_password)
qed (auto simp del: ret_run intro!: runs_intros)

lemma unused_codes_spent:
  fixes t
  assumes "c \<in> set (unused_codes d user)" and "unique_keys d"
  defines "f \<equiv> \<lambda>c. c\<lparr>bc_used_at := Some t\<rparr>"
  shows "unused_codes (backup_codes_update (update_where (\<lambda>x. bc_id x = bc_id c) f) d) v =
    (if u_id v = u_id user then remove1 c (unused_codes d v) else unused_codes d v)"
proof -
  let ?q = "\<lambda>c. bc_user_id c = u_id v \<and> bc_used_at c = None"
  have c: "c \<in> set (backup_codes d)" "bc_user_id c = u_id user" "bc_used_at c = None"
    and d: "distinct (List.map bc_id (backup_codes d))"
    using assms by (auto simp: unused_codes_def unique_keys_def)
  show ?thesis
  proof (cases "u_id v = u_id user")
    case True
    then show ?thesis
      using filter_update_where_out [OF d c(1), of ?q f] c by (simp add: unused_codes_def f_def)
  next
    case False
    have same: "x = c" if "x \<in> set (backup_codes d)" "bc_id x = bc_id c" for x
      using d that c(1) by (metis distinct_map inj_onD)
    have "filter ?q (update_where (\<lambda>x. bc_id x = bc_id c) f rows) = filter ?q rows"
      if "set rows \<subseteq> set (backup_codes d)" for rows
      using that
    proof (induction rows)
      case (Cons x xs)
      then show ?case using same [of x] False c(2) by (auto simp: f_def)
    qed simp
    with False show ?thesis by (simp add: unused_codes_def)
  qed
qed

lemma runs_consume_recovery_code:
  assumes unique: "unique_keys (db w)"
  shows "runs (consume_recovery_code E user code) w
    (\<lambda>_ w'. \<exists>c \<in> set (unused_codes (db w) user).
       pwd_verify E (upper (strip code)) (bc_hashed_code c) = Some True \<and>
       (\<forall>v. unused_codes (db w') v =
          (if u_id v = u_id user then remove1 c (unused_codes (db w) v) else unused_codes (db w) v)))
    (\<lambda>_ w'. db w' = db w)"
  unfolding consume_recovery_code_def
  by (rule runs_seq [OF runs_redis_local [OF redis_local_rate_limit(2),
          where S = "\<lambda>_. but_redis w" and F = "\<lambda>_. but_redis w"]],
      assumption, assumption, drule but_redis_fields,
      intro runs_intros runs_clear_failures runs_record_failure)
     (auto simp: unused_codes_spent [OF _ unique] but_redis_fields)

text \<open>What is relied on of the random source and of passlib.\<close>

definition rand_sound :: "'r env \<Rightarrow> bool" where
  "rand_sound E \<longleftrightarrow> (\<forall>k n. 0 < k \<longrightarrow> rand_below E k n < k)"

definition pwd_sound :: "'r env \<Rightarrow> bool" where
  "pwd_sound E \<longleftrightarrow> (\<forall>n p. pwd_verify E p (pwd_hash E n p) = Some True) \<and>
     (\<forall>n p q. pwd_verify E p (pwd_hash E n q) \<noteq> None)"

text \<open>A code as it is shown: nothing that stripping or upper case would change.\<close>

definition code_char :: "char \<Rightarrow> bool" where
  "code_char c \<longleftrightarrow> \<not> is_space c \<and> upper_char c = c"

lemma CODE_ALPHABET_chars: "list_all code_char CODE_ALPHABET" "length CODE_ALPHABET = 32"
  by code_simp+

lemma code_typed:
  assumes "list_all code_char c"
  shows "upper (strip c) = c"
proof -
  have strip: "lstrip c = c" "list_all code_char (rev c)"
    using assms by (cases c; auto simp: lstrip_def code_char_def list_all_iff)+
  then have "strip c = c"
    by (cases "rev c") (auto simp: strip_def lstrip_def code_char_def dest: arg_cong [where f = rev])
  moreover have "upper c = c"
    using assms by (induction c) (auto simp: upper_def code_char_def)
  ultimately show ?thesis by simp
qed

lemma draws_self [intro]: "\<exists>n. w = w\<lparr>draws := n\<rparr>"
  by (rule exI [of _ "draws w"]) simp

lemma runs_draw_chars:
  assumes "rand_sound E"
  shows "runs (draw_chars E k) w (\<lambda>cs w'. length cs = k \<and> list_all code_char cs \<and> (\<exists>n. w' = w\<lparr>draws := n\<rparr>)) (\<lambda>_ _. False)"
proof (induction k arbitrary: w)
  case 0
  show ?case by (auto simp: runs_def)
next
  case (Suc k)
  have "code_char (CODE_ALPHABET ! i)" if "i < 32" for i
    using CODE_ALPHABET_chars that by (simp add: list_all_length)
  moreover have "rand_below E (length CODE_ALPHABET) n < 32" for n
    using assms CODE_ALPHABET_chars by (simp add: rand_sound_def)
  ultimately show ?case
    by (auto simp del: ret_run intro!: runs_intros runs_mono [OF Suc.IH])
qed

lemma runs_generate_code:
  assumes "rand_sound E"
  shows "runs (generate_code E) w (\<lambda>c w'. list_all code_char c \<and> (\<exists>n. w' = w\<lparr>draws := n\<rparr>)) (\<lambda>_ _. False)"
proof -
  have part: "list_all code_char (take n c)" "list_all code_char (drop n c)" if "list_all code_char c" for n c
    using that by (auto simp: list_all_iff dest: in_set_takeD in_set_dropD)
  have "code_char (CHR ''-'')" by code_simp
  then show ?thesis
    unfolding generate_code_def
    by (intro runs_seq [OF runs_draw_chars [OF assms]]) (auto simp: runs_def part)
qed

lemma runs_generate_codes:
  assumes "rand_sound E"
  shows "runs (generate_codes E k) w
    (\<lambda>cs w'. length cs = k \<and> (\<forall>c \<in> set cs. list_all code_char c) \<and> (\<exists>n. w' = w\<lparr>draws := n\<rparr>)) (\<lambda>_ _. False)"
proof (induction k arbitrary: w)
  case 0
  show ?case by (auto simp: runs_def)
next
  case (Suc k)
  show ?case
    unfolding generate_codes.simps
    by (rule runs_seq [OF runs_generate_code [OF assms]], rule runs_seq [OF Suc.IH]) (auto simp: runs_def)
qed

text \<open>The rows that hold the hashes of the codes.\<close>

definition codes_of :: "'r env \<Rightarrow> user_row \<Rightarrow> string list \<Rightarrow> backup_code_row list \<Rightarrow> bool" where
  "codes_of E user = list_all2 (\<lambda>c r. bc_user_id r = u_id user \<and> bc_used_at r = None \<and>
     (\<exists>n. bc_hashed_code r = pwd_hash E n c))"

lemma runs_store_codes:
  "runs (for_each (store_code E user) cs) w
     (\<lambda>_ w'. clock w' = clock w \<and> redis w' = redis w \<and>
        (\<exists>rows. codes_of E user cs rows \<and> db w' = backup_codes_update (\<lambda>rs. rs @ rows) (db w)))
     (\<lambda>_ _. True)"
proof (induction cs arbitrary: w)
  case Nil
  have "db w = backup_codes_update (\<lambda>rs. rs @ []) (db w)" by simp
  then show ?case by (auto simp: runs_def codes_of_def)
next
  case (Cons c cs)
  have "runs (store_code E user c) w
      (\<lambda>_ w'. clock w' = clock w \<and> redis w' = redis w \<and>
        (\<exists>r. codes_of E user [c] [r] \<and> db w' = backup_codes_update (\<lambda>rs. rs @ [r]) (db w))) (\<lambda>_ _. True)"
    unfolding store_code_def add_backup_code_def
    by (intro runs_intros runs_insert_row TrueI) (auto simp: codes_of_def intro!: exI)
  then have "runs (bnd (store_code E user c) (\<lambda>_. for_each (store_code E user) cs)) w
      (\<lambda>_ w'. clock w' = clock w \<and> redis w' = redis w \<and>
        (\<exists>rows. codes_of E user (c # cs) rows \<and> db w' = backup_codes_update (\<lambda>rs. rs @ rows) (db w))) (\<lambda>_ _. True)"
  proof (rule runs_seq, goal_cases)
    case (1 x w1)
    then obtain r where r: "codes_of E user [c] [r]" "db w1 = backup_codes_update (\<lambda>rs. rs @ [r]) (db w)"
      and w1: "clock w1 = clock w" "redis w1 = redis w" by auto
    have "\<exists>rows. codes_of E user (c # cs) rows \<and> backup_codes_update (\<lambda>rs. rs @ rs') (db w1) =
        backup_codes_update (\<lambda>rs. rs @ rows) (db w)" if "codes_of E user cs rs'" for rs'
      using that r by (intro exI [of _ "r # rs'"]) (auto simp: codes_of_def o_def)
    then show ?case
      by (rule_tac runs_mono [OF Cons.IH]) (auto simp: w1)
  qed
  then show ?case by (simp add: runs_def)
qed

lemma runs_generate_recovery_codes:
  assumes "rand_sound E" and "0 \<le> BACKUP_CODE_COUNT (cfg E)"
  shows "runs (generate_recovery_codes E user True) w
    (\<lambda>cs w'. clock w' = clock w \<and> redis w' = redis w \<and> int (length cs) = BACKUP_CODE_COUNT (cfg E) \<and>
       (\<forall>c \<in> set cs. list_all code_char c) \<and> codes_of E user cs (unused_codes (db w') user))
    (\<lambda>_ _. True)"
proof -
  have unused: "unused_codes (backup_codes_update
      ((\<lambda>rs. rs @ rows) \<circ> delete_where (\<lambda>x. bc_user_id x = u_id user)) d) user = rows"
    if "codes_of E user cs rows" for cs rows d
  proof -
    have "\<forall>r \<in> set rows. bc_user_id r = u_id user \<and> bc_used_at r = None"
      using that by (auto simp: codes_of_def list_all2_conv_all_nth in_set_conv_nth)
    then show ?thesis by (auto simp: unused_codes_def delete_where_def filter_empty_conv)
  qed
  show ?thesis
    unfolding generate_recovery_codes_def count_unused_def
    apply (intro runs_intros runs_mono [OF runs_generate_codes [OF assms(1)]] TrueI)
     apply (auto simp: unused assms(2) intro!: runs_intros runs_mono [OF runs_store_codes])
    done
qed

text \<open>The first part of a setup.\<close>

lemma runs_start_setup:
  assumes "unique_keys (db w)" and "fernet_sound E"
  shows "runs (start_setup E user pw) w
    (\<lambda>(secret, uri) w'. clock w' = clock w \<and> (\<exists>r. two_factor_of (db w') user = Some r \<and> \<not> tf_enabled r \<and>
       decrypted E (tf_encrypted_secret r) = Inr secret))
    (\<lambda>_ _. True)"
  unfolding start_setup_def require_password_def add_two_factor_def
  apply (intro runs_intros runs_verify_password runs_get_two_factor assms(1) runs_insert_row TrueI)
  using assms(2)
  apply (auto simp: decrypted_encrypted two_factor_of_def find_append find_update_where intro!: runs_intros)
  done

section \<open>A user with a second factor\<close>

definition sample_two_factor :: two_factor_row where
  "sample_two_factor = \<lparr>tf_id = 11, tf_user_id = 7,
     tf_encrypted_secret = fernet_encrypt sample_env 0 (ENCRYPTION_KEY default_settings) ''SECRET'',
     tf_enabled = True, tf_verified_at = Some 0\<rparr>"

definition sample_code :: backup_code_row where
  "sample_code = \<lparr>bc_id = 21, bc_user_id = 7, bc_hashed_code = ''argon2:ABCD-EFGH'',
     bc_used_at = None, bc_created_at = 0\<rparr>"

definition sample_2fa :: "ref_store world" where
  "sample_2fa = sample_world\<lparr>db := sample_db\<lparr>two_factors := [sample_two_factor], backup_codes := [sample_code]\<rparr>\<rparr>"

lemma sample_2fa_simps [simp]:
  "clock sample_2fa = days 20000" "redis sample_2fa = empty_store" "unique_keys (db sample_2fa)"
  "two_factor_of (db sample_2fa) sample_user = Some sample_two_factor" "tf_enabled sample_two_factor"
  "decrypted sample_env (tf_encrypted_secret sample_two_factor) = Inr ''SECRET''"
  "unused_codes (db sample_2fa) sample_user = [sample_code]" "bc_hashed_code sample_code = ''argon2:ABCD-EFGH''"
  using decrypted_encrypted(2) [OF fernet_sound_sample, of 0 "''SECRET''"]
  by (simp_all add: sample_2fa_def sample_db_def empty_db_def unique_keys_def two_factor_of_def
      sample_two_factor_def fernet_sound_def unused_codes_def sample_code_def)

lemma length_six_digits [simp]: "length (six_digits k n) = k"
  by (induction k arbitrary: n) auto

lemma otp_valid_sample [simp]: "otp_valid sample_env t secret otp = sample_totp_verify t secret otp 1"
  by (simp add: otp_valid_def)

lemma sample_otps [simp]:
  "sample_totp_verify (days 20000) secret ''600000'' 1"
  "sample_totp_verify (days 20000 + seconds 30000000) secret ''600000'' 1"
  by code_simp+

lemma short_otp [simp]: "length otp \<noteq> 6 \<Longrightarrow> \<not> sample_totp_verify t secret otp n"
  by (auto simp: sample_totp_verify_def list_ex_iff)

section \<open>What the second factor promises\<close>

lemma unlocked_rest:
  assumes "ensure_not_locked E i ip w = (Inr (), w1)" and "\<And>x. raises_only (\<lambda>e. e \<noteq> err0 AccountLocked) (f x)"
  shows "fst (bnd (ensure_not_locked E i ip) f w) \<noteq> Inl (err0 AccountLocked)"
  using assms by (cases "f () w1") (auto simp: bnd_def dest: raises_onlyD)

lemma raises_only_match_code [raises_intros]: "S ValueError \<Longrightarrow> raises_only S (match_code E x rs)"
  by (induction E x rs rule: match_code.induct) (auto simp del: ret_run intro!: raises_intros)

lemma totp_outcome:
  assumes "redis_env E val up" and "up (redis w)" and "unique_keys (db w)" and "sane (cfg E)"
  shows "fst (verify_totp E user otp w) =
    totp_verdict E (val (redis w) (clock w) (lockout_key (lock_id user) None) \<noteq> None)
      (val (redis w) (clock w) (otp_used_key (u_id user) otp) \<noteq> None) (two_factor_of (db w) user) (clock w) otp"
  using redis_env.runs_verify_totp [OF assms, of user otp]
  by (auto simp: runs_def split: prod.splits sum.splits)

lemma totp_verdict_Inr:
  "totp_verdict E locked used r t otp = Inr () \<longleftrightarrow> \<not> locked \<and> \<not> used \<and> (\<exists>x secret. r = Some x \<and> tf_enabled x \<and>
     decrypted E (tf_encrypted_secret x) = Inr secret \<and> otp_valid E t secret otp)"
  by (auto simp: totp_verdict_def split: option.splits sum.splits)

text \<open>
  C23. No replay of one-time passwords: if the same digits are accepted twice for a user, however much
  later, then they are the code of two different time steps: a code that is used once is never
  accepted again for the step it belongs to. (The memory in Redis outlives the window in which
  the code of one step is valid, on either side.)
\<close>

theorem totp_replay_needs_collision:
  assumes "redis_env E val up" and "up (redis w)" and "unique_keys (db w)" and "sane (cfg E)"
    and totp: "\<forall>t s x. otp_valid E t s x \<longleftrightarrow> (\<exists>i. \<bar>i\<bar> \<le> TOTP_VALID_WINDOW (cfg E) \<and>
       x = code s (t div seconds OTP_STEP_SECONDS + i))"
    and "verify_totp E user otp w = (Inr (), w1)"
    and "clock w \<le> clock v" and "up (redis v)" and "unique_keys (db v)"
    and "two_factor_of (db v) user = two_factor_of (db w) user"
    and "val (redis v) (clock v) (otp_used_key (u_id user) otp) =
       val (redis w1) (clock v) (otp_used_key (u_id user) otp)"
    and "verify_totp E user otp v = (Inr (), v1)"
  shows "\<exists>secret n m. n < m \<and> code secret n = otp \<and> code secret m = otp"
proof -
  let ?k = "otp_used_key (u_id user) otp" and ?S = "seconds OTP_STEP_SECONDS"
    and ?W = "TOTP_VALID_WINDOW (cfg E)"
  from runs_InrD [OF redis_env.runs_verify_totp [OF assms(1-4), of user otp] assms(6)]
  obtain r s where r: "two_factor_of (db w) user = Some r"
      "decrypted E (tf_encrypted_secret r) = Inr s" "otp_valid E (clock w) s otp"
    and used: "\<forall>t \<ge> clock w. val (redis w1) t ?k =
       (if t < clock w + seconds (replay_ttl (cfg E)) then Some (Text ''1'') else None)"
    by (auto simp: totp_verdict_Inr)
  from runs_InrD [OF redis_env.runs_verify_totp [OF assms(1,8,9,4), of user otp] assms(12)] r assms(10)
  have again: "val (redis v) (clock v) ?k = None" "otp_valid E (clock v) s otp"
    by (auto simp: totp_verdict_Inr)
  from r(3) again(2) totp obtain i j where i: "\<bar>i\<bar> \<le> ?W" "otp = code s (clock w div ?S + i)"
    and j: "\<bar>j\<bar> \<le> ?W" "otp = code s (clock v div ?S + j)"
    by blast
  have "clock w + ?S * (2 * ?W + 1) \<le> clock v"
    using used again(1) assms(7,11)
    by (auto simp: replay_ttl_def seconds_def algebra_simps split: if_splits)
  then have "(clock w + ?S * (2 * ?W + 1)) div ?S \<le> clock v div ?S"
    by (intro zdiv_mono1) (simp_all add: seconds_def OTP_STEP_SECONDS_def)
  then have "clock w div ?S + (2 * ?W + 1) \<le> clock v div ?S"
    by (simp add: seconds_def OTP_STEP_SECONDS_def)
  with i j have "clock w div ?S + i < clock v div ?S + j" by linarith
  with i j show ?thesis by metis
qed

theorem totp_replay_needs_collision_witness:
  "\<exists>n m. n < m \<and> six_digits 6 n = ''600000'' \<and> six_digits 6 m = ''600000''"
proof -
  let ?k = "otp_used_key (u_id sample_user) ''600000''"
  have "fst (verify_totp sample_env sample_user ''600000'' sample_2fa) = Inr ()"
    by (subst totp_outcome [OF sample.redis_env_axioms]) (simp_all add: totp_verdict_Inr)
  then obtain w1 where run1: "verify_totp sample_env sample_user ''600000'' sample_2fa = (Inr (), w1)"
    by (cases "verify_totp sample_env sample_user ''600000'' sample_2fa") auto
  from runs_InrD [OF sample.runs_verify_totp run1]
  have used: "\<forall>t \<ge> days 20000. ref_val (redis w1) t ?k = (if t < days 20000 + seconds 90 then Some (Text ''1'') else None)"
    by (simp_all add: replay_ttl_def OTP_STEP_SECONDS_def)
  let ?v = "tick (seconds 30000000) sample_2fa"
  have "fst (verify_totp sample_env sample_user ''600000'' ?v) = Inr ()"
    by (subst totp_outcome [OF sample.redis_env_axioms]) (simp_all add: totp_verdict_Inr)
  then obtain v1 where run2: "verify_totp sample_env sample_user ''600000'' ?v = (Inr (), v1)"
    by (cases "verify_totp sample_env sample_user ''600000'' ?v") auto
  have "otp_valid sample_env t s x \<longleftrightarrow> (\<exists>i. \<bar>i\<bar> \<le> TOTP_VALID_WINDOW (cfg sample_env) \<and>
      x = six_digits 6 (t div seconds OTP_STEP_SECONDS + i))" for t s x
    by (auto simp: sample_totp_verify_def list_ex_iff OTP_STEP_SECONDS_def abs_le_iff)
  from totp_replay_needs_collision [OF sample.redis_env_axioms _ _ _ _ run1 _ _ _ _ _ run2,
      of "\<lambda>s. six_digits 6"] this used
  show ?thesis by (auto simp: seconds_def)
qed



text \<open>
  C24. A recovery code is used once: a code is accepted only if the hash of one of the user's unused
  codes verifies it, and then exactly this code is no longer among the unused ones; the codes of
  other users stay, and a refused code changes no table.
\<close>

theorem recovery_code_used_once:
  assumes "unique_keys (db w)"
  shows "case consume_recovery_code E user code w of
      (Inr _, w') \<Rightarrow> \<exists>c. c \<in> set (unused_codes (db w) user) \<and>
         pwd_verify E (upper (strip code)) (bc_hashed_code c) = Some True \<and>
         (\<forall>v. unused_codes (db w') v =
            (if u_id v = u_id user then remove1 c (unused_codes (db w) v) else unused_codes (db w) v))
    | (Inl _, w') \<Rightarrow> db w' = db w"
  using runs_consume_recovery_code [OF assms, of E user code]
  by (auto simp: runs_def split: prod.splits sum.splits)

theorem recovery_code_used_once_witness:
  "unused_codes (db (snd (consume_recovery_code sample_env sample_user '' abcd-efgh'' sample_2fa))) sample_user = []"
proof -
  have code: "upper (strip '' abcd-efgh'') = ''ABCD-EFGH''" by code_simp
  have "runs (consume_recovery_code sample_env sample_user '' abcd-efgh'') sample_2fa (\<lambda>_ _. True) (\<lambda>_ _. False)"
    unfolding consume_recovery_code_def code
    by (intro runs_intros sample.runs_ensure_not_locked runs_clear_failures runs_record_failure)
       (auto simp: redis_upd_fields)
  from runs_returnsD [OF this] obtain w'
    where "consume_recovery_code sample_env sample_user '' abcd-efgh'' sample_2fa = (Inr (), w')" by auto
  with recovery_code_used_once [of sample_2fa, where E = sample_env and user = sample_user and code = "'' abcd-efgh''"] show ?thesis
    by (simp add: code)
qed

text \<open>
  C25. Issued recovery codes work: after generating (or regenerating) the codes of a user there are
  exactly \<open>BACKUP_CODE_COUNT\<close> unused ones, stored as hashes of the codes shown, and each code shown
  is accepted, also when typed in lower case or with spaces around it. Earlier codes are gone.
\<close>

theorem issued_codes_work:
  assumes "redis_env E val up" and "up (redis w)" and "rand_sound E" and "pwd_sound E" and "sane (cfg E)"
    and "val (redis w) (clock w) (lockout_key (lock_id user) None) = None"
    and "generate_recovery_codes E user True w = (Inr codes, w')"
  shows "int (length codes) = BACKUP_CODE_COUNT (cfg E) \<and>
    codes_of E user codes (unused_codes (db w') user) \<and>
    (\<forall>typed. (typed \<in> set codes \<or> upper (strip typed) \<in> set codes) \<longrightarrow>
       fst (consume_recovery_code E user typed w') = Inr ())"
proof -
  from runs_InrD [OF runs_generate_recovery_codes [OF assms(3)] assms(7)] saneD(15) [OF assms(5)]
  have w': "clock w' = clock w" "redis w' = redis w" and len: "int (length codes) = BACKUP_CODE_COUNT (cfg E)"
    and chars: "\<forall>c \<in> set codes. list_all code_char c" and rows: "codes_of E user codes (unused_codes (db w') user)"
    by auto
  have accept: "fst (consume_recovery_code E user typed w') = Inr ()" if "upper (strip typed) \<in> set codes" for typed
  proof -
    have read: "pwd_verify E x (bc_hashed_code r) \<noteq> None" if "r \<in> set (unused_codes (db w') user)" for x r
      using rows that assms(4) by (auto simp: codes_of_def list_all2_conv_all_nth in_set_conv_nth pwd_sound_def)
    from that obtain i where i: "i < length codes" "codes ! i = upper (strip typed)"
      by (auto simp: in_set_conv_nth)
    let ?r = "unused_codes (db w') user ! i"
    have "?r \<in> set (unused_codes (db w') user)"
      using rows i(1) by (simp add: codes_of_def list_all2_lengthD [symmetric])
    moreover have "pwd_verify E (upper (strip typed)) (bc_hashed_code ?r) = Some True"
      using list_all2_nthD [OF rows [unfolded codes_of_def] i(1)] i(2) assms(4) by (auto simp: pwd_sound_def)
    ultimately have r: "\<exists>r \<in> set (unused_codes (db w') user).
        pwd_verify E (upper (strip typed)) (bc_hashed_code r) = Some True" by blast
    have "runs (consume_recovery_code E user typed) w' (\<lambda>_ _. True) (\<lambda>_ _. False)"
      unfolding consume_recovery_code_def
      by (intro runs_intros redis_env.runs_ensure_not_locked [OF assms(1)] runs_clear_failures runs_record_failure)
         (use assms(2,6) w' read r in \<open>fastforce simp: redis_upd_fields\<close>)+
    from runs_returnsD [OF this] show ?thesis by auto
  qed
  then have "fst (consume_recovery_code E user typed w') = Inr ()" if "typed \<in> set codes" for typed
    using that chars code_typed [of typed] by simp
  with len rows accept show ?thesis by blast
qed

theorem issued_codes_work_witness:
  "\<exists>c w'. generate_recovery_codes (sample_env\<lparr>cfg := default_settings\<lparr>BACKUP_CODE_COUNT := 1\<rparr>\<rparr>)
       sample_user True sample_world = (Inr [c], w') \<and>
     fst (consume_recovery_code (sample_env\<lparr>cfg := default_settings\<lparr>BACKUP_CODE_COUNT := 1\<rparr>\<rparr>) sample_user c w') = Inr ()"
  (is "\<exists>c w'. generate_recovery_codes ?E sample_user True sample_world = (Inr [c], w') \<and> _")
proof -
  have env: "redis_env ?E ref_val (\<lambda>s. faults s = [])"
    using ref_env.redis_env_axioms [of ?E] by (simp add: sample_env_def)
  have laws: "rand_sound ?E" "pwd_sound ?E" "sane (cfg ?E)" "unused_codes sample_db sample_user = []"
    by (simp_all add: rand_sound_def pwd_sound_def sane_def sample_env_def unused_codes_def sample_db_def empty_db_def)
  have "runs (generate_recovery_codes ?E sample_user True) sample_world (\<lambda>_ _. True) (\<lambda>_ _. False)"
    unfolding generate_recovery_codes_def count_unused_def
    by (intro runs_intros runs_mono [OF runs_generate_codes [OF laws(1)]])
       (auto simp: numeral_2_eq_2 length_Suc_conv runs_def bnd_def store_code_def hash_password_def draw_def now_def
          add_backup_code_def insert_row_def db_query_def db_write_def sample_db_def empty_db_def flush_def
          delete_where_def)
  from runs_returnsD [OF this] obtain codes w'
    where run: "generate_recovery_codes ?E sample_user True sample_world = (Inr codes, w')" by auto
  from issued_codes_work [OF env _ laws(1-3) _ run] show ?thesis
    using run by (cases codes) auto
qed

text \<open>
  C33. The life of a setup: starting it leaves two-factor authentication off, and the pending secret
  that can be shown is the one returned; it is switched on exactly by a one-time password that is
  valid for this secret at that moment.
\<close>

theorem setup_round_trip:
  assumes "unique_keys (db w)" and "unique_keys (committed w)" and "fernet_sound E"
    and "start_setup E user pw w = (Inr (secret, uri), w')"
  shows "fst (is_enabled user w') = Inr False \<and> fst (get_pending_secret E user w') = Inr secret \<and>
    (let (r, w'') = confirm_setup E user otp (tick d w') in
       r = (if otp_valid E (clock w + d) secret otp then Inr ()
            else Inl (err AuthError ''Invalid verification code.'')) \<and>
       fst (is_enabled user w'') = Inr (otp_valid E (clock w + d) secret otp))"
proof -
  from runs_InrD [OF runs_start_setup [OF assms(1,3)] assms(4)]
  obtain r where clk: "clock w' = clock w" and r: "two_factor_of (db w') user = Some r" "\<not> tf_enabled r"
      "decrypted E (tf_encrypted_secret r) = Inr secret"
    by auto
  have unique: "unique_keys (db w')"
    using unique_tables.both_two_factor_ops(1) [of E user pw] assms(1,2,4) by (auto dest: withinD bothD)
  have unique': "unique_keys (two_factors_update (update_where (\<lambda>x. tf_id x = tf_id r)
      (\<lambda>v. v\<lparr>tf_enabled := True, tf_verified_at := Some t\<rparr>)) (db w'))" for t
    by (rule unique_tables.upd_two_factor [OF unique]) simp
  have after: "two_factor_of (two_factors_update (update_where (\<lambda>x. tf_id x = tf_id r)
      (\<lambda>v. v\<lparr>tf_enabled := True, tf_verified_at := Some t\<rparr>)) (db w')) user =
      Some (r\<lparr>tf_enabled := True, tf_verified_at := Some t\<rparr>)" for t
    using r(1) by (simp add: two_factor_of_def find_update_where)
  show ?thesis
    using r clk after two_factor_of_unique [of w' user] two_factor_of_unique [of "tick d w'" user] unique
      two_factor_of_unique [of "tick d w'\<lparr>db := two_factors_update (update_where (\<lambda>x. tf_id x = tf_id r)
      (\<lambda>v. v\<lparr>tf_enabled := True, tf_verified_at := Some (clock w + d)\<rparr>)) (db w')\<rparr>" user] unique'
    by (simp add: is_enabled_def get_pending_secret_def confirm_setup_def bnd_def decrypt_lift now_def
        write_two_factor_def db_write_def flush_def)
qed

theorem setup_round_trip_witness:
  "\<exists>secret uri w'. start_setup sample_env sample_user ''Secret-99'' sample_world = (Inr (secret, uri), w') \<and>
     fst (is_enabled sample_user (snd (confirm_setup sample_env sample_user ''600000'' w'))) = Inr True"
proof -
  have empty: "two_factors sample_db = []" by (simp add: sample_db_def empty_db_def)
  then have none: "get_two_factor 7 sample_world = (Inr None, sample_world)"
    using two_factor_of_unique [of sample_world sample_user] by (simp add: two_factor_of_def)
  have "str_nat 0 = ''0''" by code_simp
  with none empty obtain secret uri w' where run: "start_setup sample_env sample_user ''Secret-99'' sample_world = (Inr (secret, uri), w')"
    and secret: "secret = ''SECRET0''"
    by (simp add: start_setup_def require_password_def verify_password_def bnd_def draw_def encrypt_def decrypted_encrypted(1) add_two_factor_def insert_row_def
        db_query_def db_write_def flush_def)
  have "otp_valid sample_env (days 20000 + 0) ''SECRET0'' ''600000''" by simp
  with setup_round_trip [OF _ _ fernet_sound_sample run, of "''600000''" 0] run secret show ?thesis
    by (auto simp: tick_def split: prod.splits)
qed

end
