(* ===== verification/Schemas.thy ===== *)
theory Schemas
  imports Session_Service Two_Factor "HOL-Library.List_Lexorder" "HOL-Library.Char_ord"
begin

text \<open>
  \<^verbatim>\<open>app/schemas\<close>: the bodies of requests with the constraints pydantic checks, and the bodies of
  responses as JSON. A body is given with its fields present and of the right JSON type; what the
  constraints on the values refuse is answered with 422 by the handler of validation errors. The
  check of email addresses (\<open>email_validate\<close>, the address normalised) and the text of a report are
  parameters; a moment of time appears in a response as its number of microseconds.
\<close>

section \<open>Request bodies\<close>

record register_request =
  rr_email :: string
  rr_password :: string
  rr_full_name :: string

record login_request =
  lr_email :: string
  lr_password :: string
  lr_remember_me :: bool

record otp_login_request =
  ol_pre_auth_token :: string
  ol_otp :: string
  ol_remember_me :: bool

record recovery_login_request =
  rl_pre_auth_token :: string
  rl_recovery_code :: string
  rl_remember_me :: bool

record reset_password_request =
  rp_token :: string
  rp_new_password :: string

record change_email_request =
  ce_new_email :: string
  ce_password :: string

record recovery_codes_request =
  rc_password :: string
  rc_otp :: string

text \<open>\<open>Field(min_length=a, max_length=b)\<close>, \<open>pattern=r"^\d{6}$"\<close> and \<open>EmailStr\<close>.\<close>

definition length_within :: "nat \<Rightarrow> nat \<Rightarrow> string \<Rightarrow> bool" where
  "length_within a b s \<longleftrightarrow> a \<le> length s \<and> length s \<le> b"

definition six_digit :: "string \<Rightarrow> bool" where
  "six_digit s \<longleftrightarrow> length s = 6 \<and> list_all is_digit s"

definition is_email :: "'r env \<Rightarrow> string \<Rightarrow> bool" where
  "is_email E s \<longleftrightarrow> email_validate E s \<noteq> None"

definition normal_email :: "'r env \<Rightarrow> string \<Rightarrow> string" where
  "normal_email E s = (case email_validate E s of None \<Rightarrow> s | Some a \<Rightarrow> a)"

text \<open>The fields whose constraint fails are reported; the handler does not run then.\<close>

definition checked :: "'r env \<Rightarrow> (string \<times> bool) list \<Rightarrow> 'a \<Rightarrow> exn + 'a" where
  "checked E checks x =
     (case filter (\<lambda>(field, ok). \<not> ok) checks of
        [] \<Rightarrow> Inr x
      | bad \<Rightarrow> Inl (RequestValidationError (error_report E (List.map fst bad))))"

definition parse_register :: "'r env \<Rightarrow> register_request \<Rightarrow> exn + register_request" where
  "parse_register E b = checked E
     [(''email'', is_email E (rr_email b)), (''password'', length_within 8 128 (rr_password b)),
      (''full_name'', length_within 0 255 (rr_full_name b))]
     (b\<lparr>rr_email := normal_email E (rr_email b)\<rparr>)"

definition parse_login :: "'r env \<Rightarrow> login_request \<Rightarrow> exn + login_request" where
  "parse_login E b = checked E
     [(''email'', is_email E (lr_email b)), (''password'', length_within 1 128 (lr_password b))]
     (b\<lparr>lr_email := normal_email E (lr_email b)\<rparr>)"

definition parse_otp_login :: "'r env \<Rightarrow> otp_login_request \<Rightarrow> exn + otp_login_request" where
  "parse_otp_login E b = checked E [(''otp'', six_digit (ol_otp b))] b"

definition parse_recovery_login :: "'r env \<Rightarrow> recovery_login_request \<Rightarrow> exn + recovery_login_request" where
  "parse_recovery_login E b = checked E [(''recovery_code'', length_within 8 32 (rl_recovery_code b))] b"

text \<open>The bodies with one field.\<close>

definition parse_token :: "'r env \<Rightarrow> string \<Rightarrow> exn + string" where
  "parse_token E token = checked E [(''token'', length_within 16 128 token)] token"

definition parse_forgot_password :: "'r env \<Rightarrow> string \<Rightarrow> exn + string" where
  "parse_forgot_password E email = checked E [(''email'', is_email E email)] (normal_email E email)"

definition parse_password_confirm :: "'r env \<Rightarrow> string \<Rightarrow> exn + string" where
  "parse_password_confirm E password = checked E [(''password'', length_within 1 128 password)] password"

definition parse_otp_verify :: "'r env \<Rightarrow> string \<Rightarrow> exn + string" where
  "parse_otp_verify E otp = checked E [(''otp'', six_digit otp)] otp"

definition parse_reset_password :: "'r env \<Rightarrow> reset_password_request \<Rightarrow> exn + reset_password_request" where
  "parse_reset_password E b = checked E
     [(''token'', length_within 16 128 (rp_token b)), (''new_password'', length_within 8 128 (rp_new_password b))] b"

definition parse_change_email :: "'r env \<Rightarrow> change_email_request \<Rightarrow> exn + change_email_request" where
  "parse_change_email E b = checked E
     [(''new_email'', is_email E (ce_new_email b)), (''password'', length_within 1 128 (ce_password b))]
     (b\<lparr>ce_new_email := normal_email E (ce_new_email b)\<rparr>)"

text \<open>\<open>DisableRequest\<close> and \<open>RecoveryCodesRequest\<close> have the same fields and constraints.\<close>

definition parse_recovery_codes :: "'r env \<Rightarrow> recovery_codes_request \<Rightarrow> exn + recovery_codes_request" where
  "parse_recovery_codes E b = checked E
     [(''password'', length_within 1 128 (rc_password b)), (''otp'', length_within 6 10 (rc_otp b))] b"

text \<open>\<open>limit: int = Query(50, ge=1, le=200)\<close>, \<open>offset: int = Query(0, ge=0)\<close>.\<close>

definition parse_page :: "'r env \<Rightarrow> int \<times> int \<Rightarrow> exn + nat \<times> nat" where
  "parse_page E p = checked E
     [(''limit'', 1 \<le> fst p \<and> fst p \<le> 200), (''offset'', 0 \<le> snd p)] (nat (fst p), nat (snd p))"

lemma checked_Inr [simp]: "checked E checks x = Inr y \<longleftrightarrow> (\<forall>c \<in> set checks. snd c) \<and> y = x"
proof (cases "filter (\<lambda>(f, ok). \<not> ok) checks")
  case Nil
  then show ?thesis by (auto simp: checked_def filter_empty_conv)
next
  case (Cons c cs)
  then have "c \<in> set checks \<and> \<not> snd c" by (auto simp: filter_eq_Cons_iff)
  with Cons show ?thesis by (auto simp: checked_def)
qed

section \<open>Response bodies\<close>

definition message :: "string \<Rightarrow> jval" where
  "message detail = JObj [(''detail'', JStr detail)]"

definition jtime :: "time \<Rightarrow> jval" where
  "jtime t = JInt t"

definition jopt :: "('a \<Rightarrow> jval) \<Rightarrow> 'a option \<Rightarrow> jval" where
  "jopt f v = (case v of None \<Rightarrow> JNull | Some x \<Rightarrow> f x)"

text \<open>
  \<open>UserRead.from_model\<close>. The model validates what it is built from: an address that is no
  \<open>EmailStr\<close>, or a name that is too long, raises.
\<close>

definition user_read :: "'r env \<Rightarrow> database \<Rightarrow> user_row \<Rightarrow> exn + jval" where
  "user_read E d u =
     (if \<not> is_email E (u_email u) \<or> 255 < length (u_full_name u) then Inl ValueError
      else Inr (JObj
        [(''email'', JStr (normal_email E (u_email u))), (''full_name'', JStr (u_full_name u)),
         (''id'', JStr (uuid_str (u_id u))), (''is_active'', JBool (u_is_active u)),
         (''is_verified'', JBool (u_is_verified u)), (''is_superuser'', JBool (u_is_superuser u)),
         (''created_at'', jtime (u_created_at u)),
         (''roles'', JList (List.map JStr (sort (role_names d (u_id u))))),
         (''permissions'', JList (List.map JStr (sort (permission_codes d (u_id u)))))]))"

text \<open>\<open>[UserRead.from_model(u) for u in users]\<close>.\<close>

fun users_read :: "'r env \<Rightarrow> database \<Rightarrow> user_row list \<Rightarrow> exn + jval list" where
  "users_read E d [] = Inr []"
| "users_read E d (u # us) =
     (case user_read E d u of
        Inl e \<Rightarrow> Inl e
      | Inr v \<Rightarrow> (case users_read E d us of Inl e \<Rightarrow> Inl e | Inr vs \<Rightarrow> Inr (v # vs)))"

definition auth_response :: "jval \<Rightarrow> string \<Rightarrow> jval" where
  "auth_response user csrf = JObj [(''user'', user), (''csrf_token'', JStr csrf)]"

definition login_challenge :: "string \<Rightarrow> jval" where
  "login_challenge token = JObj [(''otp_required'', JBool True), (''pre_auth_token'', JStr token)]"

definition page :: "jval list \<Rightarrow> nat \<Rightarrow> nat \<Rightarrow> nat \<Rightarrow> jval" where
  "page items count limit offset = JObj [(''items'', JList items), (''total'', JInt (int count)),
     (''limit'', JInt (int limit)), (''offset'', JInt (int offset))]"

definition logout_response :: "string \<Rightarrow> nat \<Rightarrow> jval" where
  "logout_response detail revoked =
     JObj [(''detail'', JStr detail), (''revoked_sessions'', JInt (int revoked))]"

text \<open>\<open>_to_read\<close> of the session routes.\<close>

definition to_read :: "session_row \<Rightarrow> uuid \<Rightarrow> jval" where
  "to_read r current = JObj
     [(''session_id'', JStr (uuid_str (s_session_uuid r))), (''device'', JStr (s_device_name r)),
      (''device_type'', JStr (s_device_type r)), (''browser'', JStr (s_browser r)),
      (''browser_version'', JStr (s_browser_version r)), (''os'', JStr (s_operating_system r)),
      (''os_version'', JStr (s_operating_system_version r)), (''ip'', JStr (s_ip_address r)),
      (''country'', jopt JStr (s_country r)), (''city'', jopt JStr (s_city r)),
      (''login_at'', jtime (s_login_at r)), (''last_activity'', jtime (s_last_activity_at r)),
      (''current'', JBool (s_session_uuid r = current)),
      (''status'', JStr (if s_is_active r then ''active'' else ''inactive''))]"

definition last_login_read :: "session_row option \<Rightarrow> jval" where
  "last_login_read prev = JObj
     [(''previous_login_at'', jopt (\<lambda>r. jtime (s_login_at r)) prev),
      (''previous_login_ip'', jopt (\<lambda>r. JStr (s_ip_address r)) prev),
      (''previous_device'', jopt (\<lambda>r. JStr (s_device_name r)) prev),
      (''previous_browser'', jopt (\<lambda>r. JStr (s_browser r)) prev)]"

definition oauth_link_read :: "oauth_account_row \<Rightarrow> jval" where
  "oauth_link_read a = JObj [(''provider'', JStr (oa_provider a)), (''email'', jopt JStr (oa_email a)),
     (''connected_at'', jtime (oa_created_at a))]"

definition providers_response :: "string list \<Rightarrow> jval" where
  "providers_response names = JObj [(''providers'', JList (List.map JStr names))]"

definition setup_response :: "string \<Rightarrow> string \<Rightarrow> string \<Rightarrow> jval" where
  "setup_response uri qr secret =
     JObj [(''provisioning_uri'', JStr uri), (''qr_code_base64'', JStr qr), (''secret'', JStr secret)]"

definition recovery_codes_response :: "string list \<Rightarrow> jval" where
  "recovery_codes_response codes = JObj [(''recovery_codes'', JList (List.map JStr codes))]"

definition status_read :: "two_factor_status \<Rightarrow> jval" where
  "status_read s = JObj [(''enabled'', JBool (st_enabled s)), (''verified_at'', jopt jtime (st_verified_at s)),
     (''recovery_codes_remaining'', JInt (int (st_codes_remaining s)))]"

end
