(* ===== verification/Dependencies.thy ===== *)
theory Dependencies
  imports Session_Service Http
begin

text \<open>
  \<^verbatim>\<open>app/dependencies/auth.py\<close>: what the routes depend on. \<open>get_auth_context\<close> authenticates the
  access token, loads the user and validates the session the token is bound to; the guards check
  a permission, a role or the double-submit CSRF token. FastAPI resolves a dependency once per
  request, the ones of a decorator before the ones of the parameters.
\<close>

record auth_context =
  ctx_user :: user_row
  ctx_session :: "session_row option"

text \<open>\<open>uuid.UUID(v)\<close> on a text.\<close>

definition uuid_or :: "exn \<Rightarrow> string \<Rightarrow> ('w, uuid) prog" where
  "uuid_or e s = (case uuid_of_str s of None \<Rightarrow> raise e | Some i \<Rightarrow> ret i)"

text \<open>\<open>uuid.UUID(payload["sub"])\<close> with its handler of \<open>KeyError\<close> and \<open>ValueError\<close>.\<close>

definition token_subject :: "claims \<Rightarrow> ('w, uuid) prog" where
  "token_subject payload =
     try_except (bnd (lift_sum (str_claim payload ''sub'')) (uuid_or ValueError))
       (\<lambda>e. e \<in> {KeyError, ValueError}) (\<lambda>_. raise (err AuthError ''Invalid token subject.''))"

definition get_auth_context :: "'r env \<Rightarrow> request \<Rightarrow> ('r world, auth_context) prog" where
  "get_auth_context E rq =
     (let token = cookie_of rq (ACCESS_COOKIE_NAME (cfg E)) in
      if falsy token then raise (err AuthError ''Not authenticated.'')
      else
        bnd (verify_access E (the token)) (\<lambda>payload.
        bnd (token_subject payload) (\<lambda>user_id.
        bnd (get_user user_id) (\<lambda>user.
        case user of
          None \<Rightarrow> raise (err AuthError ''User no longer exists.'')
        | Some u \<Rightarrow>
            if \<not> u_is_active u then raise (err AuthError ''This account is disabled.'')
            else
              bnd (case get_claim payload ''sid'' of
                     None \<Rightarrow> ret None
                   | Some sid \<Rightarrow>
                       bnd (uuid_or ValueError sid) (\<lambda>session_uuid.
                       bnd (validate_and_touch E session_uuid (u_id u)) (\<lambda>s. ret (Some s)))) (\<lambda>active_session.
              ret \<lparr>ctx_user = u, ctx_session = active_session\<rparr>)))))"

definition get_current_user :: "'r env \<Rightarrow> request \<Rightarrow> ('r world, user_row) prog" where
  "get_current_user E rq = bnd (get_auth_context E rq) (\<lambda>ctx. ret (ctx_user ctx))"

definition get_current_session :: "auth_context \<Rightarrow> ('r world, session_row) prog" where
  "get_current_session ctx =
     (case ctx_session ctx of
        None \<Rightarrow> raise (err AuthError ''No active session for this token.'')
      | Some s \<Rightarrow> ret s)"

text \<open>The user and the session, for a route that depends on both.\<close>

definition user_and_session :: "'r env \<Rightarrow> request \<Rightarrow> ('r world, user_row \<times> session_row) prog" where
  "user_and_session E rq =
     bnd (get_auth_context E rq) (\<lambda>ctx.
     bnd (get_current_session ctx) (\<lambda>s. ret (ctx_user ctx, s)))"

definition require_permission :: "'r env \<Rightarrow> string \<Rightarrow> request \<Rightarrow> ('r world, user_row) prog" where
  "require_permission E code rq =
     bnd (get_current_user E rq) (\<lambda>user.
     bnd (db_query (\<lambda>d. has_permission d user code)) (\<lambda>ok.
     if \<not> ok then raise (err PermissionDenied (''Missing required permission: '' @ code)) else ret user))"

definition require_role :: "'r env \<Rightarrow> string \<Rightarrow> request \<Rightarrow> ('r world, user_row) prog" where
  "require_role E name rq =
     bnd (get_current_user E rq) (\<lambda>user.
     bnd (db_query (\<lambda>d. role_names d (u_id user))) (\<lambda>names.
     if \<not> u_is_superuser user \<and> name \<notin> set names
     then raise (err PermissionDenied (''Requires role: '' @ name)) else ret user))"

text \<open>
  \<open>secrets.compare_digest\<close> of two texts: it raises \<open>TypeError\<close> unless both are ASCII. Starlette decodes
  headers and cookies as Latin-1, so a client can send others.
\<close>

definition is_ascii :: "string \<Rightarrow> bool" where
  "is_ascii s = list_all (\<lambda>c. code_of c < 128) s"

definition compare_digest :: "string \<Rightarrow> string \<Rightarrow> exn + bool" where
  "compare_digest a b = (if is_ascii a \<and> is_ascii b then Inr (a = b) else Inl TypeError)"

definition verify_csrf :: "'r env \<Rightarrow> request \<Rightarrow> ('r world, unit) prog" where
  "verify_csrf E rq =
     (let cookie = cookie_of rq (CSRF_COOKIE_NAME (cfg E));
          header = header_of (rq_headers rq) (CSRF_HEADER_NAME (cfg E));
          failed = raise (err PermissionDenied ''CSRF validation failed.'') in
      if falsy cookie \<or> falsy header then failed
      else
        bnd (lift_sum (compare_digest (the cookie) (the header))) (\<lambda>same.
        if \<not> same then failed else ret ()))"

lemma verify_csrf_state: "snd (verify_csrf E rq w) = w"
  by (simp add: verify_csrf_def Let_def bnd_def compare_digest_def)

lemma verify_csrf_fails:
  assumes "\<not> (\<exists>t. t \<noteq> [] \<and> cookie_of rq (CSRF_COOKIE_NAME (cfg E)) = Some t \<and>
    header_of (rq_headers rq) (CSRF_HEADER_NAME (cfg E)) = Some t)"
  shows "\<exists>e. verify_csrf E rq w = (Inl e, w)"
  using assms
  by (cases "cookie_of rq (CSRF_COOKIE_NAME (cfg E))"; cases "header_of (rq_headers rq) (CSRF_HEADER_NAME (cfg E))")
     (auto simp: verify_csrf_def Let_def bnd_def compare_digest_def)

lemma verify_csrf_type_error:
  assumes "cookie_of rq (CSRF_COOKIE_NAME (cfg E)) = Some a" "header_of (rq_headers rq) (CSRF_HEADER_NAME (cfg E)) = Some b"
    and "a \<noteq> []" "b \<noteq> []" "\<not> (is_ascii a \<and> is_ascii b)"
  shows "verify_csrf E rq w = (Inl TypeError, w)"
  using assms by (auto simp: verify_csrf_def Let_def bnd_def compare_digest_def)

section \<open>What the dependencies touch\<close>

context frame
begin

lemma subject_ops [intro]: "within T (uuid_or e s)" "within T (token_subject p)"
  unfolding token_subject_def uuid_or_def by (intro frame_rules)+

end

context world_frame
begin

lemma pure_deps [intro]: "within T (get_current_session ctx)" "within T (verify_csrf E rq)"
  unfolding get_current_session_def verify_csrf_def Let_def by (intro world_rules)+

end

context session_frame
begin

lemma auth_deps [intro]:
  "within T (get_auth_context E rq)" "within T (get_current_user E rq)" "within T (user_and_session E rq)"
  "within T (require_permission E c rq)" "within T (require_role E n rq)"
proof -
  show ctx: "within T (get_auth_context E rq)"
    unfolding get_auth_context_def Let_def by (intro session_rules token_ops subject_ops closing_ops)
  show "within T (user_and_session E rq)"
    unfolding user_and_session_def by (intro session_rules ctx pure_deps)
  show user: "within T (get_current_user E rq)"
    unfolding get_current_user_def by (intro session_rules ctx)
  show "within T (require_permission E c rq)" "within T (require_role E n rq)"
    unfolding require_permission_def require_role_def by (intro session_rules user)+
qed

end

context table_invariant
begin

lemma both_auth_deps [intro]:
  "within (both I) (get_auth_context E rq)" "within (both I) (get_current_user E rq)"
  "within (both I) (user_and_session E rq)" "within (both I) (require_permission E c rq)"
  "within (both I) (require_role E n rq)"
proof -
  show ctx: "within (both I) (get_auth_context E rq)"
    unfolding get_auth_context_def Let_def
    by (intro both_rules both.token_ops both.subject_ops both_session_ops)
  show "within (both I) (user_and_session E rq)"
    unfolding user_and_session_def by (intro both_rules ctx both.pure_deps)
  show user: "within (both I) (get_current_user E rq)"
    unfolding get_current_user_def by (intro both_rules ctx)
  show "within (both I) (require_permission E c rq)" "within (both I) (require_role E n rq)"
    unfolding require_permission_def require_role_def by (intro both_rules user)+
qed

end

end
