(* ===== verification/Notifications.thy ===== *)
theory Notifications
  imports Dependencies
begin

text \<open>
  \<^verbatim>\<open>app/services/notifications.py\<close> and \<^verbatim>\<open>app/services/email\<close>: the templates, the backends and the
  background tasks that send mail. A mail handed to SMTP may fail; no failure of a backend leaves
  the notification service. \<open>outbox\<close> is what was delivered (by SMTP, or to the in-memory list).
\<close>

section \<open>Templates\<close>

definition email_style :: string where
  "email_style =
     ''font-family:-apple-system,Segoe UI,Roboto,Helvetica,Arial,sans-serif;'' @
     ''line-height:1.5;color:#1a1a2e''"

definition wrap_html :: "settings \<Rightarrow> string \<Rightarrow> string \<Rightarrow> string" where
  "wrap_html c title body_html =
     ''<div style=\"'' @ email_style @ '';max-width:520px;margin:0 auto\">'' @
     ''<h2 style=\"color:#0f3460\">'' @ title @ ''</h2>'' @ body_html @
     ''<hr style=\"border:none;border-top:1px solid #eee;margin:24px 0\">'' @
     ''<p style=\"font-size:12px;color:#888\">'' @ EMAIL_FROM_NAME c @ ''</p></div>''"

definition button_html :: "string \<Rightarrow> string \<Rightarrow> string" where
  "button_html url label =
     ''<p><a href=\"'' @ url @ ''\" style=\"background:#0f3460;color:#fff;padding:10px 18px;'' @
     ''border-radius:6px;text-decoration:none;display:inline-block\">'' @ label @ ''</a></p>'' @
     ''<p style=\"font-size:13px;color:#666\">Or copy this link: '' @ url @ ''</p>''"

definition welcome_email :: "settings \<Rightarrow> string \<Rightarrow> string \<Rightarrow> email_message" where
  "welcome_email c to_addr name =
     (let display = (if name = [] then to_addr else name) in
      \<lparr>em_to = to_addr, em_subject = ''Welcome to '' @ EMAIL_FROM_NAME c,
       em_html = wrap_html c ''Welcome!'' (''<p>Hi '' @ display @
         '', your account has been created. We're glad to have you on board.</p>''),
       em_text = ''Hi '' @ display @ '', your account has been created.''\<rparr>)"

definition verification_email :: "settings \<Rightarrow> string \<Rightarrow> string \<Rightarrow> email_message" where
  "verification_email c to_addr token =
     (let url = APP_BASE_URL c @ ''/verify-email?token='' @ token in
      \<lparr>em_to = to_addr, em_subject = ''Verify your email address'',
       em_html = wrap_html c ''Verify your email''
         (''<p>Confirm your email address to finish setting up your account.</p>'' @ button_html url ''Verify email''),
       em_text = ''Verify your email: '' @ url\<rparr>)"

definition password_reset_email :: "settings \<Rightarrow> string \<Rightarrow> string \<Rightarrow> email_message" where
  "password_reset_email c to_addr token =
     (let url = APP_BASE_URL c @ ''/reset-password?token='' @ token;
          mins = str_int (PASSWORD_RESET_EXPIRE_MINUTES c) in
      \<lparr>em_to = to_addr, em_subject = ''Reset your password'',
       em_html = wrap_html c ''Reset your password''
         (''<p>We received a request to reset your password. This link expires in '' @ mins @
          '' minutes. If you didn't request this, you can ignore this email.</p>'' @ button_html url ''Reset password''),
       em_text = ''Reset your password (expires in '' @ mins @ '' min): '' @ url\<rparr>)"

definition password_changed_email :: "settings \<Rightarrow> string \<Rightarrow> email_message" where
  "password_changed_email c to_addr =
     \<lparr>em_to = to_addr, em_subject = ''Your password was changed'',
      em_html = wrap_html c ''Your password was changed''
        (''<p>Your password was just changed. If this wasn't you, reset your '' @
         ''password immediately and contact support.</p>''),
      em_text = ''Your password was just changed. If this wasn't you, act now.''\<rparr>"

definition email_change_email :: "settings \<Rightarrow> string \<Rightarrow> string \<Rightarrow> email_message" where
  "email_change_email c to_addr token =
     (let url = APP_BASE_URL c @ ''/confirm-email-change?token='' @ token in
      \<lparr>em_to = to_addr, em_subject = ''Confirm your new email address'',
       em_html = wrap_html c ''Confirm your new email''
         (''<p>Confirm this address to complete your email change.</p>'' @ button_html url ''Confirm new email''),
       em_text = ''Confirm your new email: '' @ url\<rparr>)"

definition new_device_email :: "settings \<Rightarrow> string \<Rightarrow> string \<Rightarrow> string \<Rightarrow> string \<Rightarrow> email_message" where
  "new_device_email c to_addr device browser ip =
     \<lparr>em_to = to_addr, em_subject = ''New sign-in to your account'',
      em_html = wrap_html c ''New sign-in to your account''
        (''<p>A new sign-in was detected:</p><ul>'' @
         ''<li>Device: '' @ device @ ''</li><li>Browser: '' @ browser @ ''</li>'' @
         ''<li>IP address: '' @ ip @ ''</li></ul>'' @
         ''<p>If this wasn't you, change your password and review your sessions.</p>''),
      em_text = ''New sign-in: device='' @ device @ '', browser='' @ browser @ '', ip='' @ ip @ ''.''\<rparr>"

section \<open>Backends\<close>

datatype email_backend = SMTPEmailBackend | ConsoleEmailBackend | InMemoryEmailBackend

definition get_email_backend :: "settings \<Rightarrow> email_backend" where
  "get_email_backend c =
     (case EMAIL_BACKEND c of
        Smtp \<Rightarrow> SMTPEmailBackend
      | Memory \<Rightarrow> InMemoryEmailBackend
      | Console \<Rightarrow> ConsoleEmailBackend)"

definition deliver :: "email_message \<Rightarrow> ('r world, unit) prog" where
  "deliver m = upd_state (\<lambda>w. w\<lparr>outbox := outbox w @ [m]\<rparr>)"

fun backend_send :: "'r env \<Rightarrow> email_backend \<Rightarrow> email_message \<Rightarrow> ('r world, unit) prog" where
  "backend_send E InMemoryEmailBackend m = deliver m"
| "backend_send E ConsoleEmailBackend m = ret ()"
| "backend_send E SMTPEmailBackend m =
     bnd (draw (smtp_ok E)) (\<lambda>ok. if ok then deliver m else raise OtherError)"

section \<open>The notification service\<close>

definition send_email :: "'r env \<Rightarrow> email_message \<Rightarrow> ('r world, unit) prog" where
  "send_email E m =
     try_except (backend_send E (get_email_backend (cfg E)) m) (\<lambda>_. True) (\<lambda>_. ret ())"

fun email_of :: "settings \<Rightarrow> task \<Rightarrow> email_message" where
  "email_of c (TaskWelcome to_addr name) = welcome_email c to_addr name"
| "email_of c (TaskVerification to_addr token) = verification_email c to_addr token"
| "email_of c (TaskPasswordReset to_addr token) = password_reset_email c to_addr token"
| "email_of c (TaskPasswordChanged to_addr) = password_changed_email c to_addr"
| "email_of c (TaskEmailChange to_addr token) = email_change_email c to_addr token"
| "email_of c (TaskNewDevice to_addr device browser ip) = new_device_email c to_addr device browser ip"

text \<open>The background tasks of a response run in order once it is sent.\<close>

definition run_background :: "'r env \<Rightarrow> ('r world, unit) prog" where
  "run_background E =
     bnd (get_state background) (\<lambda>tasks.
     bnd (upd_state (\<lambda>w. w\<lparr>background := []\<rparr>)) (\<lambda>_.
     for_each (\<lambda>t. send_email E (email_of (cfg E) t)) tasks))"

section \<open>No failure of a mail leaves the service\<close>

text \<open>What sending mail may change.\<close>

definition but_mail :: "'r world \<Rightarrow> 'r world \<Rightarrow> bool" where
  "but_mail w w' \<longleftrightarrow> (\<exists>n out. w' = w\<lparr>draws := n, outbox := out\<rparr>)"

interpretation but_mail: frame but_mail
proof
  show "but_mail w w" for w :: "'r world"
    unfolding but_mail_def by (rule exI [of _ "draws w"], rule exI [of _ "outbox w"]) simp
  show "but_mail w w''" if "but_mail w w'" "but_mail w' w''" for w w' w'' :: "'r world"
    using that unfolding but_mail_def by (elim exE) (intro exI, simp)
qed

lemma runs_send_email: "runs (send_email E m) w (\<lambda>_. but_mail w) (\<lambda>_ _. False)"
proof -
  have "but_mail w w" "but_mail w (w\<lparr>draws := n\<rparr>)" "but_mail w (w\<lparr>outbox := out\<rparr>)" for n out
    by (auto simp: but_mail_def) (metis world.surjective world.update_convs(2,8))+
  then show ?thesis
    by (cases "get_email_backend (cfg E)")
       (auto simp: runs_def send_email_def try_except_def bnd_def draw_def deliver_def but_mail_def)
qed

lemma runs_background:
  assumes "\<And>n out. S () (w\<lparr>background := [], draws := n, outbox := out\<rparr>)"
  shows "runs (run_background E) w S F"
proof -
  have "runs (for_each (\<lambda>t. send_email E (email_of (cfg E) t)) tasks) v (\<lambda>_. but_mail v) (\<lambda>_ _. False)" for tasks v
    by (rule runs_for_each [where I = "\<lambda>_. but_mail v"])
       (auto intro: but_mail.T_refl but_mail.T_trans runs_mono [OF runs_send_email])
  then have "runs (for_each (\<lambda>t. send_email E (email_of (cfg E) t)) (background w)) (w\<lparr>background := []\<rparr>) S F"
    by (rule runs_mono) (use assms in \<open>auto simp: but_mail_def\<close>)
  then show ?thesis
    unfolding run_background_def by (intro runs_intros)
qed

end
