(* ===== verification/Email_Account.thy ===== *)
theory Email_Account
  imports Two_Factor
begin

text \<open>
  \<^verbatim>\<open>app/services/email_account.py\<close>: verification of addresses, password reset and change of address,
  each authorized by a token that was mailed. Only the SHA-256 of a token is stored; mails are
  background tasks of the request.
\<close>

section \<open>The service\<close>

definition PURPOSE_VERIFY_EMAIL :: string where
  "PURPOSE_VERIFY_EMAIL = ''verify_email''"

definition PURPOSE_RESET_PASSWORD :: string where
  "PURPOSE_RESET_PASSWORD = ''reset_password''"

definition PURPOSE_CHANGE_EMAIL :: string where
  "PURPOSE_CHANGE_EMAIL = ''change_email''"

definition hash_token :: "'r env \<Rightarrow> string \<Rightarrow> string" where
  "hash_token E raw = sha256_hex E raw"

definition issue_email_token ::
    "'r env \<Rightarrow> user_row \<Rightarrow> string \<Rightarrow> time \<Rightarrow> string option \<Rightarrow> ('r world, string) prog" where
  "issue_email_token E user purpose ttl new_email =
     bnd (delete_for_purpose (u_id user) purpose) (\<lambda>_.
     bnd (draw (token_urlsafe E 32)) (\<lambda>raw.
     bnd (draw (uuid7 E)) (\<lambda>i.
     bnd now (\<lambda>t.
     bnd (add_email_token \<lparr>et_id = i, et_user_id = u_id user, et_token_hash = hash_token E raw,
            et_purpose = purpose, et_new_email = new_email, et_expires_at = t + ttl,
            et_used_at = None\<rparr>) (\<lambda>_.
     ret raw)))))"

definition consume_email_token :: "'r env \<Rightarrow> string \<Rightarrow> string \<Rightarrow> ('r world, email_token_row) prog" where
  "consume_email_token E raw purpose =
     bnd (get_by_hash (hash_token E raw)) (\<lambda>found.
     case found of
       None \<Rightarrow> raise (err AuthError ''Invalid or already-used token.'')
     | Some token \<Rightarrow>
         if et_purpose token \<noteq> purpose \<or> et_used_at token \<noteq> None
         then raise (err AuthError ''Invalid or already-used token.'')
         else
           bnd now (\<lambda>t.
           if et_expires_at token \<le> t then raise (err AuthError ''This token has expired.'')
           else
             bnd (write_email_token token (\<lambda>v. v\<lparr>et_used_at := Some t\<rparr>)) (\<lambda>_.
             bnd flush (\<lambda>_.
             ret (token\<lparr>et_used_at := Some t\<rparr>)))))"

definition send_signup_emails :: "'r env \<Rightarrow> user_row \<Rightarrow> ('r world, unit) prog" where
  "send_signup_emails E user =
     bnd (issue_email_token E user PURPOSE_VERIFY_EMAIL
            (hours (EMAIL_VERIFICATION_EXPIRE_HOURS (cfg E))) None) (\<lambda>raw.
     bnd (add_task (TaskWelcome (u_email user) (u_full_name user))) (\<lambda>_.
     add_task (TaskVerification (u_email user) raw)))"

definition resend_verification :: "'r env \<Rightarrow> user_row \<Rightarrow> ('r world, unit) prog" where
  "resend_verification E user =
     (if u_is_verified user then raise (err ConflictError ''Email is already verified.'')
      else
        bnd (issue_email_token E user PURPOSE_VERIFY_EMAIL
               (hours (EMAIL_VERIFICATION_EXPIRE_HOURS (cfg E))) None) (\<lambda>raw.
        add_task (TaskVerification (u_email user) raw)))"

definition verify_email :: "'r env \<Rightarrow> string \<Rightarrow> ('r world, user_row) prog" where
  "verify_email E raw =
     bnd (consume_email_token E raw PURPOSE_VERIFY_EMAIL) (\<lambda>token.
     bnd (get_user (et_user_id token)) (\<lambda>user.
     case user of
       None \<Rightarrow> raise (err AuthError ''Account no longer exists.'')
     | Some u \<Rightarrow>
         bnd (write_user u (\<lambda>v. v\<lparr>u_is_verified := True\<rparr>)) (\<lambda>_.
         bnd flush (\<lambda>_.
         bnd (audit ''email_verified'' (Some (uuid_str (u_id u))) []) (\<lambda>_.
         ret (u\<lparr>u_is_verified := True\<rparr>))))))"

definition request_password_reset :: "'r env \<Rightarrow> string \<Rightarrow> ('r world, unit) prog" where
  "request_password_reset E email =
     bnd (get_by_email email) (\<lambda>user.
     case user of
       None \<Rightarrow> ret ()
     | Some u \<Rightarrow>
         if \<not> u_is_active u then ret ()
         else
           bnd (issue_email_token E u PURPOSE_RESET_PASSWORD
                  (minutes (PASSWORD_RESET_EXPIRE_MINUTES (cfg E))) None) (\<lambda>raw.
           bnd flush (\<lambda>_.
           bnd (add_task (TaskPasswordReset (u_email u) raw)) (\<lambda>_.
           audit ''password_reset_requested'' (Some (uuid_str (u_id u))) []))))"

definition reset_password :: "'r env \<Rightarrow> string \<Rightarrow> string \<Rightarrow> ('r world, user_row) prog" where
  "reset_password E raw new_password =
     bnd (lift_sum (validate_password_strength new_password)) (\<lambda>_.
     bnd (consume_email_token E raw PURPOSE_RESET_PASSWORD) (\<lambda>token.
     bnd (get_user (et_user_id token)) (\<lambda>user.
     case user of
       None \<Rightarrow> raise (err AuthError ''Account no longer exists.'')
     | Some u \<Rightarrow>
         bnd (hash_password E new_password) (\<lambda>hashed.
         bnd (write_user u (\<lambda>v. v\<lparr>u_hashed_password := hashed\<rparr>)) (\<lambda>_.
         bnd flush (\<lambda>_.
         bnd (add_task (TaskPasswordChanged (u_email u))) (\<lambda>_.
         bnd (audit ''password_reset_completed'' (Some (uuid_str (u_id u))) []) (\<lambda>_.
         ret (u\<lparr>u_hashed_password := hashed\<rparr>)))))))))"

definition request_email_change ::
    "'r env \<Rightarrow> user_row \<Rightarrow> string \<Rightarrow> string \<Rightarrow> ('r world, unit) prog" where
  "request_email_change E user new_email password =
     bnd (verify_password E password (u_hashed_password user)) (\<lambda>ok.
     if \<not> ok then raise (err AuthError ''Password confirmation failed.'')
     else
       let address = lower new_email in
       if address = u_email user then
         raise (err ValidationError ''New email matches the current email.'')
       else
         bnd (email_exists address) (\<lambda>taken.
         if taken then raise (err ConflictError ''That email address is already in use.'')
         else
           bnd (issue_email_token E user PURPOSE_CHANGE_EMAIL
                  (hours (EMAIL_CHANGE_EXPIRE_HOURS (cfg E))) (Some address)) (\<lambda>raw.
           bnd flush (\<lambda>_.
           bnd (add_task (TaskEmailChange address raw)) (\<lambda>_.
           audit ''email_change_requested'' (Some (uuid_str (u_id user))) [])))))"

definition confirm_email_change :: "'r env \<Rightarrow> string \<Rightarrow> ('r world, user_row) prog" where
  "confirm_email_change E raw =
     bnd (consume_email_token E raw PURPOSE_CHANGE_EMAIL) (\<lambda>token.
     bnd (get_user (et_user_id token)) (\<lambda>user.
     case (user, et_new_email token) of
       (Some u, Some address) \<Rightarrow>
         bnd (email_exists address) (\<lambda>taken.
         if taken then raise (err ConflictError ''That email address is already in use.'')
         else
           bnd (write_email u address (\<lambda>v. v\<lparr>u_is_verified := True\<rparr>)) (\<lambda>_.
           bnd flush (\<lambda>_.
           bnd (audit ''email_changed'' (Some (uuid_str (u_id u))) []) (\<lambda>_.
           ret (u\<lparr>u_email := address, u_is_verified := True\<rparr>)))))
     | _ \<Rightarrow> raise (err AuthError ''Invalid email-change token.'')))"

lemmas email_defs =
  issue_email_token_def consume_email_token_def send_signup_emails_def resend_verification_def
  verify_email_def request_password_reset_def reset_password_def request_email_change_def
  confirm_email_change_def

section \<open>What the operations touch\<close>

context free_frame
begin

lemma email_tokens [intro]:
  "within T (issue_email_token E u pu ttl ne)" "within T (consume_email_token E raw pu)"
  unfolding issue_email_token_def consume_email_token_def by (intro free_rules)+

lemma email_ops [intro]:
  "within T (send_signup_emails E u)" "within T (resend_verification E u)" "within T (verify_email E raw)"
  "within T (request_password_reset E em)" "within T (reset_password E raw pw)"
  "within T (request_email_change E u em pw)" "within T (confirm_email_change E raw)"
  unfolding send_signup_emails_def resend_verification_def verify_email_def request_password_reset_def
    reset_password_def request_email_change_def confirm_email_change_def Let_def
  by (auto simp del: ret_run intro!: free_rules email_tokens security_ops split: prod.split option.split)

end

lemma token_changes [simp]: "token_change (\<lambda>v. v\<lparr>et_used_at := Some t\<rparr>)"
  by (simp add: token_change_def)

context table_invariant
begin

lemma both_issue_email_token [intro]:
  "map_option lower ne = ne \<Longrightarrow> within (both I) (issue_email_token E u pu ttl ne)"
  unfolding issue_email_token_def by (intro both_rules both_inserts(5) | simp)+

lemma both_consume_email_token [intro]: "within (both I) (consume_email_token E raw pu)"
  unfolding consume_email_token_def by (intro both_rules token_changes)

lemma both_email_ops [intro]:
  "within (both I) (send_signup_emails E u)" "within (both I) (resend_verification E u)"
  "within (both I) (verify_email E raw)" "within (both I) (request_password_reset E em)"
  "within (both I) (reset_password E raw pw)" "within (both I) (request_email_change E u em pw)"
  unfolding send_signup_emails_def resend_verification_def verify_email_def request_password_reset_def
    reset_password_def request_email_change_def Let_def
  by (intro both_rules both_issue_email_token both_consume_email_token both.security_ops user_changes | simp)+

end

section \<open>Outcomes\<close>

text \<open>The state of the token with a given hash, and what consuming it comes to.\<close>

definition token_of :: "'r env \<Rightarrow> database \<Rightarrow> string \<Rightarrow> email_token_row option" where
  "token_of E d raw = List.find (\<lambda>t. et_token_hash t = hash_token E raw) (email_tokens d)"

definition token_verdict ::
    "email_token_row option \<Rightarrow> string \<Rightarrow> time \<Rightarrow> exn + email_token_row" where
  "token_verdict found purpose t =
     (case found of
        None \<Rightarrow> Inl (err AuthError ''Invalid or already-used token.'')
      | Some x \<Rightarrow>
          if et_purpose x \<noteq> purpose \<or> et_used_at x \<noteq> None
          then Inl (err AuthError ''Invalid or already-used token.'')
          else if et_expires_at x \<le> t then Inl (err AuthError ''This token has expired.'')
          else Inr (x\<lparr>et_used_at := Some t\<rparr>))"

text \<open>The tables after consuming.\<close>

definition spend_token :: "email_token_row \<Rightarrow> time \<Rightarrow> database \<Rightarrow> database" where
  "spend_token x t = email_tokens_update (update_where (\<lambda>y. et_id y = et_id x) (\<lambda>y. y\<lparr>et_used_at := Some t\<rparr>))"

lemma token_of_unique:
  assumes "unique_keys (db w)"
  shows "get_by_hash (hash_token E raw) w = (Inr (token_of E (db w) raw), w)"
  using email_token_by_hash.unique [of w "hash_token E raw"] assms by (simp add: token_of_def unique_keys_def)

lemma consume_run:
  assumes "unique_keys (db w)"
  shows "consume_email_token E raw purpose w =
    (token_verdict (token_of E (db w) raw) purpose (clock w),
     case token_verdict (token_of E (db w) raw) purpose (clock w) of
       Inl _ \<Rightarrow> w | Inr x \<Rightarrow> w\<lparr>db := spend_token x (clock w) (db w)\<rparr>)"
  by (simp add: consume_email_token_def token_verdict_def spend_token_def bnd_def token_of_unique [OF assms]
      now_def write_email_token_def db_write_def flush_def split: option.splits)

lemma consume_Inr:
  assumes "unique_keys (db w)"
  shows "consume_email_token E raw purpose w = (Inr x, w') \<longleftrightarrow>
    token_verdict (token_of E (db w) raw) purpose (clock w) = Inr x \<and> w' = w\<lparr>db := spend_token x (clock w) (db w)\<rparr>"
  by (cases "token_verdict (token_of E (db w) raw) purpose (clock w)") (auto simp: consume_run [OF assms])

lemma token_of_spend:
  "token_of E (spend_token x t d) raw =
     map_option (\<lambda>y. if et_id y = et_id x then y\<lparr>et_used_at := Some t\<rparr> else y) (token_of E d raw)"
  unfolding token_of_def spend_token_def by (simp add: find_update_where)

lemma token_verdict_Inr:
  "token_verdict found purpose t = Inr x \<longleftrightarrow> (\<exists>y. found = Some y \<and> et_purpose y = purpose \<and> et_used_at y = None \<and>
     t < et_expires_at y \<and> x = y\<lparr>et_used_at := Some t\<rparr>)"
  by (auto simp: token_verdict_def split: option.splits if_splits)

lemma both_audit_log [simp]: "both I w (w'\<lparr>audit_log := a\<rparr>) = both I w w'"
  by (simp add: both_def)

lemma bex_update_where:
  "r \<in> set rows \<Longrightarrow> P (if p r then f r else r) \<Longrightarrow> \<exists>t \<in> set (update_where p f rows). P t"
  unfolding update_where_def set_map by (rule bexI, assumption, rule rev_image_eqI) auto

context table_invariant
begin

lemma both_confirm_email_change [intro]: "within (both I) (confirm_email_change E raw)"
proof -
  have consume: "runs (consume_email_token E raw pu) w
      (\<lambda>x w'. both I w w' \<and> (\<exists>t \<in> set (email_tokens (db w')). et_new_email t = et_new_email x)) (\<lambda>_. both I w)" for pu w
  proof (rule runs_mono [OF runs_conj [OF runs_within [OF both_consume_email_token]]])
    show "runs (consume_email_token E raw pu) w
        (\<lambda>x w'. \<exists>t \<in> set (email_tokens (db w')). et_new_email t = et_new_email x) (\<lambda>_ _. True)"
      unfolding consume_email_token_def
      by (intro runs_intros email_token_by_hash.runs_find TrueI) (auto intro: bex_update_where)
  qed auto
  have "runs (confirm_email_change E raw) w (\<lambda>_. both I w) (\<lambda>_. both I w)" for w
    unfolding confirm_email_change_def
  proof (rule runs_seq [OF consume], goal_cases)
    case (1 x w1)
    then obtain t where t: "t \<in> set (email_tokens (db w1))" "et_new_email t = et_new_email x" and w1: "both I w w1"
      by auto
    have written: "runs (write_email u a (\<lambda>v. v\<lparr>u_is_verified := True\<rparr>)) w1
        (\<lambda>_ w'. both I w w' \<and> both I w1 w') (\<lambda>_. both I w)" if "et_new_email x = Some a" for u a
      by (rule runs_mono [OF both_write_email [of _ t]])
         (use t that w1 in \<open>auto intro: both.T_trans simp: user_change_def\<close>)
    show ?case
      unfolding email_exists_def
      by (cases "et_new_email x")
         (auto simp del: ret_run simp: w1 split: option.split
            intro!: runs_intros runs_get_user runs_mono [OF written] intro: both.T_trans)
  qed simp
  then show ?thesis
    by (auto simp: within_def intro: runs_stateD)
qed

end

section \<open>Facts about the flows\<close>

lemma issue_run:
  "issue_email_token E u purpose ttl ne w =
     (let d = email_tokens_update (delete_where (\<lambda>t. et_user_id t = u_id u \<and> et_purpose t = purpose)) (db w);
          raw = token_urlsafe E 32 (draws w);
          x = \<lparr>et_id = uuid7 E (Suc (draws w)), et_user_id = u_id u, et_token_hash = hash_token E raw,
               et_purpose = purpose, et_new_email = ne, et_expires_at = clock w + ttl, et_used_at = None\<rparr>;
          clash = list_ex (\<lambda>y. et_id x = et_id y \<or> et_token_hash x = et_token_hash y) (email_tokens d)
      in (if clash then Inl IntegrityError else Inr raw,
          w\<lparr>db := if clash then d else email_tokens_update (\<lambda>rs. rs @ [x]) d, draws := Suc (Suc (draws w))\<rparr>))"
  by (simp add: issue_email_token_def delete_for_purpose_def bnd_def db_write_def draw_def now_def
      add_email_token_def insert_row_def db_query_def Let_def)

text \<open>The token just issued is found under its hash; one issued before for the purpose is gone.\<close>

lemma issued_token:
  assumes "issue_email_token E u purpose ttl ne w = (Inr raw, w')"
  shows "\<exists>i. token_of E (db w') raw = Some \<lparr>et_id = i, et_user_id = u_id u, et_token_hash = hash_token E raw,
      et_purpose = purpose, et_new_email = ne, et_expires_at = clock w + ttl, et_used_at = None\<rparr>"
    and "clock w' = clock w"
    and "token_of E (db w) old = Some x \<Longrightarrow> et_user_id x = u_id u \<Longrightarrow> et_purpose x = purpose \<Longrightarrow>
      unique_keys (db w) \<Longrightarrow> hash_token E old \<noteq> hash_token E raw \<Longrightarrow> token_of E (db w') old = None"
proof -
  let ?d = "email_tokens_update (delete_where (\<lambda>t. et_user_id t = u_id u \<and> et_purpose t = purpose)) (db w)"
  let ?x = "\<lparr>et_id = uuid7 E (Suc (draws w)), et_user_id = u_id u, et_token_hash = hash_token E raw,
    et_purpose = purpose, et_new_email = ne, et_expires_at = clock w + ttl, et_used_at = None\<rparr>"
  have run: "raw = token_urlsafe E 32 (draws w)" "w' = w\<lparr>db := email_tokens_update (\<lambda>rs. rs @ [?x]) ?d, draws := Suc (Suc (draws w))\<rparr>"
    and free: "\<not> list_ex (\<lambda>y. et_id ?x = et_id y \<or> hash_token E raw = et_token_hash y) (email_tokens ?d)"
    using assms by (auto simp: issue_run Let_def split: if_splits)
  show "clock w' = clock w" by (simp add: run)
  have "List.find (\<lambda>t. et_token_hash t = hash_token E raw) (email_tokens ?d) = None"
    using free by (auto simp: find_None_iff list_ex_iff)
  then show "\<exists>i. token_of E (db w') raw = Some \<lparr>et_id = i, et_user_id = u_id u, et_token_hash = hash_token E raw,
      et_purpose = purpose, et_new_email = ne, et_expires_at = clock w + ttl, et_used_at = None\<rparr>"
    by (simp add: token_of_def run(2) find_append)
  assume old: "token_of E (db w) old = Some x" "et_user_id x = u_id u" "et_purpose x = purpose"
    and unique: "unique_keys (db w)" and ne: "hash_token E old \<noteq> hash_token E raw"
  have x: "x \<in> set (email_tokens (db w))" "et_token_hash x = hash_token E old"
    using old(1) by (auto simp: token_of_def find_Some_iff)
  have "inj_on et_token_hash (set (email_tokens (db w)))"
    using unique by (simp add: unique_keys_def distinct_map)
  then have "y = x" if "y \<in> set (email_tokens (db w))" "et_token_hash y = hash_token E old" for y
    by (rule inj_onD) (simp_all add: that x)
  then have "List.find (\<lambda>t. et_token_hash t = hash_token E old) (email_tokens ?d) = None"
    using old by (auto simp: find_None_iff)
  with ne show "token_of E (db w') old = None"
    by (simp add: token_of_def run(2) find_append)
qed

text \<open>The sample user with a mailed token for a reset and one for a change of address.\<close>

definition sample_reset_token :: email_token_row where
  "sample_reset_token = \<lparr>et_id = 31, et_user_id = 7, et_token_hash = ''token'',
     et_purpose = PURPOSE_RESET_PASSWORD, et_new_email = None, et_expires_at = days 20001, et_used_at = None\<rparr>"

definition sample_change_token :: email_token_row where
  "sample_change_token = \<lparr>et_id = 32, et_user_id = 7, et_token_hash = ''change'',
     et_purpose = PURPOSE_CHANGE_EMAIL, et_new_email = Some ''new@example.org'',
     et_expires_at = days 20001, et_used_at = None\<rparr>"

definition sample_reset :: "ref_store world" where
  "sample_reset = (let d = sample_db\<lparr>email_tokens := [sample_reset_token, sample_change_token]\<rparr>
     in sample_world\<lparr>db := d, committed := d\<rparr>)"

lemma sample_reset_simps [simp]:
  "clock sample_reset = days 20000" "redis sample_reset = empty_store"
  "unique_keys (db sample_reset)" "unique_keys (committed sample_reset)"
  "users (db sample_reset) = [sample_user]" "hashes_readable sample_env (db sample_reset) pw"
  "token_of sample_env (db sample_reset) ''token'' = Some sample_reset_token"
  "token_of sample_env (db sample_reset) ''change'' = Some sample_change_token"
  "et_purpose sample_reset_token = PURPOSE_RESET_PASSWORD" "et_used_at sample_reset_token = None"
  "et_expires_at sample_reset_token = days 20001" "et_user_id sample_reset_token = 7"
proof -
  have "lower ''new@example.org'' = ''new@example.org''" by code_simp
  then show "unique_keys (db sample_reset)" "unique_keys (committed sample_reset)"
    by (simp_all add: sample_reset_def Let_def unique_keys_def sample_reset_token_def sample_change_token_def)
qed (simp_all add: sample_reset_def Let_def hashes_readable_def token_of_def hash_token_def
    sample_reset_token_def sample_change_token_def)

lemma pwd_sound_sample [simp]: "pwd_sound sample_env"
  by (simp add: pwd_sound_def)

section \<open>What the mailed tokens promise\<close>

text \<open>
  C30. The life of a mailed token: the token just issued is accepted for its purpose, and for no other,
  until it expires; once accepted it is refused for every purpose and at any time; and issuing it
  has invalidated the earlier token of the user for the same purpose.
\<close>

theorem mailed_token_lifecycle:
  assumes "unique_keys (db w)" and "unique_keys (committed w)" and "map_option lower ne = ne"
    and "issue_email_token E u purpose ttl ne w = (Inr raw, w')"
  shows "((\<exists>x. fst (consume_email_token E raw pu (tick d w')) = Inr x) \<longleftrightarrow> pu = purpose \<and> d < ttl) \<and>
    (\<forall>x w''. consume_email_token E raw pu (tick d w') = (Inr x, w'') \<longrightarrow>
       fst (consume_email_token E raw pu' (tick d' w'')) = Inl (err AuthError ''Invalid or already-used token.'')) \<and>
    (\<forall>old x. token_of E (db w) old = Some x \<and> et_user_id x = u_id u \<and> et_purpose x = purpose \<and>
         hash_token E old \<noteq> hash_token E raw \<longrightarrow>
       fst (consume_email_token E old pu (tick d w')) = Inl (err AuthError ''Invalid or already-used token.''))"
proof -
  note issued = issued_token [OF assms(4)]
  have unique: "unique_keys (db w')" "unique_keys (committed w')"
    using unique_tables.both_issue_email_token [OF assms(3), of E u purpose ttl] assms(1,2,4)
    by (auto dest: withinD bothD)
  obtain i where tok: "token_of E (db w') raw = Some \<lparr>et_id = i, et_user_id = u_id u, et_token_hash = hash_token E raw,
      et_purpose = purpose, et_new_email = ne, et_expires_at = clock w + ttl, et_used_at = None\<rparr>"
    using issued(1) by blast
  have run: "consume_email_token E raw pu (tick d w') =
      (token_verdict (token_of E (db w') raw) pu (clock w + d),
       case token_verdict (token_of E (db w') raw) pu (clock w + d) of
         Inl _ \<Rightarrow> tick d w' | Inr x \<Rightarrow> (tick d w')\<lparr>db := spend_token x (clock w + d) (db w')\<rparr>)"
    using consume_run [of "tick d w'" E raw pu] unique by (auto simp: issued(2) split: sum.split)
  have first: "(\<exists>x. fst (consume_email_token E raw pu (tick d w')) = Inr x) \<longleftrightarrow> pu = purpose \<and> d < ttl"
    by (auto simp: run tok token_verdict_Inr)
  have again: "fst (consume_email_token E raw pu' (tick d' w'')) = Inl (err AuthError ''Invalid or already-used token.'')"
    if two: "consume_email_token E raw pu (tick d w') = (Inr x, w'')" for x w''
  proof -
    have u: "unique_keys (db w'')"
      using unique_tables.both_consume_email_token [of E raw pu] two unique by (auto dest!: withinD bothD)
    have v: "token_verdict (token_of E (db w') raw) pu (clock w + d) = Inr x"
      using two by (simp add: run)
    have "w'' = (tick d w')\<lparr>db := spend_token x (clock w + d) (db w')\<rparr>"
      using two by (simp add: run v)
    then have "\<exists>y. token_of E (db w'') raw = Some y \<and> et_used_at y \<noteq> None"
      using v tok by (auto simp: token_verdict_Inr token_of_spend)
    then show ?thesis
      using u consume_run [of "tick d' w''" E raw pu'] by (auto simp: token_verdict_def)
  qed
  have "fst (consume_email_token E old pu (tick d w')) = Inl (err AuthError ''Invalid or already-used token.'')"
    if "token_of E (db w) old = Some x" "et_user_id x = u_id u" "et_purpose x = purpose"
      "hash_token E old \<noteq> hash_token E raw" for old x
    using consume_run [of "tick d w'" E old pu] unique issued(3) [OF that(1-3) assms(1) that(4)]
    by (simp add: token_verdict_def)
  with first again show ?thesis by blast
qed

theorem mailed_token_lifecycle_witness:
  "\<exists>raw w'. issue_email_token sample_env sample_user PURPOSE_RESET_PASSWORD (minutes 30) None sample_world = (Inr raw, w') \<and>
     (\<exists>x. fst (consume_email_token sample_env raw PURPOSE_RESET_PASSWORD (tick (minutes 29) w')) = Inr x) \<and>
     (\<nexists>x. fst (consume_email_token sample_env raw PURPOSE_VERIFY_EMAIL (tick (minutes 29) w')) = Inr x)"
proof -
  obtain raw w' where run: "issue_email_token sample_env sample_user PURPOSE_RESET_PASSWORD (minutes 30) None
      sample_world = (Inr raw, w')"
    by (simp add: issue_run Let_def delete_where_def)
  have "minutes 29 < minutes 30" "PURPOSE_VERIFY_EMAIL \<noteq> PURPOSE_RESET_PASSWORD"
    by (simp_all add: time_defs PURPOSE_VERIFY_EMAIL_def PURPOSE_RESET_PASSWORD_def)
  with mailed_token_lifecycle [OF _ _ _ run, where pu = PURPOSE_RESET_PASSWORD and d = "minutes 29"]
    mailed_token_lifecycle [OF _ _ _ run, where pu = PURPOSE_VERIFY_EMAIL and d = "minutes 29"] run
  show ?thesis by auto
qed

text \<open>
  Asking for a password reset tells nothing about accounts: for an address without an active
  account nothing happens at all, for another one a token is stored and a mail is scheduled, and
  in both cases the answer is the same (unless the fresh random token or row id is taken).
\<close>

theorem forgot_password_silent:
  assumes "unique_keys (db w)"
    and "\<forall>y \<in> set (email_tokens (db w)). et_id y \<noteq> uuid7 E (Suc (draws w)) \<and>
      et_token_hash y \<noteq> hash_token E (token_urlsafe E 32 (draws w))"
  shows "fst (request_password_reset E em w) = Inr () \<and>
    (case List.find (\<lambda>u. lower (u_email u) = lower em) (users (db w)) of
       None \<Rightarrow> snd (request_password_reset E em w) = w
     | Some u \<Rightarrow>
         if u_is_active u
         then background (snd (request_password_reset E em w)) =
           background w @ [TaskPasswordReset (u_email u) (token_urlsafe E 32 (draws w))]
         else snd (request_password_reset E em w) = w)"
proof -
  let ?u = "List.find (\<lambda>u. lower (u_email u) = lower em) (users (db w))"
  have get: "get_by_email em w = (Inr ?u, w)"
    using user_by_email.unique [of w em] unique_lower_emails [OF assms(1)] by simp
  have free: "\<not> list_ex (\<lambda>y. uuid7 E (Suc (draws w)) = et_id y \<or>
      hash_token E (token_urlsafe E 32 (draws w)) = et_token_hash y)
      (delete_where (\<lambda>t. et_user_id t = i \<and> et_purpose t = PURPOSE_RESET_PASSWORD) (email_tokens (db w)))" for i
    using assms(2) by (auto simp: list_ex_iff)
  show ?thesis
    by (cases ?u) (simp_all add: request_password_reset_def bnd_def get issue_run Let_def free flush_def
        add_task_def audit_def)
qed

theorem forgot_password_silent_witness:
  "fst (request_password_reset sample_env ''nobody@example.org'' sample_world) =
     fst (request_password_reset sample_env ''ann@example.org'' sample_world)"
  using forgot_password_silent [of sample_world sample_env "''nobody@example.org''"]
    forgot_password_silent [of sample_world sample_env "''ann@example.org''"]
  by simp

lemma reset_run:
  assumes "unique_keys (db w)" and "password_problems new = []" and "token_of E (db w) raw = Some x"
    and "et_purpose x = PURPOSE_RESET_PASSWORD" and "et_used_at x = None" and "clock w < et_expires_at x"
    and "u \<in> set (users (db w))" and "u_id u = et_user_id x"
  defines "g \<equiv> \<lambda>v. v\<lparr>u_hashed_password := pwd_hash E (draws w) new\<rparr>"
  shows "\<exists>w'. reset_password E raw new w = (Inr (g u), w') \<and> redis w' = redis w \<and> clock w' = clock w \<and>
    sessions (db w') = sessions (db w) \<and> users (db w') = update_where (\<lambda>v. u_id v = u_id u) g (users (db w)) \<and>
    email_tokens (db w') = email_tokens (spend_token (x\<lparr>et_used_at := Some (clock w)\<rparr>) (clock w) (db w))"
proof -
  have "token_verdict (token_of E (db w) raw) PURPOSE_RESET_PASSWORD (clock w) = Inr (x\<lparr>et_used_at := Some (clock w)\<rparr>)"
    using assms(3-6) by (simp add: token_verdict_def)
  moreover have "List.find (\<lambda>v. u_id v = et_user_id x) (users (db w)) = Some u"
    using assms(1,7,8) by (intro find_key) (simp_all add: unique_keys_def)
  ultimately show ?thesis
    using assms(2,8) consume_run [OF assms(1), of E raw PURPOSE_RESET_PASSWORD]
    by (simp add: g_def reset_password_def bnd_def validate_password_cases get_user_def db_query_def spend_token_def
        hash_password_def draw_def write_user_def db_write_def flush_def add_task_def audit_def)
qed

text \<open>
  C31. Password reset: with a valid token of an active account and an acceptable new password, the new
  password logs in afterwards, a password that the new hash does not verify no longer does, and the
  token is spent. The sessions of the account are not closed by the reset: they are the same rows
  as before.
\<close>

theorem password_reset_effect:
  assumes "redis_env E val up" and "up (redis w)" and "unique_keys (db w)" and "unique_keys (committed w)"
    and "pwd_sound E" and "hashes_readable E (db w) new" and "hashes_readable E (db w) old"
    and "password_problems new = []"
    and "token_of E (db w) raw = Some x" and "et_purpose x = PURPOSE_RESET_PASSWORD"
    and "et_used_at x = None" and "clock w < et_expires_at x"
    and "u \<in> set (users (db w))" and "u_id u = et_user_id x" and "u_is_active u"
    and "val (redis w) (clock w) (lockout_key (u_email u) ip) = None"
    and "pwd_verify E old (pwd_hash E (draws w) new) \<noteq> Some True"
  shows "\<exists>u' w'. reset_password E raw new w = (Inr u', w') \<and>
    map_sum id u_id (fst (authenticate E (u_email u) new ip w')) = Inr (u_id u) \<and>
    fst (authenticate E (u_email u) old ip w') = Inl (err AuthError ''Invalid email or password.'') \<and>
    fst (consume_email_token E raw PURPOSE_RESET_PASSWORD w') =
      Inl (err AuthError ''Invalid or already-used token.'') \<and>
    sessions (db w') = sessions (db w)"
proof -
  let ?h = "pwd_hash E (draws w) new" and ?x = "x\<lparr>et_used_at := Some (clock w)\<rparr>"
  let ?g = "\<lambda>v. v\<lparr>u_hashed_password := ?h\<rparr>"
  obtain w' where run: "reset_password E raw new w = (Inr (?g u), w')"
    and w': "redis w' = redis w" "clock w' = clock w" "sessions (db w') = sessions (db w)"
      "users (db w') = update_where (\<lambda>v. u_id v = u_id u) ?g (users (db w))"
      "email_tokens (db w') = email_tokens (spend_token ?x (clock w) (db w))"
    using reset_run [OF assms(3,8-14)] by blast
  have unique: "unique_keys (db w')"
    using unique_tables.both_email_ops(5) [of E raw new] assms(3,4) run by (auto dest!: withinD bothD)
  have find: "List.find (\<lambda>v. lower (u_email v) = lower (u_email u)) (users (db w')) = Some (?g u)"
  proof -
    have "List.find (\<lambda>v. lower (u_email v) = lower (u_email u)) (users (db w)) = Some u"
      by (rule find_key [OF unique_lower_emails [OF assms(3)] assms(13) refl])
    then show ?thesis by (simp add: w'(4) find_update_where)
  qed
  have login: "map_sum id u_id (fst (authenticate E (u_email u) p ip w')) =
      auth_verdict E False (users (db w')) (u_email u) p"
    if "hashes_readable E (db w) p" for p
  proof -
    have "hashes_readable E (db w') p"
      using that assms(5) by (auto simp: hashes_readable_def w'(4) in_update_where pwd_sound_def)
    then show ?thesis
      using redis_env.authenticate_verdict_runs [OF assms(1) _ unique, of p "u_email u" ip] assms(2,16) w'
      by (auto simp: runs_def split: prod.splits sum.splits)
  qed
  have spent: "fst (consume_email_token E raw PURPOSE_RESET_PASSWORD w') =
      Inl (err AuthError ''Invalid or already-used token.'')"
  proof -
    have "token_of E (db w') raw = token_of E (spend_token ?x (clock w) (db w)) raw"
      by (simp add: token_of_def w'(5))
    then show ?thesis
      using consume_run [OF unique, of E raw PURPOSE_RESET_PASSWORD] assms(9)
      by (simp add: token_of_spend token_verdict_def)
  qed
  have "map_sum id u_id (fst (authenticate E (u_email u) new ip w')) = Inr (u_id u)"
    using login [OF assms(6)] assms(5,15) by (simp add: auth_verdict_def find pwd_sound_def)
  moreover have "fst (authenticate E (u_email u) old ip w') = Inl (err AuthError ''Invalid email or password.'')"
    using login [OF assms(7)] assms(17)
    by (cases "fst (authenticate E (u_email u) old ip w')") (auto simp: auth_verdict_def find)
  ultimately show ?thesis using run spent w'(3) by blast
qed

theorem password_reset_effect_witness:
  "\<exists>u' w'. reset_password sample_env ''token'' ''Fresh-Pass1'' sample_reset = (Inr u', w') \<and>
    map_sum id u_id (fst (authenticate sample_env ''ann@example.org'' ''Fresh-Pass1'' None w')) = Inr 7 \<and>
    fst (authenticate sample_env ''ann@example.org'' ''Secret-99'' None w') =
      Inl (err AuthError ''Invalid email or password.'')"
proof -
  have "password_problems ''Fresh-Pass1'' = []" by code_simp
  moreover have "days 20000 < days 20001" by (simp add: time_defs)
  ultimately show ?thesis
    using password_reset_effect [OF sample.redis_env_axioms, of sample_reset "''Fresh-Pass1''" "''Secret-99''"
        "''token''" sample_reset_token sample_user None]
    by auto
qed

text \<open>
  C32. Change of address: a confirmation writes exactly the address that its token was issued for, to
  the user of the token, and only if no account has the address at that moment, in any case; the
  address counts as verified, and all other accounts keep their rows.
\<close>

theorem email_change_confirmed:
  assumes "unique_keys (db w)" and "unique_keys (committed w)"
    and "confirm_email_change E raw w = (Inr u', w')"
  shows "\<exists>x u. token_verdict (token_of E (db w) raw) PURPOSE_CHANGE_EMAIL (clock w) = Inr x \<and>
    et_new_email x = Some (u_email u') \<and> u \<in> set (users (db w)) \<and> u_id u = et_user_id x \<and>
    u' = u\<lparr>u_email := u_email u', u_is_verified := True\<rparr> \<and>
    (\<forall>v \<in> set (users (db w)). lower (u_email v) \<noteq> u_email u') \<and>
    users (db w') = update_where (\<lambda>v. u_id v = u_id u) (\<lambda>v. v\<lparr>u_is_verified := True, u_email := u_email u'\<rparr>) (users (db w)) \<and>
    unique_keys (db w')"
proof -
  obtain x w1 where consume: "consume_email_token E raw PURPOSE_CHANGE_EMAIL w = (Inr x, w1)"
    and rest: "bnd (get_user (et_user_id x)) (\<lambda>user. case (user, et_new_email x) of
       (Some u, Some address) \<Rightarrow>
         bnd (email_exists address) (\<lambda>taken.
         if taken then raise (err ConflictError ''That email address is already in use.'')
         else
           bnd (write_email u address (\<lambda>v. v\<lparr>u_is_verified := True\<rparr>)) (\<lambda>_.
           bnd flush (\<lambda>_.
           bnd (audit ''email_changed'' (Some (uuid_str (u_id u))) []) (\<lambda>_.
           ret (u\<lparr>u_email := address, u_is_verified := True\<rparr>)))))
     | _ \<Rightarrow> raise (err AuthError ''Invalid email-change token.'')) w1 = (Inr u', w')"
    using assms(3) by (auto simp: confirm_email_change_def bnd_eq_Inr)
  have verdict: "token_verdict (token_of E (db w) raw) PURPOSE_CHANGE_EMAIL (clock w) = Inr x"
    and users: "users (db w1) = users (db w)"
    using consume by (auto simp: consume_Inr [OF assms(1)] spend_token_def)
  from rest obtain u a where u: "List.find (\<lambda>v. u_id v = et_user_id x) (users (db w)) = Some u"
      and a: "et_new_email x = Some a" "\<forall>v \<in> set (users (db w)). lower (u_email v) \<noteq> lower a"
      and u': "u' = u\<lparr>u_email := a, u_is_verified := True\<rparr>"
      and w': "users (db w') = update_where (\<lambda>v. u_id v = u_id u) (\<lambda>v. v\<lparr>u_is_verified := True, u_email := a\<rparr>) (users (db w))"
    by (auto simp: bnd_def get_user_def db_query_def email_exists_def write_email_def write_user_def db_write_def
        flush_def audit_def users filter_empty_conv split: option.splits if_splits)
  have unique: "unique_keys (db w')"
    using unique_tables.both_confirm_email_change [of E raw] assms by (auto dest!: withinD bothD)
  from verdict obtain y where y: "token_of E (db w) raw = Some y" "et_new_email y = et_new_email x"
    by (auto simp: token_verdict_Inr)
  then have "y \<in> set (email_tokens (db w))" by (auto simp: token_of_def find_Some_iff)
  then have "lower a = a" using token_address_lower [OF assms(1)] y(2) a(1) by simp
  with verdict u a u' w' unique show ?thesis
    by (intro exI [of _ x] exI [of _ u]) (auto simp: find_Some_iff)
qed

theorem email_change_confirmed_witness:
  "\<exists>u' w'. confirm_email_change sample_env ''change'' sample_reset = (Inr u', w') \<and>
     u_email u' = ''new@example.org'' \<and> unique_keys (db w')"
proof -
  have verdict: "token_verdict (Some sample_change_token) PURPOSE_CHANGE_EMAIL (days 20000) =
      Inr (sample_change_token\<lparr>et_used_at := Some (days 20000)\<rparr>)"
    by (simp add: token_verdict_def sample_change_token_def time_defs)
  have addr: "lower ''new@example.org'' = ''new@example.org''" by code_simp
  let ?x = "sample_change_token\<lparr>et_used_at := Some (days 20000)\<rparr>"
  have "consume_email_token sample_env ''change'' PURPOSE_CHANGE_EMAIL sample_reset =
      (Inr ?x, sample_reset\<lparr>db := spend_token ?x (days 20000) (db sample_reset)\<rparr>)"
    by (simp add: consume_Inr verdict)
  then obtain u' w' where run: "confirm_email_change sample_env ''change'' sample_reset = (Inr u', w')"
    by (simp add: confirm_email_change_def bnd_def get_user_def db_query_def spend_token_def
        sample_change_token_def email_exists_def addr write_email_def write_user_def db_write_def flush_def audit_def)
  from email_change_confirmed [OF _ _ run] show ?thesis
    using run verdict by (auto simp: token_verdict_Inr sample_change_token_def)
qed

end
