(* ===== verification/OAuth_Providers.thy ===== *)
theory OAuth_Providers
  imports Email_Account
begin

text \<open>
  \<^verbatim>\<open>app/services/oauth\<close>, the providers: the authorization URL, the exchange of a code for an access
  token, the profile. What a provider answers is a parameter of the environment; reading its JSON
  follows Python, so that an answer of an unexpected shape raises where the code would. The locale
  \<open>oauth_provider\<close> is the abstract class: what the service relies on of a provider.
\<close>

section \<open>Reading JSON\<close>

text \<open>\<open>d[k]\<close> and \<open>d.get(k, default)\<close> on what \<open>resp.json()\<close> gives.\<close>

fun json_item :: "jval \<Rightarrow> string \<Rightarrow> exn + jval" where
  "json_item (JObj kvs) k = (case map_of kvs k of None \<Rightarrow> Inl KeyError | Some v \<Rightarrow> Inr v)"
| "json_item _ k = Inl TypeError"

fun json_get :: "jval \<Rightarrow> string \<Rightarrow> jval \<Rightarrow> exn + jval" where
  "json_get (JObj kvs) k d = Inr (case map_of kvs k of None \<Rightarrow> d | Some v \<Rightarrow> v)"
| "json_get _ k d = Inl OtherError"

text \<open>\<open>k in d\<close> for text \<open>k\<close>.\<close>

fun json_contains :: "jval \<Rightarrow> string \<Rightarrow> exn + bool" where
  "json_contains (JObj kvs) k = Inr (k \<in> fst ` set kvs)"
| "json_contains (JList xs) k = Inr (JStr k \<in> set xs)"
| "json_contains (JStr s) k = Inr (list_ex (\<lambda>i. take (length k) (drop i s) = k) [0..<Suc (length s)])"
| "json_contains _ k = Inl TypeError"

text \<open>\<open>str(v)\<close>; the text of a list or a dictionary is a parameter.\<close>

fun py_str :: "'r env \<Rightarrow> jval \<Rightarrow> string" where
  "py_str E (JStr s) = s"
| "py_str E (JInt i) = str_int i"
| "py_str E (JBool b) = (if b then ''True'' else ''False'')"
| "py_str E JNull = ''None''"
| "py_str E v = py_repr E v"

section \<open>HTTP\<close>

definition http_call :: "'r env \<Rightarrow> http_request \<Rightarrow> ('r world, http_response) prog" where
  "http_call E rq =
     bnd (draw (\<lambda>n. http_send E n rq)) (\<lambda>resp.
     case resp of None \<Rightarrow> raise OtherError | Some r \<Rightarrow> ret r)"

definition json_of :: "http_response \<Rightarrow> ('r world, jval) prog" where
  "json_of resp = (case hs_json resp of None \<Rightarrow> raise ValueError | Some v \<Rightarrow> ret v)"

section \<open>The providers\<close>

record user_info =
  ui_provider :: string
  ui_account_id :: string
  ui_email :: jval
  ui_name :: jval
  ui_email_verified :: bool

datatype provider_class = Google | GitHub

record provider =
  pr_class :: provider_class
  pr_client_id :: string
  pr_client_secret :: string

fun pr_name :: "provider_class \<Rightarrow> string" where
  "pr_name Google = ''google''"
| "pr_name GitHub = ''github''"

fun uses_pkce :: "provider_class \<Rightarrow> bool" where
  "uses_pkce Google = True"
| "uses_pkce GitHub = False"

fun authorize_endpoint :: "provider_class \<Rightarrow> string" where
  "authorize_endpoint Google = ''https://accounts.google.com/o/oauth2/v2/auth''"
| "authorize_endpoint GitHub = ''https://github.com/login/oauth/authorize''"

fun scope_of :: "provider_class \<Rightarrow> string" where
  "scope_of Google = ''openid email profile''"
| "scope_of GitHub = ''read:user user:email''"

definition authorization_url ::
    "'r env \<Rightarrow> provider \<Rightarrow> string \<Rightarrow> string \<Rightarrow> string option \<Rightarrow> string" where
  "authorization_url E p state redirect_uri code_challenge =
     (let params = [(''client_id'', pr_client_id p), (''redirect_uri'', redirect_uri),
            (''response_type'', ''code''), (''scope'', scope_of (pr_class p)), (''state'', state)];
          pkce = (if uses_pkce (pr_class p) \<and> \<not> falsy code_challenge
                  then [(''code_challenge'', the code_challenge), (''code_challenge_method'', ''S256'')]
                  else [])
      in authorize_endpoint (pr_class p) @ ''?'' @ urlencode E (params @ pkce))"

definition google_exchange ::
    "'r env \<Rightarrow> provider \<Rightarrow> string \<Rightarrow> string \<Rightarrow> string option \<Rightarrow> ('r world, jval) prog" where
  "google_exchange E p code redirect_uri code_verifier =
     (let data = [(''code'', code), (''client_id'', pr_client_id p), (''client_secret'', pr_client_secret p),
            (''redirect_uri'', redirect_uri), (''grant_type'', ''authorization_code'')] @
            (if falsy code_verifier then [] else [(''code_verifier'', the code_verifier)]) in
      bnd (http_call E \<lparr>hq_method = POST, hq_url = ''https://oauth2.googleapis.com/token'',
             hq_data = data, hq_headers = []\<rparr>) (\<lambda>resp.
      if hs_status resp \<noteq> 200
      then raise (err AuthError ''Failed to exchange Google authorization code.'')
      else bnd (json_of resp) (\<lambda>v. lift_sum (json_item v ''access_token''))))"

definition bearer :: "'r env \<Rightarrow> jval \<Rightarrow> string \<times> string" where
  "bearer E access_token = (''Authorization'', ''Bearer '' @ py_str E access_token)"

definition google_user_info :: "'r env \<Rightarrow> jval \<Rightarrow> ('r world, user_info) prog" where
  "google_user_info E access_token =
     bnd (http_call E \<lparr>hq_method = GET, hq_url = ''https://openidconnect.googleapis.com/v1/userinfo'',
            hq_data = [], hq_headers = [bearer E access_token]\<rparr>) (\<lambda>resp.
     if hs_status resp \<noteq> 200 then raise (err AuthError ''Failed to fetch Google profile.'')
     else
       bnd (json_of resp) (\<lambda>data.
       bnd (lift_sum (json_item data ''sub'')) (\<lambda>sub.
       bnd (lift_sum (json_get data ''email'' JNull)) (\<lambda>email.
       bnd (lift_sum (json_get data ''name'' (JStr []))) (\<lambda>name.
       bnd (lift_sum (json_get data ''email_verified'' (JBool False))) (\<lambda>verified.
       ret \<lparr>ui_provider = ''google'', ui_account_id = py_str E sub, ui_email = email,
            ui_name = name, ui_email_verified = truthy verified\<rparr>))))))"

definition github_exchange ::
    "'r env \<Rightarrow> provider \<Rightarrow> string \<Rightarrow> string \<Rightarrow> string option \<Rightarrow> ('r world, jval) prog" where
  "github_exchange E p code redirect_uri code_verifier =
     (let data = [(''code'', code), (''client_id'', pr_client_id p),
            (''client_secret'', pr_client_secret p), (''redirect_uri'', redirect_uri)] in
      bnd (http_call E \<lparr>hq_method = POST, hq_url = ''https://github.com/login/oauth/access_token'',
             hq_data = data, hq_headers = [(''Accept'', ''application/json'')]\<rparr>) (\<lambda>resp.
      if hs_status resp \<noteq> 200
      then raise (err AuthError ''Failed to exchange GitHub authorization code.'')
      else
        bnd (json_of resp) (\<lambda>v.
        bnd (lift_sum (json_contains v ''access_token'')) (\<lambda>there.
        if \<not> there then raise (err AuthError ''Failed to exchange GitHub authorization code.'')
        else lift_sum (json_item v ''access_token'')))))"

text \<open>\<open>next((e for e in emails if e.get("primary")), None)\<close>.\<close>

fun primary_of :: "jval list \<Rightarrow> exn + jval option" where
  "primary_of [] = Inr None"
| "primary_of (e # es) =
     (case json_get e ''primary'' JNull of
        Inl x \<Rightarrow> Inl x
      | Inr v \<Rightarrow> if truthy v then Inr (Some e) else primary_of es)"

fun primary_email :: "jval \<Rightarrow> exn + jval option" where
  "primary_email (JList es) = primary_of es"
| "primary_email (JObj kvs) = (if kvs = [] then Inr None else Inl OtherError)"
| "primary_email (JStr s) = (if s = [] then Inr None else Inl OtherError)"
| "primary_email _ = Inl TypeError"

definition github_user_info :: "'r env \<Rightarrow> jval \<Rightarrow> ('r world, user_info) prog" where
  "github_user_info E access_token =
     (let headers = [bearer E access_token, (''Accept'', ''application/vnd.github+json'')] in
      bnd (http_call E \<lparr>hq_method = GET, hq_url = ''https://api.github.com/user'',
             hq_data = [], hq_headers = headers\<rparr>) (\<lambda>resp.
      if hs_status resp \<noteq> 200 then raise (err AuthError ''Failed to fetch GitHub profile.'')
      else
        bnd (json_of resp) (\<lambda>profile.
        bnd (lift_sum (json_get profile ''email'' JNull)) (\<lambda>public.
        bnd (if public \<noteq> JNull then ret (public, False)
             else
               bnd (http_call E \<lparr>hq_method = GET, hq_url = ''https://api.github.com/user/emails'',
                      hq_data = [], hq_headers = headers\<rparr>) (\<lambda>emails_resp.
               if hs_status emails_resp \<noteq> 200 then ret (JNull, False)
               else
                 bnd (json_of emails_resp) (\<lambda>emails.
                 bnd (lift_sum (primary_email emails)) (\<lambda>primary.
                 case primary of
                   None \<Rightarrow> ret (JNull, False)
                 | Some e \<Rightarrow>
                     bnd (lift_sum (json_get e ''email'' JNull)) (\<lambda>email.
                     bnd (lift_sum (json_get e ''verified'' JNull)) (\<lambda>verified.
                     ret (email, truthy verified))))))) (\<lambda>(email, verified).
        bnd (lift_sum (json_item profile ''id'')) (\<lambda>i.
        bnd (lift_sum (json_get profile ''name'' JNull)) (\<lambda>name.
        bnd (if truthy name then ret name else lift_sum (json_get profile ''login'' (JStr []))) (\<lambda>shown.
        ret \<lparr>ui_provider = ''github'', ui_account_id = py_str E i, ui_email = email,
             ui_name = shown, ui_email_verified = verified\<rparr>))))))))"

definition exchange_code ::
    "'r env \<Rightarrow> provider \<Rightarrow> string \<Rightarrow> string \<Rightarrow> string option \<Rightarrow> ('r world, jval) prog" where
  "exchange_code E p = (case pr_class p of Google \<Rightarrow> google_exchange E p | GitHub \<Rightarrow> github_exchange E p)"

definition fetch_user_info :: "'r env \<Rightarrow> provider \<Rightarrow> jval \<Rightarrow> ('r world, user_info) prog" where
  "fetch_user_info E p = (case pr_class p of Google \<Rightarrow> google_user_info E | GitHub \<Rightarrow> github_user_info E)"

section \<open>The registry\<close>

definition get_provider :: "settings \<Rightarrow> string \<Rightarrow> provider option" where
  "get_provider c name =
     (if name = ''google'' \<and> GOOGLE_CLIENT_ID c \<noteq> [] \<and> GOOGLE_CLIENT_SECRET c \<noteq> []
      then Some \<lparr>pr_class = Google, pr_client_id = GOOGLE_CLIENT_ID c, pr_client_secret = GOOGLE_CLIENT_SECRET c\<rparr>
      else if name = ''github'' \<and> GITHUB_CLIENT_ID c \<noteq> [] \<and> GITHUB_CLIENT_SECRET c \<noteq> []
      then Some \<lparr>pr_class = GitHub, pr_client_id = GITHUB_CLIENT_ID c, pr_client_secret = GITHUB_CLIENT_SECRET c\<rparr>
      else None)"

definition available_providers :: "settings \<Rightarrow> string list" where
  "available_providers c = filter (\<lambda>name. get_provider c name \<noteq> None) [''google'', ''github'']"

section \<open>The contract of a provider\<close>

text \<open>Random draws, and nothing else.\<close>

definition but_draws :: "'r world \<Rightarrow> 'r world \<Rightarrow> bool" where
  "but_draws w w' \<longleftrightarrow> (\<exists>n. w' = w\<lparr>draws := n\<rparr>)"

interpretation but_draws: frame but_draws
  by unfold_locales (auto simp: but_draws_def)

lemma but_draws_http: "within but_draws (http_call E rq)" "within but_draws (json_of r)"
  unfolding http_call_def json_of_def
  by (intro but_draws.frame_rules; auto simp: within_def draw_def but_draws_def)+

text \<open>
  What the service relies on: talking to a provider touches nothing of the server's state, and the
  profile is of this provider.
\<close>

locale oauth_provider =
  fixes exchange :: "string \<Rightarrow> string \<Rightarrow> string option \<Rightarrow> ('r world, jval) prog"
    and user_info :: "jval \<Rightarrow> ('r world, user_info) prog"
    and name :: string
  assumes exchange_blind: "within but_draws (exchange code uri verifier)"
    and user_info_blind: "within but_draws (user_info tok)"
    and user_info_provider: "user_info tok w = (Inr info, w') \<Longrightarrow> ui_provider info = name"
begin

text \<open>The two calls of a callback.\<close>

lemma runs_profile:
  assumes "\<And>info w'. but_draws w w' \<Longrightarrow> ui_provider info = name \<Longrightarrow> S info w'"
    and "\<And>e w'. but_draws w w' \<Longrightarrow> F e w'"
  shows "runs (bnd (exchange code uri verifier) user_info) w S F"
proof -
  have info: "runs (user_info tok) w1 (\<lambda>info w'. but_draws w1 w' \<and> ui_provider info = name) (\<lambda>_ w'. but_draws w1 w')" for tok w1
    using user_info_blind [of tok] user_info_provider [of tok w1]
    by (auto simp: runs_def dest: withinD split: prod.splits sum.splits)
  show ?thesis
    by (rule runs_bnd, rule runs_mono [OF runs_within [OF exchange_blind]])
       (auto intro!: runs_mono [OF info] intro: assms but_draws.T_trans)
qed

end

lemma provider_blind:
  "within but_draws (google_exchange E p c u v)" "within but_draws (google_user_info E tok)"
  "within but_draws (github_exchange E p c u v)" "within but_draws (github_user_info E tok)"
  unfolding google_exchange_def google_user_info_def github_exchange_def github_user_info_def Let_def
  by (intro but_draws.frame_rules but_draws_http)+

lemma provider_named:
  "google_user_info E tok w = (Inr info, w') \<Longrightarrow> ui_provider info = ''google''"
  "github_user_info E tok w = (Inr info, w') \<Longrightarrow> ui_provider info = ''github''"
  by (auto simp: google_user_info_def github_user_info_def bnd_eq_Inr Let_def ret_def
      split: if_splits prod.splits)

interpretation google: oauth_provider "google_exchange E p" "google_user_info E" "''google''" for E p
  by unfold_locales (erule provider_blind provider_named | rule provider_blind)+

interpretation github: oauth_provider "github_exchange E p" "github_user_info E" "''github''" for E p
  by unfold_locales (erule provider_blind provider_named | rule provider_blind)+

text \<open>The provider an instance dispatches to has the contract too.\<close>

lemma dispatch:
  "exchange_code E p = (if pr_class p = Google then google_exchange E p else github_exchange E p)"
  "fetch_user_info E p = (if pr_class p = Google then google_user_info E else github_user_info E)"
  "pr_name (pr_class p) = (if pr_class p = Google then ''google'' else ''github'')"
  by (cases "pr_class p"; simp add: exchange_code_def fetch_user_info_def)+

interpretation dispatched: oauth_provider "exchange_code E p" "fetch_user_info E p" "pr_name (pr_class p)" for E p
  by unfold_locales (auto simp: dispatch dest: provider_named intro: provider_blind split: if_splits)

lemma get_provider_name: "get_provider c name = Some p \<Longrightarrow> pr_name (pr_class p) = name"
  by (auto simp: get_provider_def split: if_splits)

end
