(* ===== verification/OAuth_Service.thy ===== *)
theory OAuth_Service
  imports OAuth_Providers
begin

text \<open>
  \<^verbatim>\<open>app/services/oauth/service.py\<close>: the start of an authorization, which leaves a single-use state in
  Redis, and the callback, which finds, links or creates the account. \<open>finish_callback\<close> is the
  callback from the point where the provider has answered.
\<close>

section \<open>The service\<close>

text \<open>\<open>rstrip("=")\<close> of the digest's base64 text.\<close>

definition pkce_challenge :: "'r env \<Rightarrow> string \<Rightarrow> string" where
  "pkce_challenge E verifier = rev (dropWhile (\<lambda>c. c = CHR ''='') (rev (sha256_b64url E verifier)))"

definition redirect_uri :: "settings \<Rightarrow> string \<Rightarrow> string" where
  "redirect_uri c provider =
     OAUTH_REDIRECT_BASE_URL c @ API_V1_PREFIX c @ ''/auth/oauth/'' @ provider @ ''/callback''"

definition provider_or_404 :: "'r env \<Rightarrow> string \<Rightarrow> ('r world, provider) prog" where
  "provider_or_404 E name =
     (case get_provider (cfg E) name of
        None \<Rightarrow> raise (err NotFoundError (''OAuth provider '' @ [CHR 0x27] @ name @ [CHR 0x27] @ '' is not available.''))
      | Some p \<Rightarrow> ret p)"

text \<open>A text or null, as the services expect it; anything else raises where it is used.\<close>

fun text_or_null :: "jval \<Rightarrow> exn + string option" where
  "text_or_null JNull = Inr None"
| "text_or_null (JStr s) = Inr (Some s)"
| "text_or_null _ = Inl OtherError"

definition opt_text :: "string option \<Rightarrow> jval" where
  "opt_text v = (case v of None \<Rightarrow> JNull | Some s \<Rightarrow> JStr s)"

definition start_authorization ::
    "'r env \<Rightarrow> string \<Rightarrow> string \<Rightarrow> string option \<Rightarrow> ('r world, string) prog" where
  "start_authorization E provider_name mode link_user_id =
     bnd (provider_or_404 E provider_name) (\<lambda>provider.
     bnd (draw (token_urlsafe E 24)) (\<lambda>state.
     bnd (if uses_pkce (pr_class provider) then bnd (draw (token_urlsafe E 48)) (\<lambda>v. ret (Some v)) else ret None) (\<lambda>code_verifier.
     bnd (redis_set E (oauth_state_key state)
            (json_dumps E (JObj [(''provider'', JStr provider_name), (''code_verifier'', opt_text code_verifier),
               (''mode'', JStr mode), (''link_user_id'', opt_text link_user_id)]))
            (OAUTH_STATE_TTL_SECONDS (cfg E))) (\<lambda>_.
     ret (authorization_url E provider state (redirect_uri (cfg E) provider_name)
            (if falsy code_verifier then None else Some (pkce_challenge E (the code_verifier))))))))"

definition pop_state :: "'r env \<Rightarrow> string \<Rightarrow> string \<Rightarrow> ('r world, jval) prog" where
  "pop_state E state provider_name =
     bnd (redis_get E (oauth_state_key state)) (\<lambda>raw.
     case raw of
       None \<Rightarrow> raise (err AuthError ''Invalid or expired OAuth state.'')
     | Some txt \<Rightarrow>
         bnd (redis_delete E (oauth_state_key state)) (\<lambda>_.
         bnd (case json_loads E txt of None \<Rightarrow> raise ValueError | Some v \<Rightarrow> ret v) (\<lambda>payload.
         bnd (lift_sum (json_get payload ''provider'' JNull)) (\<lambda>p.
         if p \<noteq> JStr provider_name then raise (err AuthError ''OAuth state does not match provider.'')
         else ret payload))))"

definition link_taken :: "string \<Rightarrow> string" where
  "link_taken provider =
     ''An account with this email already exists. Sign in with your password and link '' @ provider @
     '' from account settings.''"

definition resolve_user ::
    "'r env \<Rightarrow> user_info \<Rightarrow> jval \<Rightarrow> jval \<Rightarrow> ('r world, user_row) prog" where
  "resolve_user E info mode link_user_id =
     (if mode = JStr ''link'' \<and> truthy link_user_id then
        bnd (case link_user_id of
               JStr s \<Rightarrow> (case uuid_of_str s of None \<Rightarrow> raise ValueError | Some i \<Rightarrow> ret i)
             | _ \<Rightarrow> raise OtherError) (\<lambda>i.
        bnd (get_user i) (\<lambda>user.
        case user of
          None \<Rightarrow> raise (err AuthError ''Account to link no longer exists.'')
        | Some u \<Rightarrow> ret u))
      else if \<not> truthy (ui_email info)
      then raise (err AuthError ''The provider did not return an email address.'')
      else
        bnd (case ui_email info of JStr s \<Rightarrow> ret s | _ \<Rightarrow> raise OtherError) (\<lambda>email.
        bnd (get_by_email email) (\<lambda>existing.
        case existing of
          Some u \<Rightarrow>
            if ui_email_verified info \<and> u_is_verified u then ret u
            else raise (err ConflictError (link_taken (ui_provider info)))
        | None \<Rightarrow>
            bnd (draw (token_urlsafe E 32)) (\<lambda>password.
            bnd (hash_password E password) (\<lambda>hashed.
            bnd (get_by_name DEFAULT_ROLE) (\<lambda>default_role.
            bnd (if \<not> truthy (ui_name info) then ret []
                 else case ui_name info of JStr s \<Rightarrow> ret s | _ \<Rightarrow> raise OtherError) (\<lambda>full_name.
            bnd (draw (uuid7 E)) (\<lambda>i.
            bnd now (\<lambda>t.
            let user = \<lparr>u_id = i, u_email = lower email, u_hashed_password = hashed,
                  u_full_name = full_name, u_is_active = True, u_is_verified = ui_email_verified info,
                  u_is_superuser = False, u_created_at = t\<rparr> in
            bnd (add_user user) (\<lambda>_.
            bnd (case default_role of None \<Rightarrow> ret () | Some r \<Rightarrow> append_role i r) (\<lambda>_.
            ret user))))))))))) "

definition finish_callback ::
    "'r env \<Rightarrow> string \<Rightarrow> user_info \<Rightarrow> jval \<Rightarrow> jval \<Rightarrow> ('r world, user_row \<times> jval) prog" where
  "finish_callback E provider_name info mode link_user_id =
     bnd (get_by_provider_account provider_name (ui_account_id info)) (\<lambda>account.
     case account of
       Some a \<Rightarrow>
         if mode = JStr ''link'' \<and> truthy link_user_id \<and> JStr (uuid_str (oa_user_id a)) \<noteq> link_user_id
         then raise (err ConflictError ''This provider account is already linked to another user.'')
         else
           bnd (get_user (oa_user_id a)) (\<lambda>user.
           case user of
             None \<Rightarrow> raise (err AuthError ''Linked account no longer exists.'')
           | Some u \<Rightarrow>
               bnd (audit ''oauth_login'' (Some (uuid_str (u_id u))) [(''provider'', JStr provider_name)]) (\<lambda>_.
               ret (u, mode)))
     | None \<Rightarrow>
         bnd (resolve_user E info mode link_user_id) (\<lambda>u.
         bnd (lift_sum (text_or_null (ui_email info))) (\<lambda>email.
         bnd (draw (uuid7 E)) (\<lambda>i.
         bnd now (\<lambda>t.
         bnd (add_oauth_account \<lparr>oa_id = i, oa_user_id = u_id u, oa_provider = provider_name,
                oa_provider_account_id = ui_account_id info, oa_email = email, oa_created_at = t\<rparr>) (\<lambda>_.
         bnd (audit (if mode = JStr ''link'' then ''oauth_account_linked'' else ''oauth_signup'')
                (Some (uuid_str (u_id u))) [(''provider'', JStr provider_name)]) (\<lambda>_.
         ret (u, mode))))))))"

definition handle_callback ::
    "'r env \<Rightarrow> string \<Rightarrow> string \<Rightarrow> string \<Rightarrow> ('r world, user_row \<times> jval) prog" where
  "handle_callback E provider_name code state =
     bnd (pop_state E state provider_name) (\<lambda>payload.
     bnd (provider_or_404 E provider_name) (\<lambda>provider.
     bnd (lift_sum (json_get payload ''code_verifier'' JNull)) (\<lambda>cv.
     bnd (lift_sum (text_or_null cv)) (\<lambda>code_verifier.
     bnd (exchange_code E provider code (redirect_uri (cfg E) provider_name) code_verifier) (\<lambda>access_token.
     bnd (fetch_user_info E provider access_token) (\<lambda>info.
     bnd (lift_sum (json_get payload ''mode'' (JStr ''login''))) (\<lambda>mode.
     bnd (lift_sum (json_get payload ''link_user_id'' JNull)) (\<lambda>link_user_id.
     finish_callback E provider_name info mode link_user_id))))))))"

definition list_links :: "user_row \<Rightarrow> ('r world, oauth_account_row list) prog" where
  "list_links user = list_accounts_for_user (u_id user)"

section \<open>What the operations touch\<close>

lemmas oauth_defs =
  provider_or_404_def start_authorization_def pop_state_def resolve_user_def finish_callback_def
  handle_callback_def list_links_def

context world_frame
begin

lemma http [intro]: "within T (http_call E rq)" "within T (json_of r)"
  unfolding http_call_def json_of_def by (intro world_rules)+

lemma each_provider:
  "within T (google_exchange E p c u v)" "within T (google_user_info E tok)"
  "within T (github_exchange E p c u v)" "within T (github_user_info E tok)"
  unfolding google_exchange_def google_user_info_def github_exchange_def github_user_info_def Let_def
  by (intro world_rules http)+

lemma provider_calls [intro]:
  "within T (exchange_code E p c u v)" "within T (fetch_user_info E p tok)"
  by (cases "pr_class p = Google"; simp add: dispatch each_provider)+

lemma provider_or_404 [intro]: "within T (provider_or_404 E n)"
  unfolding provider_or_404_def by (intro world_rules)

lemma jval_cases [intro]:
  "within T (case v of JStr s \<Rightarrow> ret s | _ \<Rightarrow> raise e)"
  "within T (case v of JStr s \<Rightarrow> (case f s of None \<Rightarrow> raise e' | Some i \<Rightarrow> ret i) | _ \<Rightarrow> raise e)"
  by (cases v; auto intro: world_rules split: option.split simp del: ret_run raise_run)+

end

context blind_frame
begin

lemma oauth_states [intro]:
  "within T (start_authorization E n m l)" "within T (pop_state E st n)"
  unfolding start_authorization_def pop_state_def by (intro blind_rules provider_or_404)+

end

context free_frame
begin

lemma oauth_ops [intro]:
  "within T (resolve_user E info m l)" "within T (finish_callback E n info m l)"
  "within T (handle_callback E n c st)" "within T (list_links u)"
proof -
  show resolve: "within T (resolve_user E info m l)" for info m l
    unfolding resolve_user_def Let_def by (intro free_rules jval_cases security_ops)
  show finish: "within T (finish_callback E n info m l)" for info m l
    unfolding finish_callback_def by (intro free_rules resolve)
  show "within T (handle_callback E n c st)"
    unfolding handle_callback_def by (intro free_rules finish oauth_states provider_or_404 provider_calls)
  show "within T (list_links u)"
    unfolding list_links_def by (intro free_rules)
qed

end

context table_invariant
begin

lemma both_oauth_ops [intro]:
  "within (both I) (resolve_user E info m l)" "within (both I) (finish_callback E n info m l)"
  "within (both I) (handle_callback E n c st)"
proof -
  show resolve: "within (both I) (resolve_user E info m l)" for info m l
    unfolding resolve_user_def Let_def
    by (intro both_rules both.jval_cases both.security_ops both_inserts(1) | simp)+
  show finish: "within (both I) (finish_callback E n info m l)" for info m l
    unfolding finish_callback_def by (intro both_rules resolve both_inserts(6))
  show "within (both I) (handle_callback E n c st)"
    unfolding handle_callback_def
    by (intro both_rules finish both.oauth_states both.provider_or_404 both.provider_calls)
qed

end

section \<open>Outcomes\<close>

text \<open>What the state stored for an authorization comes to when it is popped.\<close>

definition pop_verdict :: "'r env \<Rightarrow> string \<Rightarrow> string option \<Rightarrow> exn + jval" where
  "pop_verdict E name stored =
     (case stored of
        None \<Rightarrow> Inl (err AuthError ''Invalid or expired OAuth state.'')
      | Some txt \<Rightarrow>
          (case json_loads E txt of
             None \<Rightarrow> Inl ValueError
           | Some payload \<Rightarrow>
               (case json_get payload ''provider'' JNull of
                  Inl e \<Rightarrow> Inl e
                | Inr p \<Rightarrow> if p \<noteq> JStr name then Inl (err AuthError ''OAuth state does not match provider.'')
                     else Inr payload)))"

text \<open>\<open>json.loads\<close> reads back an object of texts and nulls that \<open>json.dumps\<close> has written.\<close>

definition json_sound :: "'r env \<Rightarrow> bool" where
  "json_sound E \<longleftrightarrow> (\<forall>kvs. distinct (List.map fst kvs) \<and> (\<forall>kv \<in> set kvs. text_or_null (snd kv) \<noteq> Inl OtherError) \<longrightarrow>
     json_loads E (json_dumps E (JObj kvs)) = Some (JObj kvs))"

definition state_payload :: "string \<Rightarrow> string option \<Rightarrow> string \<Rightarrow> string option \<Rightarrow> jval" where
  "state_payload name verifier mode link =
     JObj [(''provider'', JStr name), (''code_verifier'', opt_text verifier),
       (''mode'', JStr mode), (''link_user_id'', opt_text link)]"

lemma text_or_null_opt_text [simp]: "text_or_null (opt_text v) = Inr v"
  by (cases v) (simp_all add: opt_text_def)

lemma json_state_payload: "json_sound E \<Longrightarrow> json_loads E (json_dumps E (state_payload n v m l)) = Some (state_payload n v m l)"
  by (simp add: json_sound_def state_payload_def)

context redis_env
begin

lemma runs_pop_state:
  assumes "up (redis w)" and "seen w (oauth_state_key st) = map_option Text v"
    and "v = None \<Longrightarrow> \<forall>t \<ge> clock w. val (redis w) t (oauth_state_key st) = None"
  shows "runs (pop_state E st n) w
    (\<lambda>x w'. pop_verdict E n v = Inr x \<and> clock w' = clock w \<and> up (redis w') \<and>
       (\<forall>t \<ge> clock w. val (redis w') t (oauth_state_key st) = None))
    (\<lambda>e w'. pop_verdict E n v = Inl e \<and> clock w' = clock w \<and> up (redis w') \<and>
       (\<forall>t \<ge> clock w. val (redis w') t (oauth_state_key st) = None))"
  unfolding pop_state_def
  apply (intro runs_intros runs_redis_get runs_redis_delete)
  using assms
  apply (auto simp: pop_verdict_def redis_upd_fields redis_upd_val split: option.splits)
  done

lemma runs_start_authorization:
  assumes "up (redis w)" and "sane (cfg E)"
  shows "runs (start_authorization E n m l) w
    (\<lambda>url w'. \<exists>p v. get_provider (cfg E) n = Some p \<and> (v \<noteq> None \<longleftrightarrow> uses_pkce (pr_class p)) \<and>
       url = authorization_url E p (token_urlsafe E 24 (draws w)) (redirect_uri (cfg E) n)
         (if falsy v then None else Some (pkce_challenge E (the v))) \<and> clock w' = clock w \<and> up (redis w') \<and>
       (\<forall>t \<ge> clock w. val (redis w') t (oauth_state_key (token_urlsafe E 24 (draws w))) =
          (if t < clock w + seconds (OAUTH_STATE_TTL_SECONDS (cfg E))
           then Some (Text (json_dumps E (state_payload n v m l))) else None)))
    (\<lambda>_ _. True)"
  unfolding start_authorization_def provider_or_404_def
  apply (intro runs_intros runs_redis_set saneD assms TrueI)
  using assms(1)
  apply (auto simp: redis_upd_fields redis_upd_val state_payload_def)
  done

end

text \<open>
  Where the account of a callback comes from, if the provider's account is not linked yet: the
  user who started the linking; the user with the address of the profile, where both sides have
  verified it; or a new account.
\<close>

definition linked_by :: "database \<Rightarrow> string \<Rightarrow> string \<Rightarrow> user_row \<Rightarrow> bool" where
  "linked_by d provider account u \<longleftrightarrow> u \<in> set (users d) \<and>
     (\<exists>a \<in> set (oauth_accounts d). oa_provider a = provider \<and> oa_provider_account_id a = account \<and> oa_user_id a = u_id u)"

definition resolved ::
    "database \<Rightarrow> database \<Rightarrow> user_info \<Rightarrow> jval \<Rightarrow> jval \<Rightarrow> user_row \<Rightarrow> bool" where
  "resolved d d' info mode link u \<longleftrightarrow>
     mode = JStr ''link'' \<and> (\<exists>s. link = JStr s \<and> uuid_of_str s = Some (u_id u)) \<and>
       u \<in> set (users d) \<and> users d' = users d \<or>
     (\<exists>em. ui_email info = JStr em \<and> ui_email_verified info \<and> u_is_verified u \<and>
       lower (u_email u) = lower em) \<and> u \<in> set (users d) \<and> users d' = users d \<or>
     (\<exists>em. ui_email info = JStr em \<and> u_email u = lower em) \<and> users d' = users d @ [u] \<and>
       (\<forall>x \<in> set (users d). lower (u_email x) \<noteq> u_email u) \<and>
       u_is_verified u = ui_email_verified info \<and> \<not> u_is_superuser u"

lemma resolved_in: "resolved d d' info mode link u \<Longrightarrow> u \<in> set (users d')"
  by (auto simp: resolved_def)

lemma runs_jval_cases [runs_intros]:
  "(\<And>s. v = JStr s \<Longrightarrow> S s w) \<Longrightarrow> F e w \<Longrightarrow> runs (case v of JStr s \<Rightarrow> ret s | _ \<Rightarrow> raise e) w S F"
  "(\<And>s i. v = JStr s \<Longrightarrow> f s = Some i \<Longrightarrow> S' i w) \<Longrightarrow> F e w \<Longrightarrow> F e' w \<Longrightarrow>
     runs (case v of JStr s \<Rightarrow> (case f s of None \<Rightarrow> raise e' | Some i \<Rightarrow> ret i) | _ \<Rightarrow> raise e) w S' F"
  by (cases v; auto simp: runs_def split: option.split)+

lemma runs_resolve_user:
  assumes "unique_keys (db w)"
  shows "runs (resolve_user E info mode link) w
    (\<lambda>u w'. resolved (db w) (db w') info mode link u \<and> oauth_accounts (db w') = oauth_accounts (db w)) (\<lambda>_ _. True)"
proof -
  have by_email: "lower (u_email u) = lower em \<and> u \<in> set (users (db w))"
    if "List.find (\<lambda>u. lower (u_email u) = lower em) (users (db w)) = Some u" for em u
    using that by (auto simp: find_Some_iff)
  have no_email: "\<forall>x \<in> set (users (db w)). lower (u_email x) \<noteq> lower em"
    if "List.find (\<lambda>u. lower (u_email u) = lower em) (users (db w)) = None" for em
    using that by (auto simp: find_None_iff)
  show ?thesis
    unfolding resolve_user_def Let_def get_by_name_def add_user_def
    apply (intro runs_intros runs_get_user runs_get_by_email runs_insert_row assms TrueI)
    apply (auto simp: resolved_def dest: by_email no_email)
    done
qed

lemma runs_get_by_provider:
  assumes "unique_keys (db w)"
    and "S (List.find (\<lambda>a. oa_provider a = n \<and> oa_provider_account_id a = i) (oauth_accounts (db w))) w"
  shows "runs (get_by_provider_account n i) w S F"
  using account_by_provider.unique [of w "(n, i)"] assms by (simp add: runs_def unique_keys_def)

lemma account_found:
  "List.find (\<lambda>a. oa_provider a = n \<and> oa_provider_account_id a = i) xs = Some a \<Longrightarrow>
     a \<in> set xs \<and> oa_provider a = n \<and> oa_provider_account_id a = i"
  by (auto simp: find_Some_iff)

lemma runs_finish_callback:
  assumes "unique_keys (db w)"
  shows "runs (finish_callback E n info mode link) w
    (\<lambda>(u, m) w'. m = mode \<and> linked_by (db w') n (ui_account_id info) u \<and>
       (linked_by (db w) n (ui_account_id info) u \<and> users (db w') = users (db w) \<or>
        resolved (db w) (db w') info mode link u))
    (\<lambda>_ _. True)"
  unfolding finish_callback_def add_oauth_account_def
  apply (intro runs_intros runs_get_by_provider runs_get_user runs_mono [OF runs_resolve_user]
      runs_insert_row assms TrueI)
  apply (auto simp: linked_by_def resolved_def dest: account_found)
  done

text \<open>Later callbacks of a linked provider account log in the same user.\<close>

lemma finish_linked:
  assumes unique: "unique_keys (db v)" and linked: "linked_by (db v) n (ui_account_id info) u"
  shows "map_sum id fst (fst (finish_callback E n info (JStr ''login'') l v)) = Inr u"
proof -
  obtain a where a: "a \<in> set (oauth_accounts (db v))" "oa_provider a = n"
      "oa_provider_account_id a = ui_account_id info" "oa_user_id a = u_id u"
    using linked by (auto simp: linked_by_def)
  have "List.find (\<lambda>a. (oa_provider a, oa_provider_account_id a) = (n, ui_account_id info)) (oauth_accounts (db v)) = Some a"
    using unique a by (intro find_key) (auto simp: unique_keys_def)
  moreover have "List.find (\<lambda>x. u_id x = u_id u) (users (db v)) = Some u"
    using unique linked by (intro find_key) (auto simp: unique_keys_def linked_by_def)
  ultimately show ?thesis
    using account_by_provider.unique [of v "(n, ui_account_id info)"] unique a(4)
    by (simp add: finish_callback_def bnd_def get_user_def db_query_def audit_def unique_keys_def)
qed

text \<open>What happens before the tables are looked at leaves them alone.\<close>

lemma runs_provider:
  assumes "\<And>info w'. db w' = db w \<Longrightarrow> committed w' = committed w \<Longrightarrow> ui_provider info = pr_name (pr_class p) \<Longrightarrow>
      runs (f info) w' S F"
    and "\<And>e w'. F e w'"
  shows "runs (bnd (exchange_code E p c u v) (\<lambda>tok. bnd (fetch_user_info E p tok) f)) w S F"
  unfolding bnd_assoc [symmetric]
  by (rule runs_bnd, rule dispatched.runs_profile) (auto simp: but_draws_def intro: assms)

lemma runs_popped:
  "runs (pop_state E st n) w (\<lambda>x w'. json_get x ''provider'' JNull = Inr (JStr n) \<and> db w' = db w \<and> committed w' = committed w)
     (\<lambda>_ _. True)"
proof -
  have "runs (pop_state E st n) w (\<lambda>x w'. json_get x ''provider'' JNull = Inr (JStr n)) (\<lambda>_ _. True)"
    unfolding pop_state_def redis_ops by (intro runs_intros runs_redis_blind TrueI) auto
  from runs_conj [OF this runs_within [OF same_tables.oauth_states(2)]] show ?thesis
    by (rule runs_mono) auto
qed

section \<open>What the service promises\<close>

lemma json_sound_sample [simp]: "json_sound sample_env"
  by (simp add: json_sound_def)

text \<open>The sample environment with GitHub configured, and a GitHub that answers.\<close>

definition sample_github :: "nat \<Rightarrow> http_request \<Rightarrow> http_response option" where
  "sample_github n rq = Some \<lparr>hs_status = 200, hs_json = Some (JObj
     [(''access_token'', JStr ''gho''), (''id'', JInt 5), (''email'', JStr ''Cy@Example.org''), (''login'', JStr ''cy'')])\<rparr>"

definition sample_oauth :: "ref_store env" where
  "sample_oauth = sample_env\<lparr>cfg := default_settings\<lparr>GITHUB_CLIENT_ID := ''id'', GITHUB_CLIENT_SECRET := ''secret''\<rparr>,
     http_send := sample_github\<rparr>"

interpretation sample_oauth: redis_env sample_oauth ref_val "\<lambda>s. faults s = []"
  using ref_env.redis_env_axioms [of sample_oauth] by (simp add: sample_oauth_def sample_env_def)

lemma sample_oauth_simps [simp]:
  "json_sound sample_oauth" "rds sample_oauth = ref_redis" "token_urlsafe sample_oauth b n = ''token'' @ str_nat n"
  "get_provider (cfg sample_oauth) ''github'' = Some \<lparr>pr_class = GitHub, pr_client_id = ''id'', pr_client_secret = ''secret''\<rparr>"
  "http_send sample_oauth = sample_github" "json_dumps sample_oauth v = tally v"
  "json_loads sample_oauth x = Some (untally x)" "uuid7 sample_oauth n = of_nat (2 * n + 2)"
  "pwd_hash sample_oauth n p = ''argon2:'' @ p" "OAUTH_STATE_TTL_SECONDS (cfg sample_oauth) = 600"
  by (simp_all add: sample_oauth_def json_sound_def get_provider_def)

lemma sane_sample_oauth [simp]: "sane (cfg sample_oauth)"
  by (simp add: sample_oauth_def sane_def)

text \<open>
  C12. The state of an authorization: what the start has stored (the provider, the PKCE verifier whose
  challenge is in the URL, the mode and the user to link) comes back with the state until the
  state expires, only for the same provider, and only once: the first attempt to use it, even
  with another provider, makes it invalid for ever.
\<close>

theorem oauth_state_single_use:
  assumes "redis_env E val up" and "up (redis w)" and "json_sound E" and "sane (cfg E)"
    and "start_authorization E name mode link w = (Inr url, w')" and "0 \<le> d" and "0 \<le> d'"
  defines "state \<equiv> token_urlsafe E 24 (draws w)"
  shows "\<exists>p v. get_provider (cfg E) name = Some p \<and> (v \<noteq> None \<longleftrightarrow> uses_pkce (pr_class p)) \<and>
    url = authorization_url E p state (redirect_uri (cfg E) name)
      (if falsy v then None else Some (pkce_challenge E (the v))) \<and>
    fst (pop_state E state name' (tick d w')) =
      (if seconds (OAUTH_STATE_TTL_SECONDS (cfg E)) \<le> d then Inl (err AuthError ''Invalid or expired OAuth state.'')
       else if name' \<noteq> name then Inl (err AuthError ''OAuth state does not match provider.'')
       else Inr (state_payload name v mode link)) \<and>
    fst (pop_state E state name'' (tick d' (snd (pop_state E state name' (tick d w'))))) =
      Inl (err AuthError ''Invalid or expired OAuth state.'')"
proof -
  let ?k = "oauth_state_key state"
  from runs_InrD [OF redis_env.runs_start_authorization [OF assms(1,2,4)] assms(5)] obtain p v where
    url: "get_provider (cfg E) name = Some p" "v \<noteq> None \<longleftrightarrow> uses_pkce (pr_class p)"
      "url = authorization_url E p state (redirect_uri (cfg E) name)
         (if falsy v then None else Some (pkce_challenge E (the v)))"
    and w': "clock w' = clock w" "up (redis w')"
      "\<And>t. clock w \<le> t \<Longrightarrow> val (redis w') t ?k = (if t < clock w + seconds (OAUTH_STATE_TTL_SECONDS (cfg E))
         then Some (Text (json_dumps E (state_payload name v mode link))) else None)"
    unfolding state_def by auto
  define stored where "stored = (if d < seconds (OAUTH_STATE_TTL_SECONDS (cfg E))
    then Some (json_dumps E (state_payload name v mode link)) else None)"
  have seen: "val (redis w') (clock w + d) ?k = map_option Text stored"
      "stored = None \<Longrightarrow> \<forall>t \<ge> clock w + d. val (redis w') t ?k = None"
    using w'(3) assms(6) by (auto simp: stored_def)
  obtain r w1 where first: "pop_state E state name' (tick d w') = (r, w1)" by (cases "pop_state E state name' (tick d w')")
  have pop: "r = pop_verdict E name' stored \<and> clock w1 = clock w + d \<and> up (redis w1) \<and>
      (\<forall>t \<ge> clock w + d. val (redis w1) t ?k = None)"
    using redis_env.runs_pop_state [OF assms(1), of "tick d w'" state stored name'] w'(1,2) seen first
    by (cases r) (simp_all add: runs_def)
  have "fst (pop_state E state name'' (tick d' w1)) = pop_verdict E name'' None"
    using redis_env.runs_pop_state [OF assms(1), of "tick d' w1" state None name''] pop assms(7)
    by (auto simp: runs_def split: prod.splits sum.splits)
  moreover have "r = (if seconds (OAUTH_STATE_TTL_SECONDS (cfg E)) \<le> d then Inl (err AuthError ''Invalid or expired OAuth state.'')
       else if name' \<noteq> name then Inl (err AuthError ''OAuth state does not match provider.'')
       else Inr (state_payload name v mode link))"
    using pop json_state_payload [OF assms(3)] by (auto simp: pop_verdict_def stored_def state_payload_def)
  ultimately show ?thesis
    using url first by (auto simp: pop_verdict_def)
qed

theorem oauth_state_single_use_witness:
  "\<exists>url w'. start_authorization sample_oauth ''github'' ''login'' None sample_world = (Inr url, w') \<and>
     fst (pop_state sample_oauth ''token0'' ''github'' (tick (seconds 599) w')) =
       Inr (state_payload ''github'' None ''login'' None) \<and>
     fst (pop_state sample_oauth ''token0'' ''github'' (tick (seconds 600) w')) =
       Inl (err AuthError ''Invalid or expired OAuth state.'')"
proof -
  have token: "str_nat 0 = ''0''" by code_simp
  obtain url w' where run: "start_authorization sample_oauth ''github'' ''login'' None sample_world = (Inr url, w')"
    by (simp add: start_authorization_def provider_or_404_def bnd_def draw_def redis_ops redis_call_def ref_redis_def
        unless_fault_def)
  have "seconds 599 < seconds 600" "0 \<le> seconds 599" "0 \<le> seconds 600" by (simp_all add: seconds_def)
  with oauth_state_single_use [OF sample_oauth.redis_env_axioms _ _ _ run, of "seconds 599" 0 "''github''"]
    oauth_state_single_use [OF sample_oauth.redis_env_axioms _ _ _ run, of "seconds 600" 0 "''github''"]
  have "fst (pop_state sample_oauth ''token0'' ''github'' (tick (seconds 599) w')) =
       Inr (state_payload ''github'' None ''login'' None) \<and>
     fst (pop_state sample_oauth ''token0'' ''github'' (tick (seconds 600) w')) =
       Inl (err AuthError ''Invalid or expired OAuth state.'')"
    by (auto simp: token)
  with run show ?thesis by blast
qed


text \<open>A state in Redis, stored by the start of an authorization.\<close>

definition sample_state :: "ref_store world" where
  "sample_state = sample_world\<lparr>redis := put_entry (oauth_state_key ''state'')
     (Some (Text (tally (state_payload ''github'' None ''login'' None)), Some (days 20001))) empty_store\<rparr>"

lemma sample_state_simps [simp]:
  "db sample_state = sample_db" "committed sample_state = sample_db" "clock sample_state = days 20000"
  "draws sample_state = 0"
  by (simp_all add: sample_state_def)

lemma sample_pop:
  "\<exists>r. pop_state sample_oauth ''state'' ''github'' sample_state =
     (Inr (state_payload ''github'' None ''login'' None), sample_state\<lparr>redis := r\<rparr>)"
  by (rule exI [of _ empty_store])
     (simp add: pop_state_def bnd_def redis_ops redis_call_def ref_redis_def unless_fault_def sample_state_def
      put_entry_def empty_store_def ref_val_def time_defs state_payload_def)


end
