(* ===== verification/Auth_Routes.thy ===== *)
theory Auth_Routes
  imports Schemas Dependencies Notifications OAuth_Service
begin

text \<open>
  \<^verbatim>\<open>app/api/v1/_login.py\<close> and \<^verbatim>\<open>app/api/v1/auth.py\<close>: the routes that start, renew and end a session.
  A route is the dependencies of its decorator, those of its parameters, the validation of the
  body and the handler, in the order in which FastAPI runs them; its cookies are those of the
  response it returns, an exception returns none.
\<close>

section \<open>Issuing a session\<close>

definition read_user :: "'r env \<Rightarrow> user_row \<Rightarrow> ('r world, jval) prog" where
  "read_user E u = bnd (db_query (\<lambda>d. user_read E d u)) lift_sum"

definition finalize_login :: "'r env \<Rightarrow> request \<Rightarrow> user_row \<Rightarrow> bool \<Rightarrow> ('r world, response) prog" where
  "finalize_login E rq user remember_me =
     bnd (draw (uuid4 E)) (\<lambda>session_uuid.
     bnd (issue_pair E (uuid_str (u_id user)) remember_me (Some (uuid_str session_uuid))) (\<lambda>(pair, refresh_jti).
     bnd (create_session E user session_uuid refresh_jti remember_me (client_ip rq)
            (case header_of (rq_headers rq) ''user-agent'' of None \<Rightarrow> [] | Some ua \<Rightarrow> ua) (rq_headers rq))
       (\<lambda>(record, is_new_device).
     bnd (when_do is_new_device (add_task (TaskNewDevice (u_email user) (s_device_name record)
            (s_browser record) (s_ip_address record)))) (\<lambda>_.
     bnd (generate_csrf_token E) (\<lambda>csrf.
     bnd (read_user E user) (\<lambda>u.
     ret ((json_response 200 (auth_response u csrf))\<lparr>cookies := set_auth_cookies (cfg E) pair csrf\<rparr>)))))))"

definition load_user_for_otp :: "string \<Rightarrow> ('r world, user_row) prog" where
  "load_user_for_otp user_id =
     bnd (uuid_or (err AuthError ''Invalid pre-authentication token.'') user_id) (\<lambda>i.
     bnd (get_user i) (\<lambda>user.
     case user of
       None \<Rightarrow> raise (err AuthError ''Account is unavailable.'')
     | Some u \<Rightarrow> if \<not> u_is_active u then raise (err AuthError ''Account is unavailable.'') else ret u))"

definition auth_rate_limit :: "'r env \<Rightarrow> request \<Rightarrow> ('r world, unit) prog" where
  "auth_rate_limit E rq = hit E (''auth:'' @ client_ip rq) (AUTH_RATE_LIMIT_PER_MINUTE (cfg E)) 60"

section \<open>The routes\<close>

definition register_route :: "'r env \<Rightarrow> request \<Rightarrow> register_request \<Rightarrow> ('r world, response) prog" where
  "register_route E rq data =
     bnd (auth_rate_limit E rq) (\<lambda>_.
     bnd (lift_sum (parse_register E data)) (\<lambda>payload.
     bnd (register E (rr_email payload) (rr_password payload) (rr_full_name payload)) (\<lambda>user.
     bnd flush (\<lambda>_.
     bnd (finalize_login E rq user False) (\<lambda>result.
     bnd (send_signup_emails E user) (\<lambda>_.
     ret (result\<lparr>status := 201\<rparr>)))))))"

definition login_route :: "'r env \<Rightarrow> request \<Rightarrow> login_request \<Rightarrow> ('r world, response) prog" where
  "login_route E rq data =
     bnd (auth_rate_limit E rq) (\<lambda>_.
     bnd (lift_sum (parse_login E data)) (\<lambda>payload.
     bnd (authenticate E (lr_email payload) (lr_password payload) (Some (client_ip rq))) (\<lambda>user.
     bnd (is_enabled user) (\<lambda>enabled.
     if enabled then
       bnd (audit ''login_2fa_challenge'' (Some (uuid_str (u_id user))) []) (\<lambda>_.
       bnd (issue_pre_auth E (uuid_str (u_id user))) (\<lambda>token.
       ret (json_response 200 (login_challenge token))))
     else finalize_login E rq user (lr_remember_me payload)))))"

definition login_otp_route :: "'r env \<Rightarrow> request \<Rightarrow> otp_login_request \<Rightarrow> ('r world, response) prog" where
  "login_otp_route E rq data =
     bnd (auth_rate_limit E rq) (\<lambda>_.
     bnd (lift_sum (parse_otp_login E data)) (\<lambda>payload.
     bnd (verify_pre_auth E (ol_pre_auth_token payload)) (\<lambda>user_id.
     bnd (load_user_for_otp user_id) (\<lambda>user.
     bnd (verify_totp E user (ol_otp payload)) (\<lambda>_.
     bnd (audit ''login_2fa_otp_success'' (Some (uuid_str (u_id user))) []) (\<lambda>_.
     finalize_login E rq user (ol_remember_me payload)))))))"

definition login_recovery_route :: "'r env \<Rightarrow> request \<Rightarrow> recovery_login_request \<Rightarrow> ('r world, response) prog" where
  "login_recovery_route E rq data =
     bnd (auth_rate_limit E rq) (\<lambda>_.
     bnd (lift_sum (parse_recovery_login E data)) (\<lambda>payload.
     bnd (verify_pre_auth E (rl_pre_auth_token payload)) (\<lambda>user_id.
     bnd (load_user_for_otp user_id) (\<lambda>user.
     bnd (consume_recovery_code E user (rl_recovery_code payload)) (\<lambda>_.
     bnd (audit ''login_2fa_recovery_success'' (Some (uuid_str (u_id user))) []) (\<lambda>_.
     finalize_login E rq user (rl_remember_me payload)))))))"

text \<open>A replayed refresh token ends its session, and that is committed before the 401.\<close>

definition handle_refresh_replay :: "'r env \<Rightarrow> string \<Rightarrow> ('r world, unit) prog" where
  "handle_refresh_replay E token =
     bnd (try_except (bnd (decode_token E token (Some ''refresh'')) (\<lambda>p. ret (Some p))) (\<lambda>_. True) (\<lambda>_. ret None)) (\<lambda>payload.
     case (case payload of None \<Rightarrow> None | Some p \<Rightarrow> get_claim p ''sid'') of
       None \<Rightarrow> ret ()
     | Some sid \<Rightarrow>
         bnd (revoke_by_sid E sid ''refresh_replay'') (\<lambda>record.
         case record of
           None \<Rightarrow> ret ()
         | Some r \<Rightarrow>
             bnd commit (\<lambda>_.
             audit ''refresh_replay_detected'' (Some (uuid_str (s_user_id r)))
               [(''session'', JStr (uuid_str (s_session_uuid r)))])))"

fun message_of :: "exn \<Rightarrow> string" where
  "message_of (App a) = err_message a"
| "message_of _ = []"

definition refresh_route :: "'r env \<Rightarrow> request \<Rightarrow> ('r world, response) prog" where
  "refresh_route E rq =
     (let token = cookie_of rq (REFRESH_COOKIE_NAME (cfg E)) in
      if falsy token then raise (err AuthError ''Missing refresh token.'')
      else
        bnd (try_except (rotate_tokens E (the token)) (\<lambda>e. is_instance e TokenReplayError)
               (\<lambda>e. bnd (handle_refresh_replay E (the token)) (\<lambda>_. raise (err AuthError (message_of e)))))
          (\<lambda>(user_id, sid, pair, refresh_jti).
        bnd (case sid of
               None \<Rightarrow> ret ()
             | Some s \<Rightarrow>
                 bnd (uuid_or ValueError user_id) (\<lambda>uid.
                 bnd (uuid_or ValueError s) (\<lambda>session_uuid.
                 rebind_refresh E uid session_uuid refresh_jti))) (\<lambda>_.
        bnd (generate_csrf_token E) (\<lambda>csrf.
        ret ((json_response 200 (message ''refreshed''))\<lparr>cookies := set_auth_cookies (cfg E) pair csrf\<rparr>)))))"

definition end_session_of :: "'r env \<Rightarrow> string \<Rightarrow> ('r world, unit) prog" where
  "end_session_of E token =
     bnd (verify_refresh E token) (\<lambda>payload.
     bnd (revoke_token E payload) (\<lambda>_.
     case get_claim payload ''sid'' of
       None \<Rightarrow> ret ()
     | Some sid \<Rightarrow>
         bnd (uuid_or ValueError sid) (\<lambda>session_uuid.
         bnd (get_by_uuid session_uuid) (\<lambda>record.
         case record of
           None \<Rightarrow> ret ()
         | Some r \<Rightarrow> when_do (s_is_active r) (bnd (revoke E r ''logout'') (\<lambda>_. ret ()))))))"

definition logout_route :: "'r env \<Rightarrow> request \<Rightarrow> ('r world, response) prog" where
  "logout_route E rq =
     bnd (verify_csrf E rq) (\<lambda>_.
     let token = cookie_of rq (REFRESH_COOKIE_NAME (cfg E)) in
     bnd (if falsy token then ret ()
          else try_except (end_session_of E (the token)) (\<lambda>e. is_instance e AuthError) (\<lambda>_. ret ())) (\<lambda>_.
     ret ((json_response 200 (message ''logged out''))\<lparr>cookies := clear_auth_cookies (cfg E)\<rparr>)))"

definition me_route :: "'r env \<Rightarrow> request \<Rightarrow> ('r world, response) prog" where
  "me_route E rq =
     bnd (get_current_user E rq) (\<lambda>user.
     bnd (read_user E user) (\<lambda>u.
     ret (json_response 200 u)))"

lemmas auth_route_defs =
  register_route_def login_route_def login_otp_route_def login_recovery_route_def refresh_route_def
  logout_route_def me_route_def

section \<open>What the routes touch\<close>

context world_frame
begin

lemma read_user [intro]: "within T (read_user E u)"
  unfolding read_user_def by (intro world_rules)

lemma load_user [intro]: "within T (load_user_for_otp i)"
  unfolding load_user_for_otp_def by (intro world_rules queries subject_ops)

end

context free_frame
begin

lemma login_ops [intro]:
  "within T (finalize_login E rq u rm)" "within T (auth_rate_limit E rq)" "within T (end_session_of E tok)"
  unfolding finalize_login_def auth_rate_limit_def end_session_of_def
  by (intro free_rules token_ops token_redis_ops revoke_token session_writes security_ops rate_limit_ops
      read_user subject_ops)+

lemma login_routes [intro]:
  "within T (register_route E rq rb)" "within T (login_route E rq lb)" "within T (login_otp_route E rq ob)"
  "within T (login_recovery_route E rq cb)" "within T (logout_route E rq)"
  unfolding register_route_def login_route_def login_otp_route_def login_recovery_route_def logout_route_def Let_def
  by (intro free_rules login_ops auth_ops email_ops token_ops verify_totp two_factor_ops two_factor_queries
      load_user pure_deps)+

end

context session_frame
begin

lemma replay [intro]: "within T (handle_refresh_replay E tok)"
  unfolding handle_refresh_replay_def by (intro session_rules security_ops closing_ops)

lemma me_route [intro]: "within T (me_route E rq)"
  unfolding me_route_def by (intro session_rules auth_deps read_user)

end

context commit_frame
begin

lemma refresh_route [intro]: "within T (refresh_route E rq)"
  unfolding refresh_route_def Let_def
  by (intro commit_rules replay token_redis_ops session_writes security_ops subject_ops)

end

context table_invariant
begin

lemma both_login_ops [intro]:
  "within (both I) (finalize_login E rq u rm)" "within (both I) (end_session_of E tok)"
  "within (both I) (handle_refresh_replay E tok)"
  unfolding finalize_login_def end_session_of_def handle_refresh_replay_def
  by (intro both_rules both.token_ops both.token_redis_ops both.revoke_token both_session_writes both_session_ops
      both.security_ops both.read_user both.subject_ops)+

lemma both_auth_routes [intro]:
  "within (both I) (register_route E rq rb)" "within (both I) (login_route E rq lb)"
  "within (both I) (login_otp_route E rq ob)" "within (both I) (login_recovery_route E rq cb)"
  "within (both I) (refresh_route E rq)" "within (both I) (logout_route E rq)" "within (both I) (me_route E rq)"
  unfolding auth_route_defs auth_rate_limit_def Let_def
  by (intro both_rules both_login_ops both_auth_ops both_email_ops both.token_ops both.token_redis_ops
      both.verify_totp both_two_factor_ops both.two_factor_queries both.load_user both.pure_deps both.rate_limit_ops
      both_session_writes both.security_ops both.subject_ops both_auth_deps both.read_user)+

end

end
