(* ===== verification/Account_Routes.thy ===== *)
theory Account_Routes
  imports Auth_Routes
begin

text \<open>
  The other routes of \<^verbatim>\<open>app/api/v1\<close>: two-factor management, email flows, OAuth, sessions, users and
  health. Each is its dependencies in the order FastAPI resolves them, the validation of its
  parameters and its handler. A path parameter that is a UUID arrives parsed.
\<close>

section \<open>Two-factor management\<close>

definition twofa_rate_limit :: "'r env \<Rightarrow> request \<Rightarrow> user_row \<Rightarrow> ('r world, unit) prog" where
  "twofa_rate_limit E rq user =
     bnd (hit E (''2fa:'' @ uuid_str (u_id user)) (TWO_FA_RATE_LIMIT_PER_MINUTE (cfg E)) 60) (\<lambda>_.
     hit E (''2fa-ip:'' @ client_ip rq) (TWO_FA_RATE_LIMIT_PER_MINUTE (cfg E) * 3) 60)"

text \<open>\<open>dependencies=[Depends(_twofa_rate_limit), Depends(verify_csrf)]\<close>, and the user.\<close>

definition twofa_guard :: "'r env \<Rightarrow> request \<Rightarrow> ('r world, user_row) prog" where
  "twofa_guard E rq =
     bnd (get_current_user E rq) (\<lambda>user.
     bnd (twofa_rate_limit E rq user) (\<lambda>_.
     bnd (verify_csrf E rq) (\<lambda>_. ret user)))"

definition twofa_status_route :: "'r env \<Rightarrow> request \<Rightarrow> ('r world, response) prog" where
  "twofa_status_route E rq =
     bnd (get_current_user E rq) (\<lambda>user.
     bnd (two_factor_state user) (\<lambda>s.
     ret (json_response 200 (status_read s))))"

definition twofa_setup_route :: "'r env \<Rightarrow> request \<Rightarrow> string \<Rightarrow> ('r world, response) prog" where
  "twofa_setup_route E rq data =
     bnd (twofa_guard E rq) (\<lambda>user.
     bnd (lift_sum (parse_password_confirm E data)) (\<lambda>password.
     bnd (start_setup E user password) (\<lambda>(secret, uri).
     bnd (audit ''2fa_setup_started'' (Some (uuid_str (u_id user))) []) (\<lambda>_.
     ret (json_response 200 (setup_response uri (qr_code_base64 E uri) secret))))))"

definition twofa_verify_route :: "'r env \<Rightarrow> request \<Rightarrow> string \<Rightarrow> ('r world, response) prog" where
  "twofa_verify_route E rq data =
     bnd (twofa_guard E rq) (\<lambda>user.
     bnd (lift_sum (parse_otp_verify E data)) (\<lambda>otp.
     bnd (confirm_setup E user otp) (\<lambda>_.
     bnd (audit ''2fa_enabled'' (Some (uuid_str (u_id user))) []) (\<lambda>_.
     ret (json_response 200 (message ''Two-factor authentication enabled.''))))))"

definition qrcode_route :: "'r env \<Rightarrow> request \<Rightarrow> ('r world, response) prog" where
  "qrcode_route E rq =
     bnd (get_current_user E rq) (\<lambda>user.
     bnd (get_pending_secret E user) (\<lambda>secret.
     let uri = provisioning_uri E secret (u_email user) in
     ret ((json_response 200 (JStr (qr_code_png E uri)))\<lparr>resp_headers := [(''content-type'', ''image/png'')]\<rparr>)))"

definition recovery_codes_route ::
    "'r env \<Rightarrow> request \<Rightarrow> recovery_codes_request \<Rightarrow> ('r world, response) prog" where
  "recovery_codes_route E rq data =
     bnd (twofa_guard E rq) (\<lambda>user.
     bnd (lift_sum (parse_recovery_codes E data)) (\<lambda>payload.
     bnd (require_password E user (rc_password payload)) (\<lambda>_.
     bnd (verify_totp E user (rc_otp payload)) (\<lambda>_.
     bnd (generate_recovery_codes E user False) (\<lambda>codes.
     bnd (audit ''2fa_recovery_codes_generated'' (Some (uuid_str (u_id user))) []) (\<lambda>_.
     ret (json_response 201 (recovery_codes_response codes))))))))"

definition regenerate_codes_route ::
    "'r env \<Rightarrow> request \<Rightarrow> recovery_codes_request \<Rightarrow> ('r world, response) prog" where
  "regenerate_codes_route E rq data =
     bnd (twofa_guard E rq) (\<lambda>user.
     bnd (lift_sum (parse_recovery_codes E data)) (\<lambda>payload.
     bnd (require_password E user (rc_password payload)) (\<lambda>_.
     bnd (verify_totp E user (rc_otp payload)) (\<lambda>_.
     bnd (generate_recovery_codes E user True) (\<lambda>codes.
     bnd (audit ''2fa_recovery_codes_regenerated'' (Some (uuid_str (u_id user))) []) (\<lambda>_.
     ret (json_response 200 (recovery_codes_response codes))))))))"

definition disable_route :: "'r env \<Rightarrow> request \<Rightarrow> recovery_codes_request \<Rightarrow> ('r world, response) prog" where
  "disable_route E rq data =
     bnd (twofa_guard E rq) (\<lambda>user.
     bnd (lift_sum (parse_recovery_codes E data)) (\<lambda>payload.
     bnd (disable E user (rc_password payload) (rc_otp payload)) (\<lambda>_.
     bnd (audit ''2fa_disabled'' (Some (uuid_str (u_id user))) []) (\<lambda>_.
     ret (json_response 200 (message ''Two-factor authentication disabled.''))))))"

section \<open>Email flows\<close>

definition email_rate_limit :: "'r env \<Rightarrow> request \<Rightarrow> ('r world, unit) prog" where
  "email_rate_limit E rq = hit E (''email:'' @ client_ip rq) (AUTH_RATE_LIMIT_PER_MINUTE (cfg E)) 60"

definition verify_email_route :: "'r env \<Rightarrow> string \<Rightarrow> ('r world, response) prog" where
  "verify_email_route E data =
     bnd (lift_sum (parse_token E data)) (\<lambda>token.
     bnd (verify_email E token) (\<lambda>_.
     ret (json_response 200 (message ''Email verified.''))))"

definition resend_verification_route :: "'r env \<Rightarrow> request \<Rightarrow> ('r world, response) prog" where
  "resend_verification_route E rq =
     bnd (verify_csrf E rq) (\<lambda>_.
     bnd (get_current_user E rq) (\<lambda>user.
     bnd (resend_verification E user) (\<lambda>_.
     ret (json_response 200 (message ''Verification email sent.'')))))"

definition forgot_password_route :: "'r env \<Rightarrow> request \<Rightarrow> string \<Rightarrow> ('r world, response) prog" where
  "forgot_password_route E rq data =
     bnd (email_rate_limit E rq) (\<lambda>_.
     bnd (lift_sum (parse_forgot_password E data)) (\<lambda>email.
     bnd (request_password_reset E email) (\<lambda>_.
     ret (json_response 200 (message ''If that account exists, a reset email has been sent.'')))))"

definition reset_password_route ::
    "'r env \<Rightarrow> request \<Rightarrow> reset_password_request \<Rightarrow> ('r world, response) prog" where
  "reset_password_route E rq data =
     bnd (email_rate_limit E rq) (\<lambda>_.
     bnd (lift_sum (parse_reset_password E data)) (\<lambda>payload.
     bnd (reset_password E (rp_token payload) (rp_new_password payload)) (\<lambda>_.
     ret (json_response 200 (message ''Password has been reset.'')))))"

definition change_email_route ::
    "'r env \<Rightarrow> request \<Rightarrow> change_email_request \<Rightarrow> ('r world, response) prog" where
  "change_email_route E rq data =
     bnd (verify_csrf E rq) (\<lambda>_.
     bnd (get_current_user E rq) (\<lambda>user.
     bnd (lift_sum (parse_change_email E data)) (\<lambda>payload.
     bnd (request_email_change E user (ce_new_email payload) (ce_password payload)) (\<lambda>_.
     ret (json_response 200 (message ''Confirmation email sent to the new address.''))))))"

definition confirm_email_change_route :: "'r env \<Rightarrow> string \<Rightarrow> ('r world, response) prog" where
  "confirm_email_change_route E data =
     bnd (lift_sum (parse_token E data)) (\<lambda>token.
     bnd (confirm_email_change E token) (\<lambda>_.
     ret (json_response 200 (message ''Email address updated.''))))"

section \<open>OAuth\<close>

text \<open>\<open>RedirectResponse(url, status_code=307)\<close>.\<close>

definition redirect :: "string \<Rightarrow> response" where
  "redirect url = (json_response 307 JNull)\<lparr>resp_headers := [(''location'', url)]\<rparr>"

definition providers_route :: "'r env \<Rightarrow> ('r world, response) prog" where
  "providers_route E = ret (json_response 200 (providers_response (available_providers (cfg E))))"

definition links_route :: "'r env \<Rightarrow> request \<Rightarrow> ('r world, response) prog" where
  "links_route E rq =
     bnd (get_current_user E rq) (\<lambda>user.
     bnd (list_links user) (\<lambda>accounts.
     ret (json_response 200 (JList (List.map oauth_link_read accounts)))))"

definition authorize_route :: "'r env \<Rightarrow> string \<Rightarrow> ('r world, response) prog" where
  "authorize_route E provider =
     bnd (start_authorization E provider ''login'' None) (\<lambda>url. ret (redirect url))"

definition link_route :: "'r env \<Rightarrow> request \<Rightarrow> string \<Rightarrow> ('r world, response) prog" where
  "link_route E rq provider =
     bnd (get_current_user E rq) (\<lambda>user.
     bnd (start_authorization E provider ''link'' (Some (uuid_str (u_id user)))) (\<lambda>url.
     ret (redirect url)))"

definition callback_route ::
    "'r env \<Rightarrow> request \<Rightarrow> string \<Rightarrow> string \<Rightarrow> string \<Rightarrow> ('r world, response) prog" where
  "callback_route E rq provider code state =
     bnd (handle_callback E provider code state) (\<lambda>(user, mode).
     if mode = JStr ''link'' then ret (json_response 200 (message (provider @ '' account linked.'')))
     else finalize_login E rq user False)"

section \<open>Sessions\<close>

definition list_sessions_route :: "'r env \<Rightarrow> request \<Rightarrow> int \<times> int \<Rightarrow> ('r world, response) prog" where
  "list_sessions_route E rq q =
     bnd (user_and_session E rq) (\<lambda>(user, current).
     bnd (lift_sum (parse_page E q)) (\<lambda>(limit, offset).
     bnd (list_active user (Some limit) offset) (\<lambda>records.
     bnd (count_active user) (\<lambda>count.
     ret (json_response 200
       (page (List.map (\<lambda>r. to_read r (s_session_uuid current)) records) count limit offset))))))"

definition get_session_route :: "'r env \<Rightarrow> request \<Rightarrow> uuid \<Rightarrow> ('r world, response) prog" where
  "get_session_route E rq session_id =
     bnd (user_and_session E rq) (\<lambda>(user, current).
     bnd (get_owned user session_id) (\<lambda>record.
     ret (json_response 200 (to_read record (s_session_uuid current)))))"

definition logout_current_route :: "'r env \<Rightarrow> request \<Rightarrow> ('r world, response) prog" where
  "logout_current_route E rq =
     bnd (verify_csrf E rq) (\<lambda>_.
     bnd (user_and_session E rq) (\<lambda>(user, current).
     bnd (revoke E current ''logout'') (\<lambda>_.
     ret ((json_response 200 (logout_response ''Current session logged out.'' 1))
            \<lparr>cookies := clear_auth_cookies (cfg E)\<rparr>))))"

definition logout_all_route :: "'r env \<Rightarrow> request \<Rightarrow> ('r world, response) prog" where
  "logout_all_route E rq =
     bnd (verify_csrf E rq) (\<lambda>_.
     bnd (user_and_session E rq) (\<lambda>(user, current).
     bnd (revoke_all E user ''logout_all'' None) (\<lambda>count.
     ret ((json_response 200 (logout_response ''Logged out from all devices.'' count))
            \<lparr>cookies := clear_auth_cookies (cfg E)\<rparr>))))"

definition revoke_session_route :: "'r env \<Rightarrow> request \<Rightarrow> uuid \<Rightarrow> ('r world, response) prog" where
  "revoke_session_route E rq session_id =
     bnd (verify_csrf E rq) (\<lambda>_.
     bnd (user_and_session E rq) (\<lambda>(user, current).
     bnd (revoke_by_uuid E user session_id ''revoked_by_user'') (\<lambda>_.
     ret (json_response 200 (logout_response ''Session revoked.'' 1)))))"

section \<open>Users and health\<close>

definition read_me_route :: "'r env \<Rightarrow> request \<Rightarrow> ('r world, response) prog" where
  "read_me_route E rq =
     bnd (get_current_user E rq) (\<lambda>user.
     bnd (read_user E user) (\<lambda>u. ret (json_response 200 u)))"

definition last_login_route :: "'r env \<Rightarrow> request \<Rightarrow> ('r world, response) prog" where
  "last_login_route E rq =
     bnd (user_and_session E rq) (\<lambda>(user, current).
     bnd (previous_login user (Some current)) (\<lambda>prev.
     ret (json_response 200 (last_login_read prev))))"

definition list_users_route :: "'r env \<Rightarrow> request \<Rightarrow> int \<times> int \<Rightarrow> ('r world, response) prog" where
  "list_users_route E rq q =
     bnd (require_permission E ''manage_users'' rq) (\<lambda>_.
     bnd (lift_sum (parse_page E q)) (\<lambda>(limit, offset).
     bnd (list_all_users (Some limit) offset) (\<lambda>us.
     bnd count_all_users (\<lambda>count.
     bnd (bnd (db_query (\<lambda>d. users_read E d us)) lift_sum) (\<lambda>items.
     ret (json_response 200 (page items count limit offset)))))))"

definition health_route :: "('r world, response) prog" where
  "health_route = ret (json_response 200 (message ''ok''))"

text \<open>\<open>SELECT 1\<close> answers while there is a session; then Redis has to answer.\<close>

definition ready_route :: "'r env \<Rightarrow> ('r world, response) prog" where
  "ready_route E =
     bnd (db_query (\<lambda>d. ())) (\<lambda>_.
     bnd (redis_ping E) (\<lambda>_.
     ret (json_response 200 (message ''ready''))))"

lemmas account_route_defs =
  twofa_status_route_def twofa_setup_route_def twofa_verify_route_def qrcode_route_def
  recovery_codes_route_def regenerate_codes_route_def disable_route_def verify_email_route_def
  resend_verification_route_def forgot_password_route_def reset_password_route_def
  change_email_route_def confirm_email_change_route_def providers_route_def links_route_def
  authorize_route_def link_route_def callback_route_def list_sessions_route_def get_session_route_def
  logout_current_route_def logout_all_route_def revoke_session_route_def read_me_route_def
  last_login_route_def list_users_route_def health_route_def ready_route_def

section \<open>What the routes touch\<close>

context free_frame
begin

lemma limits [intro]:
  "within T (twofa_rate_limit E rq u)" "within T (email_rate_limit E rq)"
  unfolding twofa_rate_limit_def email_rate_limit_def by (intro free_rules rate_limit_ops)+

text \<open>The routes without an access token.\<close>

lemma open_routes [intro]:
  "within T (verify_email_route E tok)" "within T (forgot_password_route E rq em)"
  "within T (reset_password_route E rq rb)" "within T (confirm_email_change_route E tok)"
  "within T (providers_route E)" "within T (authorize_route E p)" "within T (callback_route E rq p c st)"
  "within T health_route" "within T (ready_route E)"
  unfolding verify_email_route_def forgot_password_route_def reset_password_route_def
    confirm_email_change_route_def providers_route_def authorize_route_def callback_route_def
    health_route_def ready_route_def
  by (intro free_rules limits email_ops oauth_states oauth_ops login_ops)+

end

context commit_frame
begin

lemma twofa_guard [intro]: "within T (twofa_guard E rq)"
  unfolding twofa_guard_def by (intro commit_rules auth_deps limits pure_deps)

lemma account_routes [intro]:
  "within T (twofa_status_route E rq)" "within T (twofa_setup_route E rq s)" "within T (twofa_verify_route E rq s)"
  "within T (qrcode_route E rq)" "within T (recovery_codes_route E rq cb)" "within T (regenerate_codes_route E rq cb)"
  "within T (disable_route E rq cb)" "within T (resend_verification_route E rq)"
  "within T (change_email_route E rq eb)" "within T (links_route E rq)" "within T (link_route E rq p)"
  "within T (list_sessions_route E rq q)" "within T (get_session_route E rq i)"
  "within T (logout_current_route E rq)" "within T (logout_all_route E rq)" "within T (revoke_session_route E rq i)"
  "within T (read_me_route E rq)" "within T (last_login_route E rq)" "within T (list_users_route E rq q)"
  unfolding account_route_defs Let_def
  by (intro commit_rules twofa_guard auth_deps pure_deps two_factor_ops two_factor_queries verify_totp
      generate_recovery_codes email_ops oauth_states oauth_ops session_queries session_writes session_ops read_user)+

end

context table_invariant
begin

lemma both_twofa_guard [intro]: "within (both I) (twofa_guard E rq)"
  unfolding twofa_guard_def twofa_rate_limit_def
  by (intro both_rules both_auth_deps both.rate_limit_ops both.pure_deps)

lemma both_account_routes [intro]:
  "within (both I) (twofa_status_route E rq)" "within (both I) (twofa_setup_route E rq s)"
  "within (both I) (twofa_verify_route E rq s)" "within (both I) (qrcode_route E rq)"
  "within (both I) (recovery_codes_route E rq cb)" "within (both I) (regenerate_codes_route E rq cb)"
  "within (both I) (disable_route E rq cb)" "within (both I) (resend_verification_route E rq)"
  "within (both I) (change_email_route E rq eb)" "within (both I) (links_route E rq)"
  "within (both I) (link_route E rq p)" "within (both I) (list_sessions_route E rq q)"
  "within (both I) (get_session_route E rq i)" "within (both I) (logout_current_route E rq)"
  "within (both I) (logout_all_route E rq)" "within (both I) (revoke_session_route E rq i)"
  "within (both I) (read_me_route E rq)" "within (both I) (last_login_route E rq)"
  "within (both I) (list_users_route E rq q)" "within (both I) (verify_email_route E tok)"
  "within (both I) (forgot_password_route E rq em)" "within (both I) (reset_password_route E rq rb)"
  "within (both I) (confirm_email_change_route E tok)" "within (both I) (providers_route E)"
  "within (both I) (authorize_route E p)" "within (both I) (callback_route E rq p c st)"
  "within (both I) health_route" "within (both I) (ready_route E)"
  unfolding account_route_defs email_rate_limit_def list_links_def Let_def
  by (intro both_rules both_twofa_guard both_auth_deps both.pure_deps both_two_factor_ops both.two_factor_queries
      both.verify_totp both_generate_recovery_codes both_email_ops both_confirm_email_change both.oauth_states
      both_oauth_ops both_login_ops both.session_queries both_session_writes both_session_ops both.read_user
      both.rate_limit_ops)+

end

end
