(* ===== verification/App.thy ===== *)
theory App
  imports Account_Routes
begin

text \<open>
  \<^verbatim>\<open>app/main.py\<close> and \<^verbatim>\<open>app/api/router.py\<close>: the table of routes, a request inside its database session
  and its middlewares, and the runs of the server.

  FastAPI opens the session of a request before the route and closes it after the response is sent
  and its background tasks have run; an exception of the route rolls back and is answered by the
  registered handler. Application and validation errors are answered inside the middlewares, any
  other exception outside of them. CORS, which only adds headers, is not modelled.
\<close>

section \<open>The table of routes\<close>

datatype api_call =
  Health | Ready
| Register register_request | Login login_request | LoginOtp otp_login_request
| LoginRecoveryCode recovery_login_request | Refresh | Logout | Me
| VerifyEmail string | ResendVerification | ForgotPassword string
| ResetPassword reset_password_request | ChangeEmail change_email_request | ConfirmEmailChange string
| OAuthProviders | OAuthLinks | OAuthAuthorize string | OAuthLink string | OAuthCallback string string string
| TwoFaStatus | TwoFaSetup string | TwoFaVerify string | TwoFaQrcode
| RecoveryCodes recovery_codes_request | RegenerateCodes recovery_codes_request
| TwoFaDisable recovery_codes_request
| ListSessions "int \<times> int" | GetSession uuid | LogoutCurrent | LogoutAll | RevokeSession uuid
| ReadMe | LastLogin | ListUsers "int \<times> int"

fun route :: "'r env \<Rightarrow> request \<Rightarrow> api_call \<Rightarrow> ('r world, response) prog" where
  "route E rq Health = health_route"
| "route E rq Ready = ready_route E"
| "route E rq (Register b) = register_route E rq b"
| "route E rq (Login b) = login_route E rq b"
| "route E rq (LoginOtp b) = login_otp_route E rq b"
| "route E rq (LoginRecoveryCode b) = login_recovery_route E rq b"
| "route E rq Refresh = refresh_route E rq"
| "route E rq Logout = logout_route E rq"
| "route E rq Me = me_route E rq"
| "route E rq (VerifyEmail tok) = verify_email_route E tok"
| "route E rq ResendVerification = resend_verification_route E rq"
| "route E rq (ForgotPassword em) = forgot_password_route E rq em"
| "route E rq (ResetPassword b) = reset_password_route E rq b"
| "route E rq (ChangeEmail b) = change_email_route E rq b"
| "route E rq (ConfirmEmailChange tok) = confirm_email_change_route E tok"
| "route E rq OAuthProviders = providers_route E"
| "route E rq OAuthLinks = links_route E rq"
| "route E rq (OAuthAuthorize p) = authorize_route E p"
| "route E rq (OAuthLink p) = link_route E rq p"
| "route E rq (OAuthCallback p code st) = callback_route E rq p code st"
| "route E rq TwoFaStatus = twofa_status_route E rq"
| "route E rq (TwoFaSetup pw) = twofa_setup_route E rq pw"
| "route E rq (TwoFaVerify otp) = twofa_verify_route E rq otp"
| "route E rq TwoFaQrcode = qrcode_route E rq"
| "route E rq (RecoveryCodes b) = recovery_codes_route E rq b"
| "route E rq (RegenerateCodes b) = regenerate_codes_route E rq b"
| "route E rq (TwoFaDisable b) = disable_route E rq b"
| "route E rq (ListSessions q) = list_sessions_route E rq q"
| "route E rq (GetSession i) = get_session_route E rq i"
| "route E rq LogoutCurrent = logout_current_route E rq"
| "route E rq LogoutAll = logout_all_route E rq"
| "route E rq (RevokeSession i) = revoke_session_route E rq i"
| "route E rq ReadMe = read_me_route E rq"
| "route E rq LastLogin = last_login_route E rq"
| "route E rq (ListUsers q) = list_users_route E rq q"

section \<open>A request\<close>

text \<open>A new database session sees what is committed.\<close>

definition open_session :: "('r world, unit) prog" where
  "open_session = upd_state (\<lambda>w. w\<lparr>db := committed w, background := []\<rparr>)"

definition transaction :: "'r env \<Rightarrow> request \<Rightarrow> api_call \<Rightarrow> ('r world, response) prog" where
  "transaction E rq call =
     bnd open_session (\<lambda>_.
     get_db (bnd (route E rq call) (\<lambda>resp.
             bnd (run_background E) (\<lambda>_. ret resp))))"

definition handle_request :: "'r env \<Rightarrow> api_call \<Rightarrow> request \<Rightarrow> ('r world, response) prog" where
  "handle_request E call rq = try_except (transaction E rq call) expected (\<lambda>e. ret (handle_exn e))"

text \<open>
  \<open>create_app\<close>: the middleware added last runs first. What none of them and no handler answers is
  answered by the server-error handler.
\<close>

definition middlewares :: "'r env \<Rightarrow> (request \<Rightarrow> ('r world, response) prog) \<Rightarrow> request \<Rightarrow> ('r world, response) prog" where
  "middlewares E endpoint =
     rate_limit_dispatch E (security_headers_dispatch (is_production (cfg E)) endpoint)"

definition app :: "'r env \<Rightarrow> request \<Rightarrow> api_call \<Rightarrow> ('r world, response) prog" where
  "app E rq call =
     try_except (middlewares E (handle_request E call) rq) (\<lambda>_. True) (\<lambda>e. ret (handle_exn e))"

text \<open>The documentation is served outside of production only.\<close>

definition docs_kwargs :: "settings \<Rightarrow> (string \<times> string option) list" where
  "docs_kwargs c =
     (if is_production c then [(''docs_url'', None), (''redoc_url'', None), (''openapi_url'', None)]
      else [(''docs_url'', Some ''/docs''), (''redoc_url'', Some ''/redoc''), (''openapi_url'', Some ''/openapi.json'')])"

section \<open>Runs of the server\<close>

text \<open>
  Between the requests time passes, and the store of Redis may change in any way (keys expire or
  are evicted, the service fails or recovers).
\<close>

inductive server_step :: "'r env \<Rightarrow> 'r world \<Rightarrow> 'r world \<Rightarrow> bool" for E where
  request: "server_step E w (snd (app E rq call w))"
| time: "0 \<le> d \<Longrightarrow> server_step E w (tick d w)"
| redis_change: "server_step E w (w\<lparr>redis := r\<rparr>)"

inductive_cases server_stepE: "server_step E w w'"

inductive reachable :: "'r env \<Rightarrow> 'r world \<Rightarrow> 'r world \<Rightarrow> bool" for E w where
  start: "reachable E w w"
| step: "reachable E w w' \<Longrightarrow> server_step E w' w'' \<Longrightarrow> reachable E w w''"

inductive_simps reachable_simps: "reachable E w w'"

section \<open>What a request touches\<close>

context commit_frame
begin

lemma route [intro]: "within T (route E rq call)"
  by (cases call) (auto intro: login_routes refresh_route me_route open_routes account_routes)

end

context table_invariant
begin

lemma both_route [intro]: "within (both I) (route E rq call)"
  by (cases call) (auto intro: both_auth_routes both_account_routes)

end

section \<open>One unit of work\<close>

text \<open>
  While a route runs, the committed tables stay as they are, except that the expiry of a session
  and the replay of a refresh token commit the end of that one session, and then raise.
\<close>

definition one_closed :: "database \<Rightarrow> database \<Rightarrow> bool" where
  "one_closed d d' \<longleftrightarrow> (\<exists>r t why. d' = close_in_db r t why d)"

definition unit_of_work :: "('r world, 'a) prog \<Rightarrow> 'r world \<Rightarrow> bool" where
  "unit_of_work m w \<longleftrightarrow> runs m w (\<lambda>_ w'. committed w' = committed w)
     (\<lambda>_ w'. committed w' = committed w \<or> one_closed (db w) (committed w'))"

abbreviation no_commit :: "('r world, 'a) prog \<Rightarrow> bool" where
  "no_commit m \<equiv> within (\<lambda>w w'. committed w' = committed w) m"

lemma runs_no_commit:
  "no_commit m \<Longrightarrow> (\<And>x w'. committed w' = committed w \<Longrightarrow> S x w') \<Longrightarrow>
     (\<And>e w'. committed w' = committed w \<Longrightarrow> F e w') \<Longrightarrow> runs m w S F"
  by (rule runs_mono [OF runs_within [where T = "\<lambda>w w'. committed w' = committed w"]])

lemma unit_free: "no_commit m \<Longrightarrow> unit_of_work m w"
  unfolding unit_of_work_def by (erule runs_no_commit) auto

lemma unit_bnd: "unit_of_work m w \<Longrightarrow> (\<And>x. no_commit (f x)) \<Longrightarrow> unit_of_work (bnd m f) w"
  unfolding unit_of_work_def
  by (rule runs_bnd, erule runs_mono) (auto intro!: runs_no_commit)

text \<open>Before it: what leaves both the committed tables and those of the session alone.\<close>

lemma unit_after:
  assumes "within (\<lambda>w w'. db w' = db w \<and> committed w' = committed w) m" and "\<And>x v. unit_of_work (f x) v"
  shows "unit_of_work (bnd m f) w"
proof -
  have rest: "runs (f x) v (\<lambda>_ w'. committed w' = committed w)
      (\<lambda>_ w'. committed w' = committed w \<or> one_closed (db w) (committed w'))"
    if "db v = db w \<and> committed v = committed w" for x v
    using assms(2) [of x v] that by (simp add: unit_of_work_def)
  show ?thesis
    unfolding unit_of_work_def by (rule runs_bnd, rule runs_mono [OF runs_within [OF assms(1)]]) (auto intro: rest)
qed

lemma unit_validate: "unit_of_work (validate_and_touch E sid uid) w"
proof -
  have expire: "runs (expire_session E r why) v (\<lambda>_ w'. one_closed (db v) (committed w'))
      (\<lambda>_ w'. one_closed (db v) (committed w'))" for r why v
  proof -
    have clear: "runs (clear_cache E i True) u (\<lambda>_ w'. committed w' = committed u) (\<lambda>_ w'. committed w' = committed u)" for i u
      by (rule runs_within [OF same_committed.session_cache(2)])
    show ?thesis
      unfolding expire_session_def
      by (intro runs_intros runs_mono [OF clear]) (auto simp: one_closed_def close_in_db_def)
  qed
  have exists: "runs (redis_exists E k) v (\<lambda>_ w'. db w' = db v \<and> committed w' = committed v)
      (\<lambda>_ w'. committed w' = committed v)" for k v
    by (rule runs_mono [OF runs_within [OF same_tables.redis_ops(1)]]) auto
  have touch: "runs (touch E r t) v (\<lambda>_ w'. committed w' = committed v) (\<lambda>_ w'. committed w' = committed v)" for r t v
    by (rule runs_within [OF same_committed.session_writes(3)])
  show ?thesis
    unfolding unit_of_work_def validate_and_touch_def Let_def
    by (intro runs_intros session_by_uuid.runs_find runs_mono [OF exists] runs_mono [OF expire] runs_mono [OF touch])
       auto
qed

lemma unit_cases:
  "(b \<Longrightarrow> unit_of_work m w) \<Longrightarrow> (\<not> b \<Longrightarrow> unit_of_work m' w) \<Longrightarrow> unit_of_work (if b then m else m') w"
  "unit_of_work m w \<Longrightarrow> (\<And>x. unit_of_work (f x) w) \<Longrightarrow> unit_of_work (case v of None \<Rightarrow> m | Some x \<Rightarrow> f x) w"
  "(\<And>a b. unit_of_work (g a b) w) \<Longrightarrow> unit_of_work (case p of (a, b) \<Rightarrow> g a b) w"
  by (auto split: option.split prod.split)

lemma unit_ret: "unit_of_work (ret x) w" "unit_of_work (raise e) w"
  by (simp_all add: unit_of_work_def runs_def)

lemma unit_auth: "unit_of_work (get_auth_context E rq) w"
  unfolding get_auth_context_def Let_def
  by (intro unit_cases unit_ret unit_after unit_bnd [of _ _ "\<lambda>x. ret (_ x)"] unit_validate
      same_tables.token_ops same_tables.subject_ops same_tables.queries unchanged.ret)

lemma unit_deps:
  "unit_of_work (get_current_user E rq) w" "unit_of_work (user_and_session E rq) w"
  "unit_of_work (require_permission E c rq) w" "unit_of_work (twofa_guard E rq) w"
proof -
  show user: "unit_of_work (get_current_user E rq) w"
    unfolding get_current_user_def by (intro unit_bnd unit_auth unchanged.ret)
  show "unit_of_work (user_and_session E rq) w"
    unfolding user_and_session_def by (intro unit_bnd unit_auth same_committed.world_rules same_committed.pure_deps)
  show "unit_of_work (require_permission E c rq) w"
    unfolding require_permission_def by (intro unit_bnd user same_committed.world_rules)
  show "unit_of_work (twofa_guard E rq) w"
    unfolding twofa_guard_def
    by (intro unit_bnd user same_committed.world_rules same_committed.limits same_committed.pure_deps)
qed

text \<open>A replay: what it commits is the end of one session.\<close>

lemma unit_replay:
  "runs (handle_refresh_replay E tok) w (\<lambda>_ w'. committed w' = committed w \<or> one_closed (db w) (committed w'))
     (\<lambda>_ w'. committed w' = committed w)"
proof -
  have jti: "runs (revoke_jti E j None) u (\<lambda>_ w'. db w' = db u \<and> committed w' = committed u) (\<lambda>_ w'. committed w' = committed u)" for j u
    by (rule runs_mono [OF runs_within [OF same_tables.token_redis_ops(2)]]) auto
  have clear: "runs (clear_cache E i True) u (\<lambda>_ w'. db w' = db u \<and> committed w' = committed u) (\<lambda>_ w'. committed w' = committed u)" for i u
    by (rule runs_mono [OF runs_within [OF same_tables.session_cache(2)]]) auto
  have revoke: "runs (revoke E r why) v (\<lambda>_ w'. one_closed (db v) (db w') \<and> committed w' = committed v)
      (\<lambda>_ w'. committed w' = committed v)" for r why v
    unfolding revoke_def
    by (intro runs_intros runs_mono [OF jti] runs_mono [OF clear]) (auto simp: one_closed_def close_in_db_def)
  have close: "runs (revoke_by_sid E s why) v
      (\<lambda>x w'. committed w' = committed v \<and> (x \<noteq> None \<longrightarrow> one_closed (db v) (db w')))
      (\<lambda>_ w'. committed w' = committed v)" for s why v
    unfolding revoke_by_sid_def
    by (intro runs_intros session_by_uuid.runs_find runs_mono [OF revoke]) auto
  have decode: "runs (decode_token E tok ty) v (\<lambda>_ w'. w' = v) (\<lambda>_ w'. w' = v)" for ty v
    unfolding decode_token_def by (intro runs_intros) (auto intro!: runs_intros)
  show ?thesis
    unfolding handle_refresh_replay_def
    by (intro runs_intros runs_mono [OF decode] runs_mono [OF close])
       (auto intro!: runs_intros runs_mono [OF close])
qed

lemma unit_refresh: "unit_of_work (refresh_route E rq) w"
proof -
  have rotate: "runs (rotate_tokens E tok) v (\<lambda>_ w'. db w' = db v \<and> committed w' = committed v)
      (\<lambda>_ w'. db w' = db v \<and> committed w' = committed v)" for tok v
    by (rule runs_within [OF same_tables.token_redis_ops(4)])
  have "unit_of_work (try_except (rotate_tokens E tok) (\<lambda>e. is_instance e TokenReplayError)
      (\<lambda>e. bnd (handle_refresh_replay E tok) (\<lambda>_. raise (err AuthError (message_of e))))) v" for tok v
    unfolding unit_of_work_def
    by (intro runs_intros runs_mono [OF rotate] runs_mono [OF unit_replay]) (auto intro!: runs_intros runs_mono [OF unit_replay])
  then show ?thesis
    unfolding refresh_route_def Let_def
    by (intro unit_cases unit_ret unit_bnd same_committed.free_rules unchanged.subject_ops
        same_committed.session_writes same_committed.security_ops)
qed

lemmas same_committed_ops =
  same_committed.free_rules same_committed.read_user same_committed.two_factor_ops
  same_committed.two_factor_queries same_committed.verify_totp same_committed.generate_recovery_codes
  same_committed.email_ops same_committed.oauth_states same_committed.oauth_ops same_committed.session_queries
  same_committed.session_writes same_committed.session_ops same_committed.pure_deps

lemma unit_account_routes:
  "unit_of_work (me_route E rq) w" "unit_of_work (twofa_status_route E rq) w"
  "unit_of_work (twofa_setup_route E rq s) w" "unit_of_work (twofa_verify_route E rq s) w"
  "unit_of_work (qrcode_route E rq) w" "unit_of_work (recovery_codes_route E rq cb) w"
  "unit_of_work (regenerate_codes_route E rq cb) w" "unit_of_work (disable_route E rq cb) w"
  "unit_of_work (links_route E rq) w" "unit_of_work (link_route E rq p) w"
  "unit_of_work (list_sessions_route E rq q) w" "unit_of_work (get_session_route E rq i) w"
  "unit_of_work (read_me_route E rq) w" "unit_of_work (last_login_route E rq) w"
  "unit_of_work (list_users_route E rq q) w"
  unfolding me_route_def account_route_defs Let_def
  by (rule unit_bnd, rule unit_deps, intro same_committed_ops)+

lemma unit_csrf_routes:
  "unit_of_work (resend_verification_route E rq) w" "unit_of_work (change_email_route E rq eb) w"
  "unit_of_work (logout_current_route E rq) w" "unit_of_work (logout_all_route E rq) w"
  "unit_of_work (revoke_session_route E rq i) w"
  unfolding account_route_defs
  by (rule unit_after [OF same_tables.pure_deps(2)], rule unit_bnd, rule unit_deps, intro same_committed_ops)+

lemma unit_route: "unit_of_work (route E rq call) w"
  by (cases call)
     (simp_all add: unit_refresh unit_account_routes unit_csrf_routes unit_free same_committed.login_routes
        same_committed.open_routes)

end
