(* ===== verification/Flows.thy ===== *)
theory Flows
  imports App
begin

text \<open>
  The gate of the second factor, from the log-in route through the service of the credentials to the
  token that the first step returns.
\<close>

section \<open>Who is authenticated\<close>

lemma runs_authenticate_user:
  assumes "unique_keys (db w)"
  shows "runs (authenticate E em pw ip) w
    (\<lambda>u w'. \<exists>u0 \<in> set (users (db w)). lower (u_email u0) = lower em \<and> u_id u = u_id u0 \<and>
       sessions (db w') = sessions (db w) \<and> two_factors (db w') = two_factors (db w))
    (\<lambda>_ _. True)"
proof -
  have lock: "runs (ensure_not_locked E em ip) w (\<lambda>_. but_redis w) (\<lambda>_ _. True)"
    by (rule runs_redis_local [OF redis_local_rate_limit(2)]) auto
  show ?thesis
    unfolding authenticate_def
    apply (intro runs_intros runs_mono [OF lock] runs_get_by_email runs_record_failure runs_clear_failures TrueI)
    apply (auto simp: assms find_Some_iff dest!: but_redis_fields)
    done
qed

text \<open>The first hit of a window passes.\<close>

context redis_env
begin

lemma runs_first_hit:
  assumes "up (redis w)" and "seen w (ratelimit_key k) = None" and "1 \<le> limit" and "0 < win"
    and "\<And>w'. but_redis w w' \<Longrightarrow> redis_only val {ratelimit_key k} w w' \<Longrightarrow> up (redis w') \<Longrightarrow> S () w'"
  shows "runs (hit E k limit win) w S F"
proof -
  have up: "runs (hit E k limit win) w (\<lambda>_ w'. up (redis w')) (\<lambda>_ _. False)"
    unfolding hit_def Let_def
    by (intro runs_intros runs_redis_incr runs_redis_expire assms(4)) (use assms(1-3) in auto)
  have only: "within (redis_only val {ratelimit_key k}) (hit E k limit win)"
    by (rule rate_limit_only(1)) simp
  have blind: "runs (hit E k limit win) w (\<lambda>_. but_redis w) (\<lambda>_. but_redis w)"
    by (rule runs_redis_local [OF redis_local_rate_limit(1)])
  show ?thesis
    by (rule runs_mono [OF runs_conj [OF up runs_conj [OF runs_within [OF only] blind]]]) (auto intro: assms(5))
qed

end

lemma issue_pre_auth_run:
  "issue_pre_auth E i w = (Inr (sign E (token_claims i ''pre_auth'' (uuid_str (uuid4 E (draws w))) (clock w)
     (minutes (PRE_AUTH_TOKEN_EXPIRE_MINUTES (cfg E))) [])), w\<lparr>draws := Suc (draws w)\<rparr>)"
  by (simp add: issue_pre_auth_def bnd_def sign_def)

lemma runs_auth_rate_limit:
  "(\<And>w'. but_redis w w' \<Longrightarrow> S () w') \<Longrightarrow> (\<And>e w'. F e w') \<Longrightarrow> runs (auth_rate_limit E rq) w S F"
  unfolding auth_rate_limit_def by (rule runs_redis_local [OF redis_local_rate_limit(1)]) auto

text \<open>The answer to a right password of an account with a second factor.\<close>

lemma runs_challenge:
  "runs (bnd (audit ev i fs) (\<lambda>_. bnd (issue_pre_auth E j) (\<lambda>token. ret (json_response 200 (login_challenge token))))) v
    (\<lambda>resp w'. cookies resp = [] \<and> sessions (db w') = sessions (db v) \<and>
       (\<exists>c. body resp = login_challenge (sign E c) \<and> map_of c ''type'' = Some (JStr ''pre_auth''))) (\<lambda>_ _. True)"
  unfolding audit_def
  by (auto simp: runs_def bnd_def issue_pre_auth_run json_response_def intro!: exI)

text \<open>
  C3. The gate of the second factor: if the account has two-factor authentication enabled, a log-in
  with the right password sets no cookie and creates no session; what it returns is a token that
  only opens the second step, refused wherever an access or refresh token is expected.
\<close>

theorem password_not_enough:
  assumes "unique_keys (db w)" and "jwt_sound E"
    and "u \<in> set (users (db w))" and "lower (u_email u) = lower (normal_email E (lr_email b))"
    and "two_factor_of (db w) u = Some tf" and "tf_enabled tf"
    and "login_route E rq b w = (Inr resp, w')"
  shows "cookies resp = [] \<and> sessions (db w') = sessions (db w) \<and>
    (\<exists>c. body resp = login_challenge (sign E c) \<and>
       fst (verify_access E (sign E c) v) = Inl (err AuthError ''Invalid or expired access token.'') \<and>
       fst (verify_refresh E (sign E c) v) = Inl (err AuthError ''Invalid or expired refresh token.''))"
proof -
  have same: "v = u" if "v \<in> set (users (db w))" "lower (u_email v) = lower (u_email u)" for v
    using unique_lower_emails [OF assms(1)] assms(3) that by (metis (mono_tags, lifting) distinct_map inj_onD)
  have enabled: "runs (is_enabled x) v (\<lambda>b v'. b \<and> sessions (db v') = sessions (db w)) (\<lambda>_ _. True)"
    if "two_factors (db v) = two_factors (db w)" "u_id x = u_id u" "sessions (db v) = sessions (db w)" for x v
  proof -
    have "get_two_factor (u_id x) v = (Inr (two_factor_of (db w) u), v)"
      using two_factor_by_user.unique [of v "u_id x"] assms(1) that by (simp add: two_factor_of_def unique_keys_def)
    then show ?thesis using assms(5,6) that(3) by (simp add: runs_def is_enabled_def bnd_def)
  qed
  have "runs (login_route E rq b) w (\<lambda>resp w'. cookies resp = [] \<and> sessions (db w') = sessions (db w) \<and>
         (\<exists>c. body resp = login_challenge (sign E c) \<and> map_of c ''type'' = Some (JStr ''pre_auth''))) (\<lambda>_ _. True)"
    unfolding login_route_def
  proof (rule runs_bnd, rule runs_auth_rate_limit, rule runs_bnd, rule runs_lift_sum, goal_cases)
    case (1 w1 p)
    then have w1: "db w1 = db w" and p: "lr_email p = normal_email E (lr_email b)"
      by (auto dest: but_redis_fields simp: parse_login_def)
    show ?case
    proof (rule runs_bnd, rule runs_mono [OF runs_authenticate_user], goal_cases)
      case 1
      show ?case using assms(1) w1 by simp
    next
      case (2 x w2)
      then have x: "two_factors (db w2) = two_factors (db w)" "u_id x = u_id u" "sessions (db w2) = sessions (db w)"
        using same assms(4) by (auto simp: w1 p)
      show ?case
        by (rule runs_seq [OF enabled [OF x]]) (auto intro!: runs_mono [OF runs_challenge])
    qed simp
  qed simp_all
  from runs_InrD [OF this assms(7)] obtain c where c: "cookies resp = []" "sessions (db w') = sessions (db w)"
      "body resp = login_challenge (sign E c)" "map_of c ''type'' = Some (JStr ''pre_auth'')"
    by auto
  from c(1-3) show ?thesis
    by (intro conjI exI [of _ c])
       (simp_all add: c(4) verify_access_signed [OF assms(2)] verify_refresh_wrong_type [OF assms(2)])
qed

definition sample_visit :: request where
  "sample_visit = \<lparr>rq_headers = [], rq_cookies = [], rq_client = Some ''10.0.0.1''\<rparr>"

theorem password_not_enough_witness:
  "\<exists>resp w'. login_route sample_env sample_visit
       \<lparr>lr_email = ''ann@example.org'', lr_password = ''Secret-99'', lr_remember_me = False\<rparr> sample_2fa = (Inr resp, w') \<and>
     cookies resp = [] \<and> sessions (db w') = []"
proof -
  let ?b = "\<lparr>lr_email = ''ann@example.org'', lr_password = ''Secret-99'', lr_remember_me = False\<rparr>"
  have "runs (auth_rate_limit sample_env sample_visit) sample_2fa
      (\<lambda>_ w'. but_redis sample_2fa w' \<and> faults (redis w') = [] \<and>
         ref_val (redis w') (days 20000) (lockout_key ''ann@example.org'' (Some ''10.0.0.1'')) = None) (\<lambda>_ _. False)"
    unfolding auth_rate_limit_def
    by (intro sample.runs_first_hit conjI) (auto simp: redis_onlyD)
  from runs_returnsD [OF this] obtain w1 where w1: "auth_rate_limit sample_env sample_visit sample_2fa = (Inr (), w1)"
      "but_redis sample_2fa w1" "faults (redis w1) = []"
      "ref_val (redis w1) (days 20000) (lockout_key ''ann@example.org'' (Some ''10.0.0.1'')) = None"
    by auto
  note f = but_redis_fields [OF w1(2)]
  have tables: "users (db sample_2fa) = [sample_user]" "two_factors (db sample_2fa) = [sample_two_factor]"
    "sessions (db sample_2fa) = []" "hashes_readable sample_env (db sample_2fa) pw" for pw
    by (simp_all add: sample_2fa_def hashes_readable_def)
  have "runs (authenticate sample_env ''ann@example.org'' ''Secret-99'' (Some ''10.0.0.1'')) w1
      (\<lambda>u _. auth_verdict sample_env False (users (db w1)) ''ann@example.org'' ''Secret-99'' = Inr (u_id u))
      (\<lambda>e _. auth_verdict sample_env False (users (db w1)) ''ann@example.org'' ''Secret-99'' = Inl e)"
    using sample.authenticate_verdict_runs [OF w1(3), of "''Secret-99''" "''ann@example.org''" "Some ''10.0.0.1''"] f w1(4)
    by (simp add: tables)
  then have "runs (authenticate sample_env ''ann@example.org'' ''Secret-99'' (Some ''10.0.0.1'')) w1
      (\<lambda>u _. u_id u = 7) (\<lambda>_ _. False)"
    by (rule runs_mono) (simp_all add: f tables auth_verdict_def)
  from runs_returnsD [OF this] obtain u w2 where w2: "authenticate sample_env ''ann@example.org'' ''Secret-99'' (Some ''10.0.0.1'') w1 = (Inr u, w2)"
      "u_id u = 7"
    by auto
  have "two_factors (db w2) = [sample_two_factor]"
    using runs_InrD [OF runs_authenticate_user w2(1)] f by (simp add: tables)
  then obtain resp w' where run: "login_route sample_env sample_visit ?b sample_2fa = (Inr resp, w')"
    using w1(1) w2
    by (simp add: login_route_def bnd_def parse_login_def checked_def is_email_def normal_email_def length_within_def
        client_ip_def sample_visit_def is_enabled_def get_two_factor_def db_query_def audit_def issue_pre_auth_run
        sample_two_factor_def)
  show ?thesis
    using password_not_enough [OF _ jwt_sound_sample _ _ _ _ run, of sample_user sample_two_factor] run
    by (simp add: tables normal_email_def)
qed

end
