(* ===== verification/Server.thy ===== *)
theory Server
  imports App
begin

text \<open>
  Properties of the server as a whole: what a request may change, what a failed one leaves behind,
  which guards stand before the routes, and what holds along every run.
\<close>

section \<open>From a route to the server\<close>

context blind_frame
begin

lemma middlewares [intro]: "(\<And>rq. within T (endpoint rq)) \<Longrightarrow> within T (middlewares E endpoint rq)"
  unfolding middlewares_def rate_limit_dispatch_def security_headers_dispatch_def Let_def
  by (intro blind_rules rate_limit_ops) (auto split: exn.split intro: blind_rules)

lemma app [intro]: "(\<And>rq. within T (transaction E rq call)) \<Longrightarrow> within T (app E rq call)"
  unfolding app_def handle_request_def by (intro blind_rules middlewares)

end

lemma within_background:
  "(\<And>w n out. T w (w\<lparr>background := [], draws := n, outbox := out\<rparr>)) \<Longrightarrow> within T (run_background E)"
  unfolding within_def by (rule allI, rule runs_stateD, rule runs_background)

text \<open>The committed tables keep every invariant that the writes of the server keep.\<close>

interpretation committed_inv: blind_frame "\<lambda>w w'. I (committed w) \<longrightarrow> I (committed w')" for I
  by unfold_locales auto

context table_invariant
begin

lemma committed_transaction:
  "within (\<lambda>w w'. I (committed w) \<longrightarrow> I (committed w')) (transaction E rq call)"
proof -
  have "within (both I) (get_db (bnd (route E rq call) (\<lambda>resp. bnd (run_background E) (\<lambda>_. ret resp))))"
    by (intro both_get_db both.frame_rules both_route within_background) (simp add: both_def)
  then show ?thesis
    unfolding transaction_def open_session_def by (auto simp: within_def both_def)
qed

lemma committed_app: "I (committed w) \<Longrightarrow> I (committed (snd (app E rq call w)))"
  using committed_inv.app [where I = I, OF committed_transaction] by (auto simp: within_def)

lemma reachable_invariant:
  assumes "reachable E w w'" and "I (committed w)"
  shows "I (committed w')"
  using assms
proof (induction rule: reachable.induct)
  case (step w' w'')
  then show ?case by (auto elim!: server_stepE simp: committed_app)
qed

end

section \<open>Guards\<close>

text \<open>The calls that need a log-in, and those that need the CSRF token.\<close>

fun needs_login :: "api_call \<Rightarrow> bool" where
  "needs_login call = (case call of
     Health \<Rightarrow> False | Ready \<Rightarrow> False | Register _ \<Rightarrow> False | Login _ \<Rightarrow> False | LoginOtp _ \<Rightarrow> False
   | LoginRecoveryCode _ \<Rightarrow> False | Refresh \<Rightarrow> False | Logout \<Rightarrow> False | VerifyEmail _ \<Rightarrow> False
   | ForgotPassword _ \<Rightarrow> False | ResetPassword _ \<Rightarrow> False | ConfirmEmailChange _ \<Rightarrow> False
   | OAuthProviders \<Rightarrow> False | OAuthAuthorize _ \<Rightarrow> False | OAuthCallback _ _ _ \<Rightarrow> False
   | _ \<Rightarrow> True)"

fun needs_csrf :: "api_call \<Rightarrow> bool" where
  "needs_csrf call = (case call of
     Logout \<Rightarrow> True | ResendVerification \<Rightarrow> True | ChangeEmail _ \<Rightarrow> True | TwoFaSetup _ \<Rightarrow> True
   | TwoFaVerify _ \<Rightarrow> True | RecoveryCodes _ \<Rightarrow> True | RegenerateCodes _ \<Rightarrow> True | TwoFaDisable _ \<Rightarrow> True
   | LogoutCurrent \<Rightarrow> True | LogoutAll \<Rightarrow> True | RevokeSession _ \<Rightarrow> True
   | _ \<Rightarrow> False)"

text \<open>A program that does not return.\<close>

definition refused :: "('w, 'a) prog \<Rightarrow> 'w \<Rightarrow> bool" where
  "refused m w \<longleftrightarrow> (\<exists>e. fst (m w) = Inl e)"

lemma refused_bnd:
  "refused m w \<Longrightarrow> refused (bnd m f) w"
  "(\<And>x v. m w = (Inr x, v) \<Longrightarrow> refused (f x) v) \<Longrightarrow> refused (bnd m f) w"
  by (auto simp: refused_def bnd_def split: prod.splits sum.splits)

lemma refused_iff: "refused m w \<longleftrightarrow> (\<nexists>x. fst (m w) = Inr x)"
  by (cases "fst (m w)") (auto simp: refused_def)

lemma refused_transaction:
  assumes "refused (route E rq call) (w\<lparr>db := committed w, background := []\<rparr>)"
  shows "refused (transaction E rq call) w"
proof -
  obtain e w' where "route E rq call (w\<lparr>db := committed w, background := []\<rparr>) = (Inl e, w')"
    using assms by (cases "route E rq call (w\<lparr>db := committed w, background := []\<rparr>)") (auto simp: refused_def)
  then show ?thesis
    by (simp add: refused_def transaction_def open_session_def get_db_def try_except_def bnd_def rollback_def)
qed

lemma csrf_state: "verify_csrf E rq w = (r, w') \<Longrightarrow> w' = w"
  using verify_csrf_state [of E rq w] by simp

lemma login_refused:
  fixes w :: "'r world"
  assumes "needs_login call" and "refused (get_auth_context E rq) w"
  shows "refused (route E rq call) w"
proof -
  have user: "refused (get_current_user E rq) w" "refused (user_and_session E rq) w"
    "refused (require_permission E c rq) w" "refused (twofa_guard E rq) w" for c
    unfolding get_current_user_def user_and_session_def require_permission_def twofa_guard_def
    by (intro refused_bnd(1) assms(2))+
  have csrf: "refused (bnd (verify_csrf E rq) (\<lambda>_. m)) w" if "refused m w" for m :: "('r world, response) prog"
    using that by (auto intro: refused_bnd(2) dest: csrf_state)
  show ?thesis
    using assms(1)
    by (cases call)
       (simp_all add: me_route_def account_route_defs refused_bnd(1) [OF user(1)] refused_bnd(1) [OF user(2)]
          refused_bnd(1) [OF user(3)] refused_bnd(1) [OF user(4)] csrf)
qed

lemma csrf_refused:
  fixes w :: "'r world"
  assumes "needs_csrf call" and "\<And>v :: 'r world. refused (verify_csrf E rq) v"
  shows "refused (route E rq call) w"
proof -
  have guard: "refused (twofa_guard E rq) w"
    unfolding twofa_guard_def
    by (rule refused_bnd(2), rule refused_bnd(2), rule refused_bnd(1) [OF assms(2)])
  show ?thesis
    using assms(1)
    by (cases call) (simp_all add: logout_route_def account_route_defs refused_bnd(1) [OF assms(2)] refused_bnd(1) [OF guard])
qed

section \<open>Failed requests\<close>

interpretation same_outbox: commit_frame "\<lambda>w w'. outbox w' = outbox w"
  by unfold_locales auto

lemma transaction_fails:
  assumes "transaction E rq call w = (Inl e, w')"
  shows "(committed w' = committed w \<or> one_closed (committed w) (committed w')) \<and> outbox w' = outbox w \<and>
    db w' = committed w'"
proof -
  let ?w = "w\<lparr>db := committed w, background := []\<rparr>"
  have mail: "\<exists>v'. run_background E v = (Inr (), v')" for v :: "'a world"
    using runs_background [where S = "\<lambda>_ _. True" and F = "\<lambda>_ _. False" and E = E and w = v]
    by (auto dest: runs_returnsD)
  from assms obtain w1 where run: "route E rq call ?w = (Inl e, w1)" and w': "w' = w1\<lparr>db := committed w1\<rparr>"
    using mail by (auto simp: transaction_def open_session_def get_db_Inl_iff bnd_eq_Inl) (metis prod.inject sum.distinct(1))
  have "committed w1 = committed w \<or> one_closed (committed w) (committed w1)"
    using runs_InlD [OF unit_route [of E rq call ?w, unfolded unit_of_work_def] run] by simp
  moreover have "outbox w1 = outbox w"
    using withinD [OF same_outbox.route run] by simp
  ultimately show ?thesis by (simp add: w')
qed

section \<open>Closed sessions\<close>

lemma validate_closed:
  assumes "session_closed sid (db w)" and "\<And>e w'. F e w'"
  shows "runs (validate_and_touch E sid uid) w S F"
proof -
  have exists: "runs (redis_exists E k) w (\<lambda>_ w'. db w' = db w) (\<lambda>_ _. True)" for k
    by (rule runs_mono [OF runs_within [OF same_tables.redis_ops(1)]]) auto
  have "runs (bnd (redis_exists E k) (\<lambda>revoked. if revoked then raise e else bnd (get_by_uuid sid) (\<lambda>found.
      case found of None \<Rightarrow> raise e' | Some record \<Rightarrow>
        if s_user_id record \<noteq> uid \<or> \<not> s_is_active record then raise e' else f record))) w S F"
    for k e e' and f :: "session_row \<Rightarrow> ('a world, session_row) prog"
    by (intro runs_intros runs_mono [OF exists] session_by_uuid.runs_find assms(2))
       (use assms(1) in \<open>auto simp: session_closed_def\<close>)
  then show ?thesis by (simp add: validate_and_touch_def)
qed

lemma auth_closed:
  fixes w :: "'r world"
  assumes closed: "session_closed sid (db w)" and jwt: "jwt_sound E"
    and cookie: "cookie_of rq (ACCESS_COOKIE_NAME (cfg E)) = Some (sign E c)"
    and sid: "get_claim c ''sid'' = Some (uuid_str sid)"
  shows "refused (get_auth_context E rq) w"
proof -
  have verify: "runs (verify_access E (sign E c)) w (\<lambda>x w'. x = c \<and> w' = w) (\<lambda>_ _. True)"
    by (simp add: runs_def verify_access_signed [OF jwt])
  have subject: "runs (token_subject c) w (\<lambda>_ w'. w' = w) (\<lambda>_ _. True)"
    unfolding token_subject_def uuid_or_def by (intro runs_intros) (auto intro!: runs_intros)
  have "runs (get_auth_context E rq) w (\<lambda>_ _. False) (\<lambda>_ _. True)"
    unfolding get_auth_context_def Let_def cookie option.sel
    apply (intro runs_intros runs_mono [OF verify] TrueI)
    apply (elim conjE)
    apply (simp only: sid option.case uuid_or_def uuid_of_str_uuid_str)
    apply (intro runs_intros runs_mono [OF subject] runs_get_user validate_closed TrueI)
    using closed apply simp_all
    done
  then show ?thesis by (auto simp: refused_def dest!: runs_raisesD)
qed

lemma closed_refused:
  assumes "jwt_sound E" and "session_closed sid (committed w)" and "reachable E w w'"
    and "cookie_of rq (ACCESS_COOKIE_NAME (cfg E)) = Some (sign E c)"
    and "get_claim c ''sid'' = Some (uuid_str sid)" and "needs_login call"
  shows "session_closed sid (committed w') \<and> (\<exists>e v. transaction E rq call w' = (Inl e, v))"
proof -
  have closed: "session_closed sid (committed w')"
    by (rule closed.reachable_invariant [OF assms(3,2)])
  then have "refused (transaction E rq call) w'"
    by (intro refused_transaction login_refused [OF assms(6)] auth_closed [OF _ assms(1,4,5)]) simp
  with closed show ?thesis by (cases "transaction E rq call w'") (auto simp: refused_def)
qed

text \<open>
  A CSRF cookie or header with a character outside of ASCII is not refused with 403: the comparison
  itself raises, and the request is answered by the server-error handler.
\<close>

lemma csrf_type_error:
  assumes "cookie_of rq (CSRF_COOKIE_NAME (cfg E)) = Some a" "header_of (rq_headers rq) (CSRF_HEADER_NAME (cfg E)) = Some b"
    and "a \<noteq> []" "b \<noteq> []" "\<not> (is_ascii a \<and> is_ascii b)"
  shows "fst (handle_request E Logout rq w) = Inl TypeError \<and> status (handle_exn TypeError) = 500"
  by (simp add: handle_request_def transaction_def open_session_def get_db_def try_except_def bnd_def rollback_def
      logout_route_def verify_csrf_type_error [OF assms] json_response_def)

section \<open>What the server promises\<close>

text \<open>
  C8. A request is one unit of work: if its route raises, no mail is sent and the committed tables are
  those before the request, but for at most one session that was closed (expired, or ended because
  its refresh token was replayed). Nothing else of a failed request is kept.
\<close>

theorem failed_request_atomic:
  assumes "transaction E rq call w = (Inl e, w')"
  shows "outbox w' = outbox w \<and>
    (committed w' = committed w \<or> (\<exists>r t why. committed w' = close_in_db r t why (committed w)))"
  using transaction_fails [OF assms] by (simp add: one_closed_def)

theorem failed_request_atomic_witness:
  "\<exists>e w'. transaction sample_env \<lparr>rq_headers = [], rq_cookies = [], rq_client = None\<rparr> Me sample_world = (Inl e, w') \<and>
     outbox w' = []"
proof -
  have "fst (transaction sample_env \<lparr>rq_headers = [], rq_cookies = [], rq_client = None\<rparr> Me sample_world) =
      Inl (err AuthError ''Not authenticated.'')"
    by (simp add: transaction_def open_session_def get_db_def try_except_def me_route_def get_current_user_def
        get_auth_context_def cookie_of_def bnd_def rollback_def)
  then show ?thesis
    using failed_request_atomic [of sample_env "\<lparr>rq_headers = [], rq_cookies = [], rq_client = None\<rparr>" Me sample_world]
    by (cases "transaction sample_env \<lparr>rq_headers = [], rq_cookies = [], rq_client = None\<rparr> Me sample_world") auto
qed



text \<open>
  C2. A closed session is closed for good: whatever requests are made, however much time passes and
  whatever happens to the store of Redis, the session stays closed in the committed tables, and
  every call that needs a log-in is refused to an access token bound to it.
\<close>

theorem closed_session_refused_forever:
  assumes "jwt_sound E" and "session_closed sid (committed w)" and "reachable E w w'"
    and "cookie_of rq (ACCESS_COOKIE_NAME (cfg E)) = Some (sign E c)"
    and "get_claim c ''sid'' = Some (uuid_str sid)" and "needs_login call"
  shows "session_closed sid (committed w') \<and> (\<exists>e v. transaction E rq call w' = (Inl e, v))"
  by (rule closed_refused [OF assms])

text \<open>The sample session, closed, and an access token that is bound to it.\<close>

definition sample_closed :: "ref_store world" where
  "sample_closed = sample_world\<lparr>committed := sample_db\<lparr>sessions := [close_row (days 20000) ''logout'' sample_session]\<rparr>\<rparr>"

definition sample_claims :: claims where
  "sample_claims = [(''sub'', JStr (uuid_str 7)), (''type'', JStr ''access''), (''exp'', JInt 1728000900),
     (''sid'', JStr (uuid_str 9))]"

definition sample_request :: request where
  "sample_request = \<lparr>rq_headers = [(''X-CSRF-Token'', ''t'')],
     rq_cookies = [(''access_token'', sign sample_env sample_claims), (''csrf_token'', ''t'')], rq_client = None\<rparr>"

theorem closed_session_refused_forever_witness:
  "\<exists>e v. transaction sample_env sample_request LogoutAll
     (tick (minutes 1) (snd (app sample_env sample_request Me sample_closed))) = (Inl e, v)"
proof -
  have "reachable sample_env sample_closed (tick (minutes 1) (snd (app sample_env sample_request Me sample_closed)))"
    by (rule reachable.step [OF reachable.step [OF reachable.start server_step.request] server_step.time])
       (simp add: time_defs)
  with closed_session_refused_forever [OF jwt_sound_sample, of 9 sample_closed _ sample_request sample_claims LogoutAll]
  show ?thesis
    by (simp add: session_closed_def sample_closed_def sample_request_def cookie_of_def get_claim_def sample_claims_def)
qed




end
