(* ===== verification/Access.thy ===== *)
theory Access
  imports Server
begin

text \<open>
  Who is let in: what \<open>get_auth_context\<close> decides for a signed token, what the cookies of a log-in
  open and for how long, how a replayed refresh token ends its session, and who may list users.
\<close>

section \<open>The decision on a request\<close>

text \<open>What a set of access claims stands for at the state \<open>w\<close>: a live token of an active user.\<close>

definition live_token :: "'r world \<Rightarrow> claims \<Rightarrow> uuid \<Rightarrow> uuid \<Rightarrow> bool" where
  "live_token w c i sid \<longleftrightarrow> claims_live (clock w) c \<and> map_of c ''type'' = Some (JStr ''access'') \<and>
     map_of c ''sub'' = Some (JStr (uuid_str i)) \<and> get_claim c ''sid'' = Some (uuid_str sid) \<and>
     (\<exists>u \<in> set (users (db w)). u_id u = i \<and> u_is_active u)"

context redis_env
begin

lemma context_decides:
  assumes sane: "sane (cfg E)" and up: "up (redis w)" and unique: "unique_keys (db w)" and jwt: "jwt_sound E"
    and cookie: "cookie_of rq (ACCESS_COOKIE_NAME (cfg E)) = Some (sign E c)" "sign E c \<noteq> []"
    and c: "map_of c ''sub'' = Some (JStr (uuid_str i))" "get_claim c ''sid'' = Some (uuid_str sid)"
  defines "ok \<equiv> \<lambda>r. live_token w c i sid \<and> seen w (revoked_key sid) = None \<and> r \<in> set (sessions (db w)) \<and>
      s_session_uuid r = sid \<and> s_user_id r = i \<and> usable (cfg E) r (clock w)"
  shows "runs (get_auth_context E rq) w
     (\<lambda>ctx w'. u_id (ctx_user ctx) = i \<and> ctx_user ctx \<in> set (users (db w)) \<and>
        (\<exists>r. ok r \<and> (\<exists>r' \<in> {r, touch_row (clock w) r}. ctx_session ctx = Some r')))
     (\<lambda>_ _. \<not> (\<exists>r. ok r))"
proof -
  have verify: "runs (verify_access E (sign E c)) w
      (\<lambda>x w'. x = c \<and> w' = w \<and> claims_live (clock w) c \<and> map_of c ''type'' = Some (JStr ''access''))
      (\<lambda>_ _. \<not> (\<exists>r. ok r))"
    by (auto simp: runs_def verify_access_signed [OF jwt] ok_def live_token_def)
  have subject: "token_subject c = ret i"
    by (rule ext) (simp add: token_subject_def uuid_or_def c(1) try_except_def)
  have ids: "v = u" if "u \<in> set (users (db w))" "v \<in> set (users (db w))" "u_id u = u_id v" for u v
    using unique that by (auto simp: unique_keys_def distinct_map dest: inj_onD)
  have sessions: "distinct (List.map s_session_uuid (sessions (db w)))"
    using unique by (simp add: unique_keys_def)
  show ?thesis
    unfolding get_auth_context_def Let_def cookie(1) option.sel
    apply (intro runs_intros)
     apply (simp add: cookie(2))
    apply (rule runs_mono [OF verify])
     apply (elim conjE, simp only: subject bnd_ret c(2) option.case uuid_or_def uuid_of_str_uuid_str)
     apply (intro runs_intros runs_get_user runs_mono [OF validate_decides [OF sane up sessions]])
    using c apply (auto simp: ok_def live_token_def dest: ids)
    done
qed

end

lemma sign_sample [simp]: "sign sample_env c \<noteq> []"
  by (simp add: sign_def sample_env_def sample_jwt_encode_def tally_def)

text \<open>
  C1. Exactly who is let in. A request whose access cookie is a signed set of claims for the user \<open>i\<close>
  and the session \<open>sid\<close> is authenticated, as that user, exactly if the token is an access token
  before its expiry, the account exists and is active, Redis does not flag the session as revoked,
  and the session is one of this user, active, and neither expired nor idle too long. Otherwise
  every call that needs a log-in fails.
\<close>

theorem access_granted_iff:
  assumes "redis_env E val up" and "sane (cfg E)" and "up (redis w)" and "unique_keys (db w)" and "jwt_sound E"
    and "cookie_of rq (ACCESS_COOKIE_NAME (cfg E)) = Some (sign E c)" and "sign E c \<noteq> []"
    and "map_of c ''sub'' = Some (JStr (uuid_str i))" and "get_claim c ''sid'' = Some (uuid_str sid)"
  defines "granted \<equiv> claims_live (clock w) c \<and> map_of c ''type'' = Some (JStr ''access'') \<and>
      (\<exists>u \<in> set (users (db w)). u_id u = i \<and> u_is_active u) \<and>
      val (redis w) (clock w) (revoked_key sid) = None \<and>
      (\<exists>r \<in> set (sessions (db w)). s_session_uuid r = sid \<and> s_user_id r = i \<and> usable (cfg E) r (clock w))"
  shows "(if granted then \<exists>ctx. fst (get_auth_context E rq w) = Inr ctx \<and> u_id (ctx_user ctx) = i
          else \<exists>e. fst (get_auth_context E rq w) = Inl e) \<and>
    (needs_login call \<and> \<not> granted \<longrightarrow> (\<exists>e. fst (route E rq call w) = Inl e))"
proof -
  have "runs (get_auth_context E rq) w (\<lambda>ctx _. granted \<and> u_id (ctx_user ctx) = i) (\<lambda>_ _. \<not> granted)"
    by (rule runs_mono [OF redis_env.context_decides [OF assms(1-9)]]) (auto simp: granted_def live_token_def assms(8,9))
  then have decision: "if granted then \<exists>ctx. fst (get_auth_context E rq w) = Inr ctx \<and> u_id (ctx_user ctx) = i
          else \<exists>e. fst (get_auth_context E rq w) = Inl e"
    by (auto simp: runs_def split: prod.splits sum.splits)
  then show ?thesis
    using login_refused [of call E rq w] by (auto simp: refused_def split: if_splits)
qed

theorem access_granted_iff_witness:
  "\<exists>ctx. fst (get_auth_context sample_env sample_request (tick (minutes 5) sample_login)) = Inr ctx \<and>
     u_id (ctx_user ctx) = 7"
proof -
  show ?thesis
    using access_granted_iff [OF sample.redis_env_axioms, of "tick (minutes 5) sample_login" sample_request sample_claims 7 9 Me]
    by (simp add: sample_request_def cookie_of_def get_claim_def sample_claims_def usable_def time_defs claims_live.simps)
qed

section \<open>The session of a log-in\<close>

context redis_env
begin

lemma runs_finalize_login:
  assumes sane: "sane (cfg E)" and up: "up (redis w)"
  shows "runs (finalize_login E rq user rm) w
    (\<lambda>resp w'. \<exists>refresh csrf r. cookies resp = set_auth_cookies (cfg E)
         \<lparr>tp_access = sign E (access_claims E (uuid_str (u_id user)) (Some (uuid_str (uuid4 E (draws w))))
             (uuid_str (uuid4 E (Suc (draws w)))) (clock w)),
          tp_refresh = refresh, tp_refresh_ttl = refresh_ttl (cfg E) rm\<rparr> csrf \<and>
       users (db w') = users (db w) \<and> sessions (db w') = sessions (db w) @ [r] \<and>
       s_session_uuid r = uuid4 E (draws w) \<and> s_user_id r = u_id user \<and> s_is_active r \<and>
       s_last_activity_at r = clock w \<and> s_expires_at r = session_expiry (cfg E) rm (clock w) \<and>
       clock w' = clock w \<and> up (redis w') \<and>
       (\<forall>t \<ge> clock w. val (redis w') t (revoked_key (uuid4 E (draws w))) = val (redis w) t (revoked_key (uuid4 E (draws w)))))
    (\<lambda>_ _. True)"
proof -
  have pos: "0 < SESSION_IDLE_TIMEOUT_MINUTES (cfg E) * 60" using saneD(6) [OF sane] by simp
  show ?thesis
    unfolding finalize_login_def create_session_def has_any_for_user_def has_matching_device_def add_session_def
      set_active_def generate_csrf_token_def read_user_def Let_def
    by (intro runs_intros runs_issue_pair runs_insert_row runs_redis_set pos TrueI)
       (auto simp: up redis_upd_fields redis_upd_vals)
qed

end

lemma access_claims_facts:
  assumes "sid \<noteq> []"
  shows "map_of (access_claims E u (Some sid) j t) ''sub'' = Some (JStr u)"
    "get_claim (access_claims E u (Some sid) j t) ''sid'' = Some sid"
    "map_of (access_claims E u (Some sid) j t) ''type'' = Some (JStr ''access'')"
    "map_of (access_claims E u (Some sid) j t) ''exp'' =
       Some (JInt (int_seconds (t + minutes (ACCESS_TOKEN_EXPIRE_MINUTES (cfg E)))))"
  using assms by (auto simp: access_claims_def get_claim_def map_add_def split: option.splits list.splits)

text \<open>
  C4. A log-in works, and only for its time: the access cookie it sets authenticates its user at any
  later moment of the same state exactly while the token is alive, the session is not idle for longer
  than its timeout and has not reached its expiry, the shorter of the refresh lifetime and the
  absolute lifetime of sessions.
\<close>

theorem login_session_works:
  assumes "redis_env E val up" and "sane (cfg E)" and "up (redis w)" and "jwt_sound E"
    and "unique_keys (db w)" and "unique_keys (committed w)"
    and "user \<in> set (users (db w))" and "u_is_active user"
    and "val (redis w) (clock w) (revoked_key (uuid4 E (draws w))) = None"
    and "finalize_login E rq user rm w = (Inr resp, w')"
    and "ACCESS_COOKIE_NAME (cfg E) \<noteq> REFRESH_COOKIE_NAME (cfg E)" and "ACCESS_COOKIE_NAME (cfg E) \<noteq> CSRF_COOKIE_NAME (cfg E)"
    and "SetCookie (ACCESS_COOKIE_NAME (cfg E)) tok attrs \<in> set (cookies resp)" and "tok \<noteq> []"
    and "cookie_of rq' (ACCESS_COOKIE_NAME (cfg E)) = Some tok" and "0 \<le> d"
  shows "(\<exists>ctx. fst (get_auth_context E rq' (tick d w')) = Inr ctx \<and> u_id (ctx_user ctx) = u_id user) \<longleftrightarrow>
    clock w + d < seconds (int_seconds (clock w + minutes (ACCESS_TOKEN_EXPIRE_MINUTES (cfg E)))) \<and>
    d \<le> minutes (SESSION_IDLE_TIMEOUT_MINUTES (cfg E)) \<and>
    d < min (refresh_ttl (cfg E) rm) (hours (SESSION_ABSOLUTE_EXPIRE_HOURS (cfg E)))"
proof -
  let ?sid = "uuid4 E (draws w)" and ?w = "tick d w'"
  let ?c = "access_claims E (uuid_str (u_id user)) (Some (uuid_str ?sid)) (uuid_str (uuid4 E (Suc (draws w)))) (clock w)"
  from runs_InrD [OF redis_env.runs_finalize_login [OF assms(1-3)] assms(10)]
  obtain refresh csrf r where cs: "cookies resp = set_auth_cookies (cfg E)
      \<lparr>tp_access = sign E ?c, tp_refresh = refresh, tp_refresh_ttl = refresh_ttl (cfg E) rm\<rparr> csrf"
    and w': "users (db w') = users (db w)" "sessions (db w') = sessions (db w) @ [r]" "clock w' = clock w" "up (redis w')"
      "\<forall>t \<ge> clock w. val (redis w') t (revoked_key ?sid) = val (redis w) t (revoked_key ?sid)"
    and r: "s_session_uuid r = ?sid" "s_user_id r = u_id user" "s_is_active r" "s_last_activity_at r = clock w"
      "s_expires_at r = session_expiry (cfg E) rm (clock w)"
    by blast
  have unique: "unique_keys (db w')"
    using unique_tables.both_login_ops(1) [of E rq user rm] assms(5,6,10) by (auto dest: withinD bothD)
  have tok: "tok = sign E ?c" using assms(11-13) by (auto simp: cs set_auth_cookies_def)
  note c = access_claims_facts [where E = E and u = "uuid_str (u_id user)" and sid = "uuid_str ?sid"
      and j = "uuid_str (uuid4 E (Suc (draws w)))" and t = "clock w", OF uuid_str_nonempty]
  have flag: "val (redis w') (clock w + d) (revoked_key ?sid) = None"
    using redis_service.val_None_later [OF redis_env.axioms [OF assms(1)] assms(9)] assms(16) w'(5) by simp
  have only: "s = r" if "s \<in> set (sessions (db w'))" "s_session_uuid s = ?sid" for s
    using session_lookup [of "db w'" s r] unique that w'(2) r(1) by (simp add: unique_keys_def)
  have "runs (get_auth_context E rq') ?w
      (\<lambda>ctx _. u_id (ctx_user ctx) = u_id user \<and> claims_live (clock w + d) ?c \<and> usable (cfg E) r (clock w + d))
      (\<lambda>_ _. \<not> (claims_live (clock w + d) ?c \<and> usable (cfg E) r (clock w + d)))"
  proof (rule runs_mono [OF redis_env.context_decides [OF assms(1,2) _ _ assms(4) _ _ c(1,2)]], goal_cases)
    case (5 ctx v)
    then show ?case using only by (auto simp: live_token_def w'(3))
  next
    case (6 e v)
    have "live_token ?w ?c (u_id user) ?sid \<longleftrightarrow> claims_live (clock w + d) ?c"
      using assms(7,8) by (auto simp: live_token_def w'(1,3) c)
    moreover have "r \<in> set (sessions (db ?w))" by (simp add: w'(2))
    ultimately show ?case using 6 r flag by (auto simp: w'(3))
  qed (simp_all add: w'(4) unique assms(15) tok [symmetric] assms(14))
  moreover have "claims_live (clock w + d) ?c \<longleftrightarrow>
      clock w + d < seconds (int_seconds (clock w + minutes (ACCESS_TOKEN_EXPIRE_MINUTES (cfg E))))"
    by (simp add: claims_live.simps c(4))
  moreover have "usable (cfg E) r (clock w + d) \<longleftrightarrow> d \<le> minutes (SESSION_IDLE_TIMEOUT_MINUTES (cfg E)) \<and>
      d < min (refresh_ttl (cfg E) rm) (hours (SESSION_ABSOLUTE_EXPIRE_HOURS (cfg E)))"
    by (auto simp: usable_def r session_expiry_def refresh_ttl_def Let_def)
  ultimately show ?thesis by (auto simp: runs_def split: prod.splits sum.splits)
qed

definition sample_visitor :: "(string \<times> string) list \<Rightarrow> request" where
  "sample_visitor cs = \<lparr>rq_headers = [], rq_cookies = cs, rq_client = None\<rparr>"

theorem login_session_works_witness:
  "\<exists>resp w' tok attrs. finalize_login sample_env (sample_visitor []) sample_user False sample_world = (Inr resp, w') \<and>
     SetCookie ''access_token'' tok attrs \<in> set (cookies resp) \<and>
     (\<exists>ctx. fst (get_auth_context sample_env (sample_visitor [(''access_token'', tok)]) (tick (seconds 899) w')) =
        Inr ctx \<and> u_id (ctx_user ctx) = 7) \<and>
     \<not> (\<exists>ctx. fst (get_auth_context sample_env (sample_visitor [(''access_token'', tok)]) (tick (seconds 900) w')) =
        Inr ctx \<and> u_id (ctx_user ctx) = 7)"
proof -
  have readable: "user_read sample_env d sample_user \<noteq> Inl e" for d e
    by (simp add: user_read_def is_email_def sample_user_def)
  have "runs (finalize_login sample_env (sample_visitor []) sample_user False) sample_world
      (\<lambda>resp _. \<exists>pair csrf. cookies resp = set_auth_cookies default_settings pair csrf \<and> tp_access pair \<noteq> []) (\<lambda>_ _. False)"
    unfolding finalize_login_def create_session_def has_any_for_user_def has_matching_device_def add_session_def
      set_active_def generate_csrf_token_def read_user_def Let_def
    by (intro runs_intros runs_issue_pair runs_insert_row sample.runs_redis_set)
       (auto simp: readable)
  from runs_returnsD [OF this] obtain resp w' pair csrf where run:
      "finalize_login sample_env (sample_visitor []) sample_user False sample_world = (Inr resp, w')"
      "cookies resp = set_auth_cookies default_settings pair csrf" "tp_access pair \<noteq> []"
    by auto
  note works = login_session_works [OF sample.redis_env_axioms _ _ jwt_sound_sample _ _ _ _ _ run(1),
      where tok = "tp_access pair" and rq' = "sample_visitor [(''access_token'', tp_access pair)]"]
  show ?thesis
    using works [where d = "seconds 899"] works [where d = "seconds 900"] run
    by (auto simp: set_auth_cookies_def sample_visitor_def cookie_of_def refresh_ttl_def time_defs int_seconds_def)
qed

section \<open>A replayed refresh token\<close>

context redis_env
begin

lemma runs_refresh_replay:
  assumes sane: "sane (cfg E)" and up: "up (redis w)" and jwt: "jwt_sound E"
    and unique: "distinct (List.map s_session_uuid (sessions (db w)))"
    and cookie: "cookie_of rq (REFRESH_COOKIE_NAME (cfg E)) = Some (sign E c)" "sign E c \<noteq> []"
    and c: "claims_live (clock w) c" "map_of c ''type'' = Some (JStr ''refresh'')" "map_of c ''jti'' = Some (JStr j)"
      "get_claim c ''sid'' = Some (uuid_str sid)"
    and replayed: "seen w (blacklist_key j) \<noteq> None"
    and r: "r \<in> set (sessions (db w))" "s_session_uuid r = sid" and same: "committed w = db w"
  shows "runs (refresh_route E rq) w (\<lambda>_ _. False)
    (\<lambda>e w'. e = err AuthError (message_of (err0 TokenReplayError)) \<and> session_closed sid (committed w'))"
proof -
  have rotate: "runs (rotate_tokens E (sign E c)) w (\<lambda>_ _. False)
      (\<lambda>e w'. e = err0 TokenReplayError \<and> redis_upd val (\<lambda>t f. f) w w' \<and> up (redis w'))"
    unfolding rotate_tokens_def Let_def
    by (rule runs_bnd, rule runs_verify_refresh [OF jwt c(1-3)]) (use up replayed in auto)
  have stays: "session_closed (s_session_uuid x) (db w)" if "x \<in> set (sessions (db w))" "\<not> s_is_active x" for x
    using that session_lookup [OF unique] by (auto simp: session_closed_def)
  have revoke: "runs (revoke_by_sid E (uuid_str sid) why) v
      (\<lambda>x v'. if x = None then session_closed sid (committed v') else session_closed sid (db v')) (\<lambda>_ _. False)"
    if v: "db v = db w" "committed v = db w" "up (redis v)" for v why
    unfolding revoke_by_sid_def uuid_of_str_uuid_str option.case
    by (intro runs_intros session_by_uuid.runs_find runs_revoke sane)
       (use v r unique in \<open>auto intro: close_in_db_closed [OF unique] stays\<close>)
  have handle: "runs (handle_refresh_replay E (sign E c)) v (\<lambda>_ v'. session_closed sid (committed v')) (\<lambda>_ _. False)"
    if v: "redis_upd val (\<lambda>t f. f) w v" "up (redis v)" for v
  proof -
    have fields: "clock v = clock w" "db v = db w" "committed v = db w"
      using redis_upd_fields [OF v(1)] same by simp_all
    have decode: "runs (try_except (bnd (decode_token E (sign E c) (Some ''refresh'')) (\<lambda>p. ret (Some p)))
        (\<lambda>_. True) (\<lambda>_. ret None)) v (\<lambda>x v'. x = Some c \<and> v' = v) (\<lambda>_ _. False)"
      using c by (simp add: runs_def try_except_def bnd_def decode_signed [OF jwt] fields)
    show ?thesis
      unfolding handle_refresh_replay_def
      by (rule runs_seq [OF decode])
         (auto simp: c(4) fields v(2) split: if_splits intro!: runs_intros runs_mono [OF revoke])
  qed
  show ?thesis
    unfolding refresh_route_def Let_def cookie(1) option.sel
    apply (rule runs_if)
     apply (simp add: cookie(2))
    apply (rule runs_bnd, rule runs_try_except, rule runs_mono [OF rotate])
    apply (auto intro!: runs_intros runs_mono [OF handle])
    done
qed

end

text \<open>
  C5. Theft of a refresh token ends the session: if a refresh token that was already rotated (its
  identifier is on the blacklist) is presented again, the request is refused, but the end of the
  session is committed, and from then on, whatever happens, every call that needs a log-in is
  refused to every access token of the session, also to those the thief got from the first
  rotation.
\<close>

theorem replay_ends_session:
  assumes "redis_env E val up" and "sane (cfg E)" and "up (redis w)" and "jwt_sound E" and "unique_keys (committed w)"
    and "cookie_of rq (REFRESH_COOKIE_NAME (cfg E)) = Some (sign E c)" and "sign E c \<noteq> []"
    and "claims_live (clock w) c" and "map_of c ''type'' = Some (JStr ''refresh'')"
    and "map_of c ''jti'' = Some (JStr j)" and "get_claim c ''sid'' = Some (uuid_str sid)"
    and "val (redis w) (clock w) (blacklist_key j) \<noteq> None"
    and "r \<in> set (sessions (committed w))" and "s_session_uuid r = sid"
  shows "\<exists>w'. transaction E rq Refresh w = (Inl (err AuthError ''Refresh token reuse detected.''), w') \<and>
    session_closed sid (committed w') \<and>
    (\<forall>w'' rq' c' call. reachable E w' w'' \<and> needs_login call \<and> get_claim c' ''sid'' = Some (uuid_str sid) \<and>
       cookie_of rq' (ACCESS_COOKIE_NAME (cfg E)) = Some (sign E c') \<longrightarrow>
       (\<exists>e v. transaction E rq' call w'' = (Inl e, v)))"
proof -
  let ?w = "w\<lparr>db := committed w, background := []\<rparr>"
  have "runs (refresh_route E rq) ?w (\<lambda>_ _. False)
    (\<lambda>e w'. e = err AuthError (message_of (err0 TokenReplayError)) \<and> session_closed sid (committed w'))"
    by (rule redis_env.runs_refresh_replay [OF assms(1,2) _ assms(4) _ assms(6,7) _ assms(9-11)])
       (use assms in \<open>auto simp: unique_keys_def\<close>)
  then have "runs (transaction E rq Refresh) w (\<lambda>_ _. False)
    (\<lambda>e w'. e = err AuthError ''Refresh token reuse detected.'' \<and> session_closed sid (committed w'))"
    unfolding transaction_def open_session_def route.simps
    by (intro runs_intros) (elim runs_mono; simp)
  from runs_raisesD [OF this] show ?thesis
    using closed_refused [OF assms(4)] by blast
qed

text \<open>The sample session after its refresh token was rotated.\<close>

definition sample_rotated :: "ref_store world" where
  "sample_rotated = sample_login\<lparr>redis := put_entry (blacklist_key ''old'') (Some (Text ''1'', Some (days 20001))) empty_store\<rparr>"

lemma sample_rotated_simps [simp]:
  "clock sample_rotated = days 20000" "faults (redis sample_rotated) = []"
  "ref_val (redis sample_rotated) (days 20000) (blacklist_key ''old'') \<noteq> None"
  "sessions (committed sample_rotated) = [sample_session]" "unique_keys (committed sample_rotated)"
proof -
  have "committed sample_rotated = db sample_login" by (simp add: sample_rotated_def sample_login_def)
  then show "unique_keys (committed sample_rotated)" by simp
qed (simp_all add: sample_rotated_def time_defs put_entry_def empty_store_def ref_val_def)

theorem replay_ends_session_witness:
  "session_closed 9 (committed (snd (transaction sample_env
     (sample_visitor [(''refresh_token'', sign sample_env (refresh_claims sample_env (uuid_str 7) False (Some (uuid_str 9)) ''old'' (days 19999)))])
     Refresh sample_rotated)))"
proof -
  let ?c = "refresh_claims sample_env (uuid_str 7) False (Some (uuid_str 9)) ''old'' (days 19999)"
  have c: "map_of ?c ''type'' = Some (JStr ''refresh'')" "map_of ?c ''jti'' = Some (JStr ''old'')"
      "get_claim ?c ''sid'' = Some (uuid_str 9)" "claims_live (days 20000) ?c"
    by (auto simp: refresh_claims_def get_claim_def map_add_def split: option.splits list.splits)
       (simp add: refresh_ttl_def time_defs int_seconds_def)
  have cookie: "cookie_of (sample_visitor [(''refresh_token'', tok)]) ''refresh_token'' = Some tok" for tok
    by (simp add: sample_visitor_def cookie_of_def)
  have "\<exists>w'. transaction sample_env (sample_visitor [(''refresh_token'', sign sample_env ?c)]) Refresh sample_rotated =
      (Inl (err AuthError ''Refresh token reuse detected.''), w') \<and> session_closed 9 (committed w')"
    using replay_ends_session [OF sample.redis_env_axioms _ _ jwt_sound_sample _ _ sign_sample _ c(1-3), where w = sample_rotated
        and r = sample_session and rq = "sample_visitor [(''refresh_token'', sign sample_env ?c)]"] c(4) cookie
    by (auto simp del: needs_login.simps)
  then show ?thesis by auto
qed

section \<open>Listing users\<close>

text \<open>Authentication writes no table but the sessions.\<close>

interpretation only_sessions: session_frame "\<lambda>w w'. (db w')\<lparr>sessions := []\<rparr> = (db w)\<lparr>sessions := []\<rparr>"
  by unfold_locales simp_all

text \<open>What does not read the sessions cannot tell such databases apart.\<close>

lemma but_sessions:
  assumes "d\<lparr>sessions := []\<rparr> = d'\<lparr>sessions := []\<rparr>"
  shows "users d = users d'" "has_permission d u c = has_permission d' u c" "users_read E d us = users_read E d' us"
proof -
  show tables: "users d = users d'"
    using arg_cong [OF assms, of users] by simp
  have roles: "roles d = roles d'" "permissions d = permissions d'" "user_roles d = user_roles d'"
    "role_permissions d = role_permissions d'"
    using arg_cong [OF assms, of roles] arg_cong [OF assms, of permissions] arg_cong [OF assms, of user_roles]
      arg_cong [OF assms, of role_permissions] by simp_all
  then have "role_permission_codes d = role_permission_codes d'"
    by (simp add: fun_eq_iff role_permission_codes_def)
  with roles have codes: "permission_codes d = permission_codes d'" "role_names d = role_names d'"
    by (intro ext; simp add: permission_codes_def role_names_def roles_of_def)+
  then show "has_permission d u c = has_permission d' u c" by (simp add: has_permission_def)
  show "users_read E d us = users_read E d' us"
    by (induction us) (simp_all add: user_read_def codes)
qed

lemma users_read_length: "users_read E d us = Inr vs \<Longrightarrow> length vs = length us"
  by (induction E d us arbitrary: vs rule: users_read.induct) (auto split: sum.splits)

lemma runs_get_current_user:
  "runs (get_current_user E rq) w (\<lambda>u w'. u \<in> set (users (db w)) \<and> u_is_active u \<and>
     (db w')\<lparr>sessions := []\<rparr> = (db w)\<lparr>sessions := []\<rparr>) (\<lambda>_ _. True)"
proof -
  have subject: "runs (token_subject p) v (\<lambda>_ v'. v' = v) (\<lambda>_ _. True)" for p and v :: "'a world"
    unfolding token_subject_def uuid_or_def by (intro runs_intros) (auto intro!: runs_intros)
  have verify: "runs (verify_access E tok) v (\<lambda>_ v'. db v' = db v) (\<lambda>_ _. True)" for tok v
    by (rule runs_mono [OF runs_within [OF same_tables.token_ops(4)]]) auto
  have user: "runs (get_auth_context E rq) w
      (\<lambda>ctx _. ctx_user ctx \<in> set (users (db w)) \<and> u_is_active (ctx_user ctx)) (\<lambda>_ _. True)"
    unfolding get_auth_context_def Let_def
    apply (intro runs_intros runs_mono [OF verify] runs_mono [OF subject] runs_get_user TrueI)
    apply (auto intro!: runs_intros simp: uuid_or_def runs_def split: prod.splits sum.splits option.splits)
    done
  show ?thesis
    unfolding get_current_user_def
    by (intro runs_intros runs_mono [OF runs_conj [OF user runs_within [OF only_sessions.auth_deps(1)]]]) auto
qed

text \<open>
  Users are listed only to whom the role model allows it, and by the page: a successful answer
  means that the access token is of an active user who has the permission \<open>manage_users\<close> in the
  committed tables, that the limit is between 1 and 200 and the offset not negative, and the page
  holds the users from the offset on in the order of their creation, at most as many as the
  limit, beside the total.
\<close>

theorem user_list_guarded:
  assumes "transaction E rq (ListUsers (limit, offset)) w = (Inr resp, w')"
  shows "(\<exists>u \<in> set (users (committed w)). u_is_active u \<and> has_permission (committed w) u ''manage_users'') \<and>
    1 \<le> limit \<and> limit \<le> 200 \<and> 0 \<le> offset \<and>
    (\<exists>items. body resp = page items (length (users (committed w))) (nat limit) (nat offset) \<and>
       length items = min (nat limit) (length (users (committed w)) - nat offset) \<and>
       users_read E (committed w)
         (take (nat limit) (drop (nat offset) (sort_key u_created_at (users (committed w))))) = Inr items)"
proof -
  let ?w = "w\<lparr>db := committed w, background := []\<rparr>" and ?d = "committed w"
  let ?P = "\<lambda>resp. (\<exists>u \<in> set (users ?d). u_is_active u \<and> has_permission ?d u ''manage_users'') \<and>
    1 \<le> limit \<and> limit \<le> 200 \<and> 0 \<le> offset \<and>
    (\<exists>items. body resp = page items (length (users ?d)) (nat limit) (nat offset) \<and>
       users_read E ?d (take (nat limit) (drop (nat offset) (sort_key u_created_at (users ?d)))) = Inr items)"
  have same: "users (db v) = users ?d" "has_permission (db v) u c = has_permission ?d u c"
    "users_read E (db v) us = users_read E ?d us" if "(db v)\<lparr>sessions := []\<rparr> = ?d\<lparr>sessions := []\<rparr>" for v :: "'a world" and u c us
    by (rule but_sessions [OF that])+
  have "runs (list_users_route E rq (limit, offset)) ?w (\<lambda>resp _. ?P resp) (\<lambda>_ _. True)"
    unfolding list_users_route_def require_permission_def list_all_users_def count_all_users_def
    by (intro runs_intros runs_mono [OF runs_get_current_user] TrueI)
       (auto simp: parse_page_def page_of_def json_response_def same)
  then have "runs (transaction E rq (ListUsers (limit, offset))) w (\<lambda>resp _. ?P resp) (\<lambda>_ _. True)"
    unfolding transaction_def open_session_def route.simps
    by (intro runs_intros) (elim runs_mono, intro runs_intros runs_background, auto)
  from runs_InrD [OF this assms] show ?thesis
    by (fastforce dest: users_read_length simp: min.commute)
qed

text \<open>The sample user as the owner of the server, asking for the first page.\<close>

definition sample_owner :: "ref_store world" where
  "sample_owner = sample_login\<lparr>committed :=
     (committed sample_login)\<lparr>users := [sample_user\<lparr>u_is_superuser := True\<rparr>]\<rparr>\<rparr>"

theorem user_list_guarded_witness:
  "\<exists>resp w'. transaction sample_env sample_request (ListUsers (50, 0)) sample_owner = (Inr resp, w') \<and>
     (\<exists>items. body resp = page items 1 50 0 \<and> length items = 1)"
proof -
  let ?w = "sample_owner\<lparr>db := committed sample_owner, background := []\<rparr>" and ?u = "sample_user\<lparr>u_is_superuser := True\<rparr>"
  have w: "clock ?w = days 20000" "redis ?w = empty_store" "sessions (db ?w) = [sample_session]" "users (db ?w) = [?u]"
    "users (committed sample_owner) = [?u]"
    by (simp_all add: sample_owner_def)
  have c: "map_of sample_claims ''sub'' = Some (JStr (uuid_str 7))" "get_claim sample_claims ''sid'' = Some (uuid_str 9)"
    "live_token ?w sample_claims 7 9" "usable default_settings sample_session (days 20000)"
    by (simp_all add: live_token_def w sample_claims_def get_claim_def claims_live.simps usable_def time_defs)
  have unique: "unique_keys (db ?w)"
    using unique_keys_sample
    by (simp add: unique_keys_def sample_owner_def sample_login_def)
  have cookie: "cookie_of sample_request ''access_token'' = Some (sign sample_env sample_claims)"
    by (simp add: sample_request_def cookie_of_def)
  have ctx: "runs (get_auth_context sample_env sample_request) ?w (\<lambda>ctx v. ctx_user ctx = ?u) (\<lambda>_ _. False)"
    by (rule runs_mono [OF sample.context_decides [OF _ _ unique jwt_sound_sample _ sign_sample c(1,2)]])
       (use w c cookie in auto)
  have user: "runs (get_current_user sample_env sample_request) ?w (\<lambda>u v. u = ?u \<and> users (db v) = [?u]) (\<lambda>_ _. False)"
    unfolding get_current_user_def
    by (rule runs_bnd, rule runs_mono [OF runs_conj [OF ctx runs_within [OF only_sessions.auth_deps(1)]]])
       (auto intro!: runs_ret dest: but_sessions(1) simp: w)
  have read: "users_read sample_env d [?u] \<noteq> Inl e" for d e
    by (simp add: user_read_def is_email_def sample_user_def)
  have "runs (transaction sample_env sample_request (ListUsers (50, 0))) sample_owner (\<lambda>_ _. True) (\<lambda>_ _. False)"
    unfolding transaction_def open_session_def route.simps list_users_route_def require_permission_def list_all_users_def
      count_all_users_def
    by (intro runs_intros runs_mono [OF user] runs_background TrueI)
       (auto simp: has_permission_def parse_page_def checked_def page_of_def read simp del: users_read.simps)
  from runs_returnsD [OF this] obtain resp w' where
    run: "transaction sample_env sample_request (ListUsers (50, 0)) sample_owner = (Inr resp, w')" by auto
  from user_list_guarded [OF run] have "\<exists>items. body resp = page items 1 50 0 \<and> length items = 1"
    by (auto simp: sample_owner_def)
  with run show ?thesis by blast
qed

section \<open>Log-in by a provider\<close>

text \<open>
  The callback of a provider issues the session at once, also to a user whose second factor is
  enabled: what it sets is the access cookie, where the log-in by password leaves a challenge.
\<close>

theorem callback_skips_second_factor:
  assumes "redis_env E val up" and "sane (cfg E)" and "up (redis w1)" and "mode \<noteq> JStr ''link''"
    and "handle_callback E p code st w = (Inr (user, mode), w1)"
    and "two_factor_of (db w1) user = Some tf" and "tf_enabled tf"
    and "callback_route E rq p code st w = (Inr resp, w')"
  shows "\<exists>refresh csrf. cookies resp = set_auth_cookies (cfg E)
    \<lparr>tp_access = sign E (access_claims E (uuid_str (u_id user)) (Some (uuid_str (uuid4 E (draws w1))))
       (uuid_str (uuid4 E (Suc (draws w1)))) (clock w1)),
     tp_refresh = refresh, tp_refresh_ttl = refresh_ttl (cfg E) False\<rparr> csrf"
proof -
  have "finalize_login E rq user False w1 = (Inr resp, w')"
    using assms(4,5,8) by (simp add: callback_route_def bnd_def)
  from runs_InrD [OF redis_env.runs_finalize_login [OF assms(1-3)] this] show ?thesis by auto
qed

end
