(* ===== verification/Logout.thy ===== *)
theory Logout
  imports Server
begin

text \<open>
  What a successful log-out leaves behind, through the routes that end the current session, a chosen one or
  all sessions of the user: the sessions are closed in the committed tables and their tokens refused from
  then on.
\<close>

section \<open>The session behind a request\<close>

text \<open>Who owns which session, by the id of the row.\<close>

definition owners :: "database \<Rightarrow> (uuid \<times> uuid \<times> uuid) list" where
  "owners d = List.map (\<lambda>s. (s_id s, s_session_uuid s, s_user_id s)) (sessions d)"

lemma owners_update:
  "session_change f \<Longrightarrow> owners (sessions_update (update_where (\<lambda>s. s_id s = i) f) d) = owners d"
  by (simp add: owners_def map_update_where session_change_def)

lemma owners_in: "(i, sid, u) \<in> set (owners d) \<longleftrightarrow>
    (\<exists>s \<in> set (sessions d). s_id s = i \<and> s_session_uuid s = sid \<and> s_user_id s = u)"
  by (auto simp: owners_def)

lemma owners_uuids: "owners d = owners d' \<Longrightarrow> List.map s_session_uuid (sessions d) = List.map s_session_uuid (sessions d')"
  by (drule arg_cong [where f = "List.map (\<lambda>(i, sid, u). sid)"]) (simp add: owners_def comp_def)

lemma owners_ids: "owners d = owners d' \<Longrightarrow> List.map s_id (sessions d) = List.map s_id (sessions d')"
  by (drule arg_cong [where f = "List.map fst"]) (simp add: owners_def comp_def)

context redis_env
begin

lemma runs_validated:
  assumes sane: "sane (cfg E)"
  shows "runs (validate_and_touch E sid uid) w
    (\<lambda>s w'. owners (db w') = owners (db w) \<and> (s_id s, sid, uid) \<in> set (owners (db w)) \<and> s_session_uuid s = sid)
    (\<lambda>_ _. True)"
proof -
  have exists: "runs (redis_exists E k) v (\<lambda>_ w'. db w' = db v) (\<lambda>_ _. True)" for k v
    by (rule runs_mono [OF runs_within [OF same_tables.redis_ops(1)]]) auto
  have touch: "runs (touch E r t) v (\<lambda>s w'. owners (db w') = owners (db v) \<and> s_id s = s_id r \<and>
      s_session_uuid s = s_session_uuid r) (\<lambda>_ _. True)" for r t v
    by (rule runs_touch [OF sane]) (auto simp: owners_update dest: redis_upd_fields)
  show ?thesis
    unfolding validate_and_touch_def Let_def
    by (intro runs_intros session_by_uuid.runs_find runs_mono [OF exists] runs_mono [OF touch]
        runs_expire_session sane TrueI) (auto simp: owners_in)
qed

text \<open>The user and the session a route with both gets.\<close>

lemma runs_user_and_session:
  assumes sane: "sane (cfg E)" and jwt: "jwt_sound E"
    and cookie: "cookie_of rq (ACCESS_COOKIE_NAME (cfg E)) = Some (sign E c)"
    and c: "map_of c ''sub'' = Some (JStr (uuid_str i))" "get_claim c ''sid'' = Some (uuid_str sid)"
  shows "runs (user_and_session E rq) w
    (\<lambda>(u, s) w'. u_id u = i \<and> owners (db w') = owners (db w) \<and> (s_id s, sid, i) \<in> set (owners (db w)) \<and>
       s_session_uuid s = sid) (\<lambda>_ _. True)"
proof -
  have verify: "runs (verify_access E (sign E c)) w (\<lambda>x w'. x = c \<and> w' = w) (\<lambda>_ _. True)"
    by (simp add: runs_def verify_access_signed [OF jwt])
  have subject: "token_subject c = ret i"
    by (rule ext) (simp add: token_subject_def uuid_or_def c(1) try_except_def)
  show ?thesis
    unfolding user_and_session_def get_auth_context_def get_current_session_def Let_def cookie option.sel
    apply (intro runs_intros TrueI)
    apply (rule runs_mono [OF verify])
     apply (elim conjE, simp only: subject bnd_ret c(2) option.case uuid_or_def uuid_of_str_uuid_str)
     apply (intro runs_intros runs_get_user runs_mono [OF runs_validated [OF sane]] TrueI)
    apply auto
    done
qed

end

section \<open>Ending sessions\<close>

fun ended :: "api_call \<Rightarrow> database \<Rightarrow> uuid \<Rightarrow> uuid \<Rightarrow> uuid set" where
  "ended LogoutCurrent d user current = {current}"
| "ended LogoutAll d user current = {sid. \<exists>s \<in> set (sessions d). s_user_id s = user \<and> s_session_uuid s = sid}"
| "ended (RevokeSession sid) d user current = {sid}"
| "ended _ d user current = {}"

lemma close_by_id:
  assumes "distinct (List.map s_session_uuid (sessions d))" and "(s_id s, sid, u) \<in> set (owners d)"
  shows "session_closed sid (close_in_db s t why d)"
proof -
  obtain r where r: "r \<in> set (sessions d)" "s_id r = s_id s" "s_session_uuid r = sid"
    using assms(2) by (auto simp: owners_in)
  then have "close_in_db s t why d = close_in_db r t why d" by (simp add: close_in_db_def)
  with close_in_db_closed [OF assms(1) r(1)] r(3) show ?thesis by simp
qed

lemma close_many:
  assumes unique: "distinct (List.map s_session_uuid (sessions d))" and r: "r \<in> set (sessions d)"
    and d': "sessions d' = update_where (to_revoke (s_user_id r) None) (close_row t why) (sessions d)"
  shows "session_closed (s_session_uuid r) d'"
proof -
  have same: "s = r" if "s \<in> set (sessions d)" "s_session_uuid s = s_session_uuid r" for s
    using session_lookup [OF unique that(1) r that(2)] .
  have "List.map s_session_uuid (sessions d') = List.map s_session_uuid (sessions d)"
    unfolding d' by (rule map_update_where) simp
  then have "s_session_uuid r \<in> set (List.map s_session_uuid (sessions d'))" using r by simp
  moreover have "\<not> s_is_active s" if "s \<in> set (sessions d')" "s_session_uuid s = s_session_uuid r" for s
    using that unfolding d' in_update_where by (auto simp: to_revoke_def dest: same)
  ultimately show ?thesis by (simp add: session_closed_def)
qed

context redis_env
begin

lemma runs_logout:
  assumes sane: "sane (cfg E)" and jwt: "jwt_sound E" and unique: "unique_keys (db w)"
    and cookie: "cookie_of rq (ACCESS_COOKIE_NAME (cfg E)) = Some (sign E c)"
    and c: "map_of c ''sub'' = Some (JStr (uuid_str i))" "get_claim c ''sid'' = Some (uuid_str sid)"
    and x: "x \<in> ended call (db w) i sid"
  shows "runs (route E rq call) w (\<lambda>_ w'. session_closed x (db w')) (\<lambda>_ _. True)"
proof -
  have same: "distinct (List.map s_session_uuid (sessions d))" "distinct (List.map s_id (sessions d))"
    if "owners d = owners (db w)" for d
    using unique owners_uuids [OF that] owners_ids [OF that] by (simp_all add: unique_keys_def)
  have csrf: "runs (verify_csrf E rq) w (\<lambda>_ w'. w' = w) (\<lambda>_ _. True)"
    by (auto simp: runs_def dest: csrf_state split: prod.splits sum.splits)
  note auth = runs_user_and_session [OF sane jwt cookie c, of w]
  have revoke: "runs (revoke E s why) v (\<lambda>_ w'. \<exists>t. db w' = close_in_db s t why (db v)) (\<lambda>_ _. True)" for s why v
    by (rule runs_revoke [OF sane]) auto
  have one: "runs (bnd (verify_csrf E rq) (\<lambda>_. bnd (user_and_session E rq) (\<lambda>(u, s). bnd (f u s) (\<lambda>r. ret (g r))))) w
      (\<lambda>_ w'. session_closed x (db w')) (\<lambda>_ _. True)"
    if "\<And>u s v. u_id u = i \<Longrightarrow> owners (db v) = owners (db w) \<Longrightarrow> (s_id s, sid, i) \<in> set (owners (db w)) \<Longrightarrow>
      runs (f u s) v (\<lambda>_ w'. session_closed x (db w')) (\<lambda>_ _. True)" for f and g :: "'x \<Rightarrow> response"
    by (rule runs_seq [OF csrf], simp, rule runs_seq [OF auth])
       (auto intro!: runs_bnd runs_mono [OF that] runs_ret)
  show ?thesis
  proof (cases call)
    case LogoutCurrent
    show ?thesis
      unfolding LogoutCurrent route.simps logout_current_route_def
    proof (rule one, goal_cases)
      case (1 u s v)
      then have "(s_id s, sid, i) \<in> set (owners (db v))" by simp
      note closed = close_by_id [OF same(1) [OF 1(2)] this]
      show ?case by (rule runs_mono [OF revoke]) (use x LogoutCurrent closed in auto)
    qed
  next
    case LogoutAll
    show ?thesis
      unfolding LogoutAll route.simps logout_all_route_def
    proof (rule one, goal_cases)
      case (1 u s v)
      obtain r where r: "r \<in> set (sessions (db v))" "s_session_uuid r = x" "s_user_id r = i"
      proof -
        obtain r0 where "r0 \<in> set (sessions (db w))" "s_user_id r0 = i" "s_session_uuid r0 = x" using x LogoutAll by auto
        then have "(s_id r0, x, i) \<in> set (owners (db v))" unfolding 1(2) by (auto simp: owners_in)
        then show ?thesis using that by (auto simp: owners_in)
      qed
      show ?case
        by (rule runs_mono [OF runs_revoke_all [OF sane same(2) [OF 1(2)]]])
           (use close_many [OF same(1) [OF 1(2)] r(1)] r 1(1) in auto)
    qed
  next
    case (RevokeSession y)
    show ?thesis
      unfolding RevokeSession route.simps revoke_session_route_def
    proof (rule one, goal_cases)
      case (1 u s v)
      have unique': "distinct (List.map s_session_uuid (sessions (db v)))" by (rule same(1) [OF 1(2)])
      have stays: "session_closed (s_session_uuid r) (db v)" if "r \<in> set (sessions (db v))" "\<not> s_is_active r" for r
        using that session_lookup [OF unique'] by (auto simp: session_closed_def)
      show ?case
        unfolding revoke_by_uuid_def
        by (intro runs_intros session_by_uuid.runs_find runs_mono [OF revoke] TrueI)
           (use x RevokeSession unique' in \<open>auto intro: close_in_db_closed stays\<close>)
    qed
  qed (use x in simp_all)
qed

end

text \<open>
  C6. Logging out works. After a successful request to end the current session, all sessions of the user or a
  chosen one of them, each of these sessions is closed in the committed tables, whatever Redis does meanwhile;
  and from then on every call that needs a log-in is refused to every access token of such a session.
\<close>

theorem logout_ends_sessions:
  assumes "redis_env E val up" and "sane (cfg E)" and "jwt_sound E" and "unique_keys (committed w)"
    and "cookie_of rq (ACCESS_COOKIE_NAME (cfg E)) = Some (sign E c)"
    and "map_of c ''sub'' = Some (JStr (uuid_str i))" and "get_claim c ''sid'' = Some (uuid_str current)"
    and "transaction E rq call w = (Inr resp, w')" and "sid \<in> ended call (committed w) i current"
  shows "session_closed sid (committed w') \<and>
    (\<forall>w'' rq' c' call'. reachable E w' w'' \<and> needs_login call' \<and> get_claim c' ''sid'' = Some (uuid_str sid) \<and>
       cookie_of rq' (ACCESS_COOKIE_NAME (cfg E)) = Some (sign E c') \<longrightarrow>
       (\<exists>e v. transaction E rq' call' w'' = (Inl e, v)))"
proof -
  let ?w = "w\<lparr>db := committed w, background := []\<rparr>"
  have "runs (route E rq call) ?w (\<lambda>_ w'. session_closed sid (db w')) (\<lambda>_ _. True)"
    by (rule redis_env.runs_logout [OF assms(1-3) _ assms(5-7)]) (use assms(4,9) in simp_all)
  then have "runs (transaction E rq call) w (\<lambda>_ w'. session_closed sid (committed w')) (\<lambda>_ _. True)"
    unfolding transaction_def open_session_def
    by (intro runs_intros) (auto elim!: runs_mono intro!: runs_intros runs_background)
  from runs_InrD [OF this assms(8)] have "session_closed sid (committed w')" .
  then show ?thesis using closed_refused [OF assms(3)] by blast
qed

lemma sample_logout_all: "\<exists>resp w'. transaction sample_env sample_request LogoutAll sample_login = (Inr resp, w')"
proof -
  define w where "w = sample_login\<lparr>db := committed sample_login, background := []\<rparr>"
  have w: "clock w = days 20000" "redis w = empty_store" "users (db w) = [sample_user]" "sessions (db w) = [sample_session]"
    by (simp_all add: w_def sample_login_def sample_db_def)
  let ?ok = "\<lambda>v. faults (redis v) = [] \<and> distinct (List.map s_id (sessions (db v)))"
  have csrf: "runs (verify_csrf sample_env sample_request) w (\<lambda>_ v. v = w) (\<lambda>_ _. False)"
    by (simp add: runs_def verify_csrf_def sample_request_def cookie_of_def compare_digest_def is_ascii_def)
  have claims: "claims_live (clock w) sample_claims" "map_of sample_claims ''type'' = Some (JStr ''access'')"
      "get_claim sample_claims ''sid'' = Some (uuid_str 9)" "token_subject sample_claims = ret 7"
    by (simp_all add: w sample_claims_def get_claim_def time_defs token_subject_def uuid_or_def try_except_def fun_eq_iff claims_live.simps)
  have validate: "runs (validate_and_touch sample_env 9 7) w (\<lambda>_. ?ok) (\<lambda>_ _. False)"
    by (rule sample.runs_validate_usable [where r = sample_session])
       (auto simp: w usable_def time_defs update_where_def dest: redis_upd_fields)
  have verify: "runs (verify_access sample_env (sign sample_env sample_claims)) w (\<lambda>x v. x = sample_claims \<and> v = w) (\<lambda>_ _. False)"
    by (simp add: runs_def verify_access_signed [OF jwt_sound_sample] claims)
  have cookie: "cookie_of sample_request (ACCESS_COOKIE_NAME (cfg sample_env)) = Some (sign sample_env sample_claims)"
    by (simp add: sample_request_def cookie_of_def)
  have auth: "runs (user_and_session sample_env sample_request) w (\<lambda>_. ?ok) (\<lambda>_ _. False)"
    unfolding user_and_session_def get_auth_context_def get_current_session_def Let_def cookie option.sel
    apply (intro runs_intros)
     apply (simp add: sign_def sample_env_def sample_jwt_encode_def tally_def)
    apply (rule runs_mono [OF verify])
     apply (elim conjE, simp only: claims(3,4) bnd_ret option.case uuid_or_def uuid_of_str_uuid_str)
     apply (intro runs_intros runs_get_user)
       apply (auto simp: w intro!: runs_intros runs_mono [OF validate])
    done
  have revoke: "runs (revoke_all sample_env u why ex) v (\<lambda>_ _. True) (\<lambda>_ _. False)" if "?ok v" for u why ex v
    by (rule runs_mono [OF sample.revoke_all_outcome]) (use that in auto)
  have "runs (transaction sample_env sample_request LogoutAll) sample_login (\<lambda>_ _. True) (\<lambda>_ _. False)"
    unfolding transaction_def open_session_def route.simps logout_all_route_def
    by (rule runs_bnd, rule runs_upd_state, unfold w_def [symmetric], intro runs_intros runs_mono [OF csrf] runs_mono [OF auth] runs_mono [OF revoke] runs_background)
       (auto intro!: runs_intros runs_mono [OF auth] runs_mono [OF revoke] runs_background)
  then show ?thesis by (auto dest: runs_returnsD)
qed

theorem logout_ends_sessions_witness:
  "\<exists>resp w'. transaction sample_env sample_request LogoutAll sample_login = (Inr resp, w') \<and> session_closed 9 (committed w')"
proof -
  obtain resp w' where run: "transaction sample_env sample_request LogoutAll sample_login = (Inr resp, w')"
    using sample_logout_all by blast
  have "committed sample_login = db sample_login" by (simp add: sample_login_def)
  then have "unique_keys (committed sample_login)" by simp
  then have "session_closed 9 (committed w')"
    by (intro logout_ends_sessions [where c = sample_claims and i = 7 and current = 9, OF sample.redis_env_axioms _ jwt_sound_sample _ _ _ _ run, THEN conjunct1])
       (simp_all add: sample_request_def cookie_of_def sample_claims_def get_claim_def)
  with run show ?thesis by blast
qed

end
