(* ===== verification/Session_Machine.thy ===== *)
theory Session_Machine
  imports Server
begin

text \<open>
  What the server promises of log-in sessions, as a machine that knows nothing of requests, cookies or
  Redis: a registry of sessions, each with its owner and open or closed. A session begins open under an
  identifier that was never used; an open one may be closed; nothing else happens. The committed tables
  of the server implement it: every run of the server is a run of the machine.
\<close>

datatype phase = Open | Closed

type_synonym registry = "uuid \<rightharpoonup> uuid \<times> phase"

inductive machine :: "registry \<Rightarrow> registry \<Rightarrow> bool" where
  start: "m sid = None \<Longrightarrow> machine m (m(sid \<mapsto> (owner, Open)))"
| close: "m sid = Some (owner, Open) \<Longrightarrow> machine m (m(sid \<mapsto> (owner, Closed)))"

inductive_cases machineE: "machine m m'"

section \<open>What the machine promises\<close>

lemma machine_owner: "machine m m' \<Longrightarrow> m sid = Some (u, ph) \<Longrightarrow> \<exists>ph'. m' sid = Some (u, ph')"
  by (auto elim!: machineE)

lemma machine_closed: "machine m m' \<Longrightarrow> m sid = Some (u, Closed) \<Longrightarrow> m' sid = Some (u, Closed)"
  by (auto elim!: machineE)

lemma machines_owner: "machine\<^sup>*\<^sup>* m m' \<Longrightarrow> m sid = Some (u, ph) \<Longrightarrow> \<exists>ph'. m' sid = Some (u, ph')"
proof (induction arbitrary: ph rule: rtranclp_induct)
  case (step m' m'')
  then show ?case by (meson machine_owner)
qed simp

lemma machines_closed: "machine\<^sup>*\<^sup>* m m' \<Longrightarrow> m sid = Some (u, Closed) \<Longrightarrow> m' sid = Some (u, Closed)"
  by (induction rule: rtranclp_induct) (simp_all add: machine_closed)

section \<open>The tables as a registry\<close>

definition phase_of :: "session_row \<Rightarrow> phase" where
  "phase_of s = (if s_is_active s then Open else Closed)"

definition registry_of :: "database \<Rightarrow> registry" where
  "registry_of d = map_of (List.map (\<lambda>s. (s_session_uuid s, (s_user_id s, phase_of s))) (sessions d))"

lemma registry_Some:
  assumes "unique_keys d"
  shows "registry_of d sid = Some (u, ph) \<longleftrightarrow>
    (\<exists>s \<in> set (sessions d). s_session_uuid s = sid \<and> s_user_id s = u \<and> phase_of s = ph)"
proof -
  have "distinct (List.map fst (List.map (\<lambda>s. (s_session_uuid s, (s_user_id s, phase_of s))) (sessions d)))"
    using assms by (simp add: unique_keys_def comp_def)
  from map_of_eq_Some_iff [OF this] show ?thesis by (force simp: registry_of_def)
qed

lemma registry_None: "registry_of d sid = None \<longleftrightarrow> sid \<notin> s_session_uuid ` set (sessions d)"
  by (force simp: registry_of_def map_of_eq_None_iff)

text \<open>A new row is a new session, an update of a row closes a session or does nothing to it.\<close>

lemma registry_insert:
  assumes "\<not> list_ex (\<lambda>x. s_id s = s_id x \<or> s_session_uuid s = s_session_uuid x) (sessions d)" and "s_is_active s"
  shows "machine (registry_of d) (registry_of (sessions_update (\<lambda>rs. rs @ [s]) d))"
proof -
  have fresh: "registry_of d (s_session_uuid s) = None" using assms(1) by (auto simp: registry_None list_ex_iff)
  have "registry_of (sessions_update (\<lambda>rs. rs @ [s]) d) = (registry_of d)(s_session_uuid s \<mapsto> (s_user_id s, Open))"
    using fresh assms(2) by (auto simp: fun_eq_iff registry_of_def phase_of_def map_add_def split: option.splits)
  with machine.start [of "registry_of d" "s_session_uuid s" "s_user_id s", OF fresh] show ?thesis by simp
qed

lemma registry_update:
  assumes unique: "unique_keys d" and f: "session_change f"
  shows "machine\<^sup>*\<^sup>* (registry_of d) (registry_of (sessions_update (update_where (\<lambda>x. s_id x = i) f) d))"
proof (cases "\<exists>r \<in> set (sessions d). s_id r = i")
  case False
  then have "update_where (\<lambda>x. s_id x = i) f (sessions d) = sessions d"
    by (auto simp: update_where_def intro: map_idI)
  then show ?thesis by (simp add: registry_of_def)
next
  case True
  then obtain r where r: "r \<in> set (sessions d)" "s_id r = i" by auto
  let ?d = "sessions_update (update_where (\<lambda>x. s_id x = i) f) d"
  have unique': "unique_keys ?d" by (rule unique_tables.upd_session [OF unique f])
  have only: "x = r" if "x \<in> set (sessions d)" "s_id x = i" for x
    using that r unique by (metis unique_keys_def distinct_map inj_onD)
  have rows: "set (sessions ?d) = insert (f r) (set (sessions d) - {r})"
  proof -
    have "{x \<in> set (sessions d). s_id x = i} = {r}" "{x \<in> set (sessions d). s_id x \<noteq> i} = set (sessions d) - {r}"
      using r only by blast+
    moreover have "set (update_where p f xs) = f ` {x \<in> set xs. p x} \<union> {x \<in> set xs. \<not> p x}" for p xs
      by (auto simp: update_where_def)
    ultimately show ?thesis by simp
  qed
  have updated: "registry_of ?d = (registry_of d)(s_session_uuid r \<mapsto> (s_user_id r, phase_of (f r)))"
  proof (rule ext)
    fix sid
    show "registry_of ?d sid = ((registry_of d)(s_session_uuid r \<mapsto> (s_user_id r, phase_of (f r)))) sid"
    proof (cases "sid = s_session_uuid r")
      case True
      have "registry_of ?d sid = Some (s_user_id r, phase_of (f r))"
        unfolding registry_Some [OF unique'] rows using session_changeD [OF f, of r] True by auto
      with True show ?thesis by simp
    next
      case False
      have "registry_of ?d sid = Some (u, ph) \<longleftrightarrow> registry_of d sid = Some (u, ph)" for u ph
        unfolding registry_Some [OF unique'] registry_Some [OF unique] rows
        using session_changeD(2) [OF f, of r] False by auto
      then have "registry_of ?d sid = registry_of d sid"
        by (cases "registry_of d sid"; cases "registry_of ?d sid") auto
      with False show ?thesis by simp
    qed
  qed
  have old: "registry_of d (s_session_uuid r) = Some (s_user_id r, phase_of r)"
    using registry_Some [OF unique] r by blast
  show ?thesis
  proof (cases "phase_of (f r) = phase_of r")
    case True
    then have "registry_of ?d = registry_of d" using old updated by (simp add: fun_upd_idem_iff)
    then show ?thesis by simp
  next
    case False
    then have "phase_of r = Open" "phase_of (f r) = Closed"
      using session_changeD(4) [OF f, of r] by (auto simp: phase_of_def split: if_splits)
    then show ?thesis using machine.close [of "registry_of d" "s_session_uuid r" "s_user_id r"] old updated by auto
  qed
qed

section \<open>Refinement\<close>

definition follows :: "registry \<Rightarrow> database \<Rightarrow> bool" where
  "follows m d \<longleftrightarrow> unique_keys d \<and> machine\<^sup>*\<^sup>* m (registry_of d)"

interpretation session_machine: table_invariant "follows m" for m
proof unfold_locales
  fix d and s :: session_row
  assume d: "follows m d" and s: "s_is_active s"
    "\<not> list_ex (\<lambda>x. s_id s = s_id x \<or> s_session_uuid s = s_session_uuid x) (sessions d)"
  show "follows m (sessions_update (\<lambda>rs. rs @ [s]) d)"
    using d unique_tables.ins_session [of d s] registry_insert [of s d] s
    by (auto simp: follows_def intro: rtranclp.rtrancl_into_rtrancl)
next
  fix d i and f :: "session_row \<Rightarrow> session_row"
  assume d: "follows m d" and f: "session_change f"
  show "follows m (sessions_update (update_where (\<lambda>x. s_id x = i) f) d)"
    using d unique_tables.upd_session [of d f i] registry_update [of d f i] f
    by (auto simp: follows_def intro: rtranclp_trans)
qed (auto simp: follows_def registry_of_def intro: unique_tables.ins_user unique_tables.ins_two_factor
    unique_tables.ins_code unique_tables.ins_token unique_tables.ins_account unique_tables.upd_user
    unique_tables.upd_email unique_tables.add_role unique_tables.upd_two_factor unique_tables.del_two_factor
    unique_tables.upd_code unique_tables.del_codes unique_tables.upd_token unique_tables.del_tokens)

text \<open>
  C9. Refinement. Every run of the server, whatever the requests, the time that passes between them and the
  faults of Redis, is a run of the session machine on the committed tables: a session begins open under a fresh
  identifier with one owner, may be closed once, and neither reopens, disappears nor changes its owner.
\<close>

theorem sessions_refine_machine:
  assumes "unique_keys (committed w)" and "reachable E w w'"
  shows "machine\<^sup>*\<^sup>* (registry_of (committed w)) (registry_of (committed w')) \<and>
    (\<forall>sid owner ph. registry_of (committed w) sid = Some (owner, ph) \<longrightarrow>
       (\<exists>ph'. registry_of (committed w') sid = Some (owner, ph') \<and> (ph = Closed \<longrightarrow> ph' = Closed)))"
proof -
  have "follows (registry_of (committed w)) (committed w')"
    by (rule session_machine.reachable_invariant [OF assms(2)]) (simp add: follows_def assms(1))
  then have run: "machine\<^sup>*\<^sup>* (registry_of (committed w)) (registry_of (committed w'))"
    by (simp add: follows_def)
  have "\<exists>ph'. registry_of (committed w') sid = Some (owner, ph') \<and> (ph = Closed \<longrightarrow> ph' = Closed)"
    if "registry_of (committed w) sid = Some (owner, ph)" for sid owner ph
    using machines_owner [OF run that] machines_closed [OF run, of sid owner] that by (cases ph) auto
  with run show ?thesis by blast
qed

theorem sessions_refine_machine_witness:
  "machine\<^sup>*\<^sup>* (registry_of (committed sample_login))
     (registry_of (committed (snd (app sample_env sample_request LogoutAll sample_login))))"
proof -
  have "unique_keys (committed sample_login)"
    by (simp add: sample_login_def unique_keys_def)
  then show ?thesis
    by (rule sessions_refine_machine [THEN conjunct1, of sample_login sample_env])
       (auto intro: reachable.step [OF reachable.start server_step.request])
qed

end
