(* ===== verification/Process.thy ===== *)
theory Process
  imports Logging
begin

text \<open>
  What the process keeps besides its requests: the root logger, the shared Redis client of
  \<^verbatim>\<open>app/redis/client.py\<close> and what it has printed; its start and stop (the \<open>lifespan\<close> of
  \<^verbatim>\<open>app/main.py\<close>), and the arguments of the database engine (\<^verbatim>\<open>app/db/session.py\<close>). Opening a client
  (\<open>from_url\<close>) and the text of a JSON value (\<open>dumps\<close>) are parameters.
\<close>

record 'c process =
  root :: root_logger
  client :: "'c option"
  stdout :: "string list"
  disconnected :: "'c list"

section \<open>The Redis client\<close>

definition get_redis :: "settings \<Rightarrow> (string \<Rightarrow> 'c) \<Rightarrow> ('c process, 'c) prog" where
  "get_redis c from_url =
     bnd (get_state client) (\<lambda>shared.
     case shared of
       None \<Rightarrow> bnd (upd_state (\<lambda>p. p\<lparr>client := Some (from_url (REDIS_URL c))\<rparr>)) (\<lambda>_. ret (from_url (REDIS_URL c)))
     | Some x \<Rightarrow> ret x)"

definition close_redis :: "('c process, unit) prog" where
  "close_redis =
     bnd (get_state client) (\<lambda>shared.
     case shared of
       None \<Rightarrow> ret ()
     | Some x \<Rightarrow> upd_state (\<lambda>p. p\<lparr>disconnected := disconnected p @ [x], client := None\<rparr>))"

text \<open>
  The client is shared: it stays as it is until it is closed, however often it is asked for; closing
  disconnects it once.
\<close>

lemma get_redis_shared:
  assumes "get_redis c from_url p = (Inr x, p')"
  shows "client p' = Some x \<and> get_redis c' from_url' p' = (Inr x, p') \<and> disconnected p' = disconnected p"
  using assms by (auto simp: get_redis_def bnd_def split: option.splits)

lemma close_redis_once:
  assumes "get_redis c from_url p = (Inr x, p')" and "close_redis p' = (r, q)"
  shows "client q = None \<and> disconnected q = disconnected p @ [x] \<and> close_redis q = (Inr (), q)"
  using assms by (auto simp: get_redis_def close_redis_def bnd_def split: option.splits)

section \<open>Start and stop\<close>

definition configure_root :: "string \<Rightarrow> ('c process, unit) prog" where
  "configure_root level p = (case configure_logging level (root p) of (r, l) \<Rightarrow> (r, p\<lparr>root := l\<rparr>))"

definition log_info ::
    "(jval \<Rightarrow> string) \<Rightarrow> (string \<Rightarrow> jval) \<Rightarrow> time \<Rightarrow> string \<Rightarrow> string \<Rightarrow> (string \<times> jval) list \<Rightarrow> ('c process, unit) prog" where
  "log_info dumps attrs now name msg extra =
     bnd (lift_sum (make_record attrs name info_level msg extra None)) (\<lambda>record.
     upd_state (\<lambda>p. p\<lparr>stdout := stdout p @ log_lines dumps now (root p) record\<rparr>))"

fun env_text :: "env_kind \<Rightarrow> string" where
  "env_text Local = ''local''"
| "env_text Test = ''test''"
| "env_text Production = ''production''"

text \<open>The two halves of \<open>lifespan\<close>, before and after the \<open>yield\<close>.\<close>

definition startup :: "(jval \<Rightarrow> string) \<Rightarrow> (string \<Rightarrow> jval) \<Rightarrow> time \<Rightarrow> settings \<Rightarrow> ('c process, unit) prog" where
  "startup dumps attrs now c =
     bnd (configure_root (if DEBUG c then ''DEBUG'' else ''INFO'')) (\<lambda>_.
     log_info dumps attrs now ''app.main'' ''app_startup'' [(''env'', JStr (env_text (ENV c)))])"

definition shutdown :: "(jval \<Rightarrow> string) \<Rightarrow> (string \<Rightarrow> jval) \<Rightarrow> time \<Rightarrow> ('c process, unit) prog" where
  "shutdown dumps attrs now =
     bnd close_redis (\<lambda>_. log_info dumps attrs now ''app.main'' ''app_shutdown'' [])"

lemma startup_run:
  "\<exists>line. startup dumps attrs now c p =
     (Inr (), p\<lparr>root := \<lparr>ro_handlers = [JsonFormatter], ro_level = if DEBUG c then 10 else 20\<rparr>,
                stdout := stdout p @ [line]\<rparr>)"
proof -
  have ready: "l\<lparr>ro_handlers := hs, ro_level := n\<rparr> = \<lparr>ro_handlers = hs, ro_level = n\<rparr>" for l :: root_logger and hs n
    by (cases l) simp
  have "\<not> list_ex (\<lambda>kv. fst kv \<in> set RESERVED) [(''env'', v)]" for v :: jval
    by (simp add: RESERVED_def LOG_RECORD_ATTRIBUTES_def)
  then show ?thesis
    by (auto simp add: startup_def configure_root_def configure_logging_run check_level_def log_info_def bnd_def make_record_def
        log_lines_def ready)
qed

text \<open>Whatever the root logger was before, the process prints the line of an audit call once.\<close>

lemma audit_line_printed:
  assumes "safe_fields fs"
  shows "\<exists>r. audit_record attrs ev u fs = Inr r \<and>
    log_lines dumps now (root (snd (startup dumps attrs' start c p))) r =
      [dumps (JObj ([(''ts'', JStr (isoformat now)), (''level'', JStr ''INFO''), (''logger'', JStr ''audit''),
         (''message'', JStr ev), (''audit_event'', JStr ev),
         (''user_id'', case u of None \<Rightarrow> JNull | Some i \<Rightarrow> JStr i)] @ fs))]"
proof -
  obtain line where "startup dumps attrs' start c p =
      (Inr (), p\<lparr>root := \<lparr>ro_handlers = [JsonFormatter], ro_level = if DEBUG c then 10 else 20\<rparr>, stdout := stdout p @ [line]\<rparr>)"
    using startup_run by blast
  moreover obtain r where "audit_record attrs ev u fs = Inr r" "lr_levelno r = 20" and
      "log_payload now r = [(''ts'', JStr (isoformat now)), (''level'', JStr ''INFO''), (''logger'', JStr ''audit''),
         (''message'', JStr ev), (''audit_event'', JStr ev), (''user_id'', case u of None \<Rightarrow> JNull | Some i \<Rightarrow> JStr i)] @ fs"
    using audit_record_payload [OF assms] by blast
  ultimately show ?thesis
    by (simp add: log_lines_def json_format_def)
qed

section \<open>The database engine\<close>

text \<open>SQLite takes no arguments for the size of its pool.\<close>

definition pool_kwargs :: "settings \<Rightarrow> (string \<times> int) list" where
  "pool_kwargs c =
     (if take 6 (DATABASE_URL c) = ''sqlite'' then []
      else [(''pool_size'', DB_POOL_SIZE c), (''max_overflow'', DB_MAX_OVERFLOW c),
            (''pool_recycle'', DB_POOL_RECYCLE_SECONDS c), (''pool_timeout'', DB_POOL_TIMEOUT c)])"

end
