(* ===== verification/Audit_Trail.thy ===== *)
theory Audit_Trail
  imports Server Flows Process
begin

text \<open>
  What the audit log of a run comes to: it is only added to, and every entry is printed by the
  logging of the process as one line of JSON that carries all of it.
\<close>

definition audited :: "'r world \<Rightarrow> 'r world \<Rightarrow> bool" where
  "audited w w' \<longleftrightarrow> (\<exists>es. audit_log w' = audit_log w @ es \<and> (\<forall>e \<in> set es. safe_fields (au_fields e)))"

lemma audited_same: "audit_log w' = audit_log w \<Longrightarrow> audited w w'"
  by (simp add: audited_def)

lemma audited_trans: "audited w w' \<Longrightarrow> audited w' w'' \<Longrightarrow> audited w w''"
  by (fastforce simp: audited_def)

interpretation audited: commit_frame audited
  by unfold_locales (auto intro: audited_trans audited_same, auto simp: audited_def)

lemma audited_app: "within audited (app E rq call)"
proof (rule audited.app)
  show "within audited (transaction E rq call)" for rq
    unfolding transaction_def open_session_def
    by (intro audited.commit_rules audited.route within_background)
       (auto simp: within_def intro: audited_same)
qed

lemma audited_reachable: "reachable E w w' \<Longrightarrow> audited w w'"
proof (induction rule: reachable.induct)
  case (step w' w'')
  from step(2) have "audited w' w''"
  proof (rule server_stepE)
    show "audited w' w''" if "w'' = snd (app E rq call w')" for rq call
      using audited_app [of E rq call] that by (simp add: within_def)
  qed (simp_all add: audited_same tick_def)
  with step.IH show ?case by (rule audited_trans)
qed (simp add: audited_same)

text \<open>The JSON object of an audit line.\<close>

definition audit_payload :: "time \<Rightarrow> audit_entry \<Rightarrow> (string \<times> jval) list" where
  "audit_payload t e =
     [(''ts'', JStr (isoformat t)), (''level'', JStr ''INFO''), (''logger'', JStr ''audit''),
      (''message'', JStr (au_event e)), (''audit_event'', JStr (au_event e)),
      (''user_id'', case au_user e of None \<Rightarrow> JNull | Some i \<Rightarrow> JStr i)] @ au_fields e"

lemma audit_payload_distinct: "safe_fields (au_fields e) \<Longrightarrow> distinct (map fst (audit_payload t e))"
  by (auto simp: audit_payload_def safe_fields_def list_all_iff safe_key_def RESERVED_def)

text \<open>
  C19. The audit trail: along every run of the server the audit log is only added to, and every new entry is
  accepted by the logging of the started process, whatever its loggers were before, and printed as
  exactly one line: the time, level, logger and message, the event, the user and every field as it was
  given, under distinct names.
\<close>

theorem audit_trail:
  assumes "reachable E w w'"
  shows "\<exists>es. audit_log w' = audit_log w @ es \<and>
    (\<forall>e \<in> set es. distinct (map fst (audit_payload t e)) \<and>
       (\<exists>r. audit_record attrs (au_event e) (au_user e) (au_fields e) = Inr r \<and>
          log_lines (json_dumps E) t (root (snd (startup (json_dumps E) attrs' start (cfg E) p))) r =
            [json_dumps E (JObj (audit_payload t e))]))"
proof -
  from audited_reachable [OF assms] obtain es where es: "audit_log w' = audit_log w @ es"
      "\<forall>e \<in> set es. safe_fields (au_fields e)"
    by (auto simp: audited_def)
  moreover have "\<exists>r. audit_record attrs (au_event e) (au_user e) (au_fields e) = Inr r \<and>
      log_lines (json_dumps E) t (root (snd (startup (json_dumps E) attrs' start (cfg E) p))) r =
        [json_dumps E (JObj (audit_payload t e))]" if "e \<in> set es" for e
    unfolding audit_payload_def by (rule audit_line_printed) (use es(2) that in blast)
  ultimately show ?thesis by (auto simp: audit_payload_distinct)
qed

text \<open>A run with an entry: the link of a verification mail is followed.\<close>

definition sample_mail_token :: email_token_row where
  "sample_mail_token = \<lparr>et_id = 33, et_user_id = 7, et_token_hash = ''a-token-by-mail-1'', et_purpose = PURPOSE_VERIFY_EMAIL,
     et_new_email = None, et_expires_at = days 20001, et_used_at = None\<rparr>"

definition sample_mailed :: "ref_store world" where
  "sample_mailed = sample_world\<lparr>committed := sample_db\<lparr>email_tokens := [sample_mail_token]\<rparr>\<rparr>"

lemma sample_verified:
  assumes "but_redis sample_mailed w"
  shows "\<exists>resp w'. transaction sample_env sample_visit (VerifyEmail ''a-token-by-mail-1'') w = (Inr resp, w') \<and>
    audit_log w' = [\<lparr>au_event = ''email_verified'', au_user = Some (uuid_str 7), au_fields = []\<rparr>]"
proof -
  let ?v = "w\<lparr>db := committed w, background := []\<rparr>"
  have w: "committed w = sample_db\<lparr>email_tokens := [sample_mail_token]\<rparr>" "clock w = days 20000" "audit_log w = []"
    using but_redis_fields [OF assms] by (simp_all add: sample_mailed_def)
  have unique: "unique_keys (db ?v)" by (simp add: w unique_keys_def sample_mail_token_def)
  have tok: "token_of sample_env (db ?v) ''a-token-by-mail-1'' = Some sample_mail_token"
    by (simp add: w token_of_def hash_token_def sample_mail_token_def)
  have verdict: "token_verdict (Some sample_mail_token) PURPOSE_VERIFY_EMAIL (days 20000) =
      Inr (sample_mail_token\<lparr>et_used_at := Some (days 20000)\<rparr>)"
    by (simp add: token_verdict_def sample_mail_token_def time_defs)
  obtain u v where run: "verify_email sample_env ''a-token-by-mail-1'' ?v = (Inr u, v)" and v: "background v = []"
      "audit_log v = [\<lparr>au_event = ''email_verified'', au_user = Some (uuid_str 7), au_fields = []\<rparr>]"
    using consume_run [OF unique, of sample_env "''a-token-by-mail-1''" PURPOSE_VERIFY_EMAIL] verdict tok
    by (simp add: verify_email_def bnd_def w get_user_def db_query_def spend_token_def write_user_def db_write_def flush_def
        audit_def sample_mail_token_def)
  then show ?thesis
    by (simp add: transaction_def open_session_def get_db_def try_except_def bnd_def verify_email_route_def parse_token_def
        checked_def length_within_def run_background_def commit_def)
qed

definition sample_process :: "unit process" where
  "sample_process = \<lparr>root = \<lparr>ro_handlers = [OtherFormatter lr_message], ro_level = 30\<rparr>, client = None, stdout = [], disconnected = []\<rparr>"

theorem audit_trail_witness:
  "let e = \<lparr>au_event = ''email_verified'', au_user = Some (uuid_str 7), au_fields = []\<rparr>
   in audit_log (snd (app sample_env sample_visit (VerifyEmail ''a-token-by-mail-1'') sample_mailed)) = [e] \<and>
     (\<exists>r. audit_record (\<lambda>_. JNull) ''email_verified'' (Some (uuid_str 7)) [] = Inr r \<and>
        log_lines (json_dumps sample_env) (days 20000)
          (root (snd (startup (json_dumps sample_env) (\<lambda>_. JNull) 0 (cfg sample_env) sample_process))) r =
            [json_dumps sample_env (JObj (audit_payload (days 20000) e))])"
proof -
  let ?w = "snd (app sample_env sample_visit (VerifyEmail ''a-token-by-mail-1'') sample_mailed)"
  have "runs (hit sample_env (''global:'' @ client_ip sample_visit) 60 60) sample_mailed
      (\<lambda>_ w'. but_redis sample_mailed w') (\<lambda>_ _. False)"
    by (rule sample.runs_first_hit) (simp_all add: sample_mailed_def)
  from runs_returnsD [OF this] obtain w1 where w1: "but_redis sample_mailed w1"
      "hit sample_env (''global:'' @ client_ip sample_visit) 60 60 sample_mailed = (Inr (), w1)"
    by auto
  obtain resp w2 where w2: "transaction sample_env sample_visit (VerifyEmail ''a-token-by-mail-1'') w1 = (Inr resp, w2)"
      "audit_log w2 = [\<lparr>au_event = ''email_verified'', au_user = Some (uuid_str 7), au_fields = []\<rparr>]"
    using sample_verified [OF w1(1)] by blast
  have log: "audit_log ?w = [\<lparr>au_event = ''email_verified'', au_user = Some (uuid_str 7), au_fields = []\<rparr>]"
    using w1(2) w2 by (simp add: app_def middlewares_def rate_limit_dispatch_def security_headers_dispatch_def
        handle_request_def try_except_def bnd_def Let_def)
  have "reachable sample_env sample_mailed ?w"
    by (rule reachable.step [OF reachable.start server_step.request])
  from audit_trail [OF this, of "days 20000" "\<lambda>_. JNull" "\<lambda>_. JNull" 0 sample_process] show ?thesis
    using log by (simp add: sample_mailed_def Let_def)
qed

end
