(* ===== verification/Concurrency.thy ===== *)
theory Concurrency
  imports Token Rate_Limit
begin

text \<open>
  Requests that are served at the same time. The server is a single asyncio loop: a handler runs alone up
  to its next \<open>await\<close> of a Redis command and other handlers may run before it goes on. A \<open>thread\<close> is a
  program cut at these points; run without interruption it is the program of the sequential model
  (\<open>complete_hit_thread\<close>, \<open>complete_rotate_thread\<close>), and \<open>interleave\<close> runs several in any order, with
  time passing in between.
\<close>

datatype ('w, 'a) thread = Fin "exn + 'a" | Atom "'w \<Rightarrow> ('w, 'a) thread \<times> 'w"

definition atom :: "('w, 'a) prog \<Rightarrow> ('w, 'a) thread" where
  "atom m = Atom (\<lambda>w. case m w of (r, w') \<Rightarrow> (Fin r, w'))"

primrec tbnd :: "('w, 'a) thread \<Rightarrow> ('a \<Rightarrow> ('w, 'b) thread) \<Rightarrow> ('w, 'b) thread" where
  "tbnd (Fin r) f = (case r of Inl e \<Rightarrow> Fin (Inl e) | Inr x \<Rightarrow> f x)"
| "tbnd (Atom s) f = Atom (\<lambda>w. map_prod (\<lambda>t. tbnd t f) id (s w))"

primrec ttry :: "('w, 'a) thread \<Rightarrow> (exn \<Rightarrow> bool) \<Rightarrow> (exn \<Rightarrow> ('w, 'a) thread) \<Rightarrow> ('w, 'a) thread" where
  "ttry (Fin r) catches handler = (case r of Inl e \<Rightarrow> (if catches e then handler e else Fin r) | Inr x \<Rightarrow> Fin r)"
| "ttry (Atom s) catches handler = Atom (\<lambda>w. map_prod (\<lambda>t. ttry t catches handler) id (s w))"

text \<open>A thread that is alone, and one step of a thread.\<close>

primrec complete :: "('w, 'a) thread \<Rightarrow> ('w, 'a) prog" where
  "complete (Fin r) = (\<lambda>w. (r, w))"
| "complete (Atom s) = (\<lambda>w. case map_prod complete id (s w) of (k, w') \<Rightarrow> k w')"

primrec step_thread :: "('w, 'a) thread \<Rightarrow> 'w \<Rightarrow> ('w, 'a) thread \<times> 'w" where
  "step_thread (Fin r) w = (Fin r, w)"
| "step_thread (Atom s) w = s w"

lemma complete_atom [simp]: "complete (atom m) = m"
  by (simp add: atom_def fun_eq_iff split: prod.splits)

lemma complete_tbnd_at: "complete (tbnd t f) w = bnd (complete t) (\<lambda>x. complete (f x)) w"
proof (induction t arbitrary: w)
  case (Atom s)
  then have "complete (tbnd t f) v = bnd (complete t) (\<lambda>x. complete (f x)) v" if "s w = (t, v')" for t v v'
    using that by (metis fsts.intros fst_conv rangeI)
  then show ?case by (cases "s w") (simp add: bnd_def)
qed (auto simp: bnd_def split: sum.splits)

lemma complete_tbnd [simp]: "complete (tbnd t f) = bnd (complete t) (\<lambda>x. complete (f x))"
  by (rule ext) (rule complete_tbnd_at)

lemma complete_ttry [simp]: "complete (ttry t c h) w = try_except (complete t) c (\<lambda>e. complete (h e)) w"
proof (induction t arbitrary: w)
  case (Atom s)
  then have "complete (ttry t c h) v = try_except (complete t) c (\<lambda>e. complete (h e)) v" if "s w = (t, v')" for t v v'
    using that by (metis fsts.intros fst_conv rangeI)
  then show ?case by (cases "s w") (simp add: try_except_def)
qed (auto simp: try_except_def split: sum.splits)

lemma step_tbnd_atom: "m v = (Inr x, v') \<Longrightarrow> step_thread (tbnd (atom m) f) v = (f x, v')"
  by (simp add: atom_def)

lemma step_atom: "step_thread (atom m) v = map_prod Fin id (m v)"
  by (simp add: atom_def split: prod.splits)

datatype event = Run nat | Wait time

fun interleave ::
    "event list \<Rightarrow> ('r world, 'a) thread list \<Rightarrow> 'r world \<Rightarrow> ('r world, 'a) thread list \<times> 'r world" where
  "interleave [] ts w = (ts, w)"
| "interleave (Run i # es) ts w =
     (if i < length ts
      then (case step_thread (ts ! i) w of (t, w') \<Rightarrow> interleave es (ts[i := t]) w')
      else interleave es ts w)"
| "interleave (Wait d # es) ts w = interleave es ts (tick d w)"

fun waited :: "event list \<Rightarrow> time" where
  "waited [] = 0"
| "waited (Run i # es) = waited es"
| "waited (Wait d # es) = d + waited es"

section \<open>Concurrent hits of the rate limiter\<close>

definition hit_thread :: "'r env \<Rightarrow> string \<Rightarrow> int \<Rightarrow> int \<Rightarrow> ('r world, unit) thread" where
  "hit_thread E key limit window_seconds =
     (let redis_key = ratelimit_key key in
      tbnd (ttry
            (tbnd (atom (redis_incr E redis_key)) (\<lambda>count.
             tbnd (if count = 1 then atom (redis_expire E redis_key window_seconds) else Fin (Inr ())) (\<lambda>_.
             Fin (Inr count))))
            (\<lambda>e. e = RedisError)
            (\<lambda>_. Fin (Inl (err0 ServiceUnavailable))))
          (\<lambda>count. Fin (if limit < count then Inl (err0 RateLimited) else Inr ())))"

lemma complete_hit_thread: "complete (hit_thread E key limit win) = hit E key limit win"
proof
  fix w
  have ret: "complete (Fin r) = lift_sum r" for r :: "exn + 'x"
    by (cases r) (simp_all add: fun_eq_iff)
  show "complete (hit_thread E key limit win) w = hit E key limit win w"
    unfolding hit_thread_def hit_def Let_def when_do_def
    by (simp add: bnd_def try_except_def ret del: complete.simps split: prod.splits sum.splits)
qed

text \<open>How far a hit has come; \<open>Granted\<close> and a \<open>First\<close> one within its limit have been counted in.\<close>

datatype hit_phase = Waiting | First | Granted | Refused

definition expiring :: "'r env \<Rightarrow> string \<Rightarrow> int \<Rightarrow> int \<Rightarrow> ('r world, unit) thread" where
  "expiring E key limit win = Atom (\<lambda>w. case redis_expire E (ratelimit_key key) win w of
     (Inl e, w') \<Rightarrow> (Fin (Inl (if e = RedisError then err0 ServiceUnavailable else e)), w')
   | (Inr u, w') \<Rightarrow> (Fin (if limit < 1 then Inl (err0 RateLimited) else Inr ()), w'))"

fun at_phase :: "'r env \<Rightarrow> string \<Rightarrow> int \<Rightarrow> int \<Rightarrow> hit_phase \<Rightarrow> ('r world, unit) thread \<Rightarrow> bool" where
  "at_phase E key limit win Waiting t \<longleftrightarrow> t = hit_thread E key limit win"
| "at_phase E key limit win First t \<longleftrightarrow> t = expiring E key limit win"
| "at_phase E key limit win Granted t \<longleftrightarrow> t = Fin (Inr ())"
| "at_phase E key limit win Refused t \<longleftrightarrow> (\<exists>e. t = Fin (Inl e))"

definition counted_in :: "int \<Rightarrow> hit_phase \<Rightarrow> bool" where
  "counted_in limit p \<longleftrightarrow> p = Granted \<or> (p = First \<and> 1 \<le> limit)"

lemma step_hit_thread:
  "step_thread (hit_thread E key limit win) w =
     (case redis_incr E (ratelimit_key key) w of
        (Inl e, w') \<Rightarrow> (Fin (Inl (if e = RedisError then err0 ServiceUnavailable else e)), w')
      | (Inr n, w') \<Rightarrow> (if n = 1 then expiring E key limit win
                       else Fin (if limit < n then Inl (err0 RateLimited) else Inr ()), w'))"
  by (auto simp: hit_thread_def expiring_def atom_def Let_def fun_eq_iff split: prod.splits sum.splits)

text \<open>The counter of the key is \<open>c\<close> until \<open>stop\<close>, at least.\<close>

definition window :: "('r \<Rightarrow> time \<Rightarrow> string \<Rightarrow> rval option) \<Rightarrow> string \<Rightarrow> time \<Rightarrow> int \<Rightarrow> 'r world \<Rightarrow> bool" where
  "window val k stop c w \<longleftrightarrow> 0 \<le> c \<and>
     (\<forall>t. clock w \<le> t \<and> t < stop \<longrightarrow> val (redis w) t k = (if c = 0 then None else Some (Count c)))"

definition hits_ok ::
    "'r env \<Rightarrow> ('r \<Rightarrow> time \<Rightarrow> string \<Rightarrow> rval option) \<Rightarrow> string \<Rightarrow> int \<Rightarrow> int \<Rightarrow> time \<Rightarrow>
     ('r world, unit) thread list \<Rightarrow> 'r world \<Rightarrow> bool" where
  "hits_ok E val key limit win stop ts w \<longleftrightarrow>
     (\<exists>c ps. window val (ratelimit_key key) stop c w \<and> list_all2 (at_phase E key limit win) ps ts \<and>
        int (length (filter (counted_in limit) ps)) \<le> c \<and>
        int (length (filter (counted_in limit) ps)) \<le> max 0 limit)"

lemma waited_nonneg: "\<forall>d. Wait d \<in> set es \<longrightarrow> 0 \<le> d \<Longrightarrow> 0 \<le> waited es"
  by (induction es rule: waited.induct) auto

lemma length_filter_update:
  "i < length xs \<Longrightarrow> int (length (filter P (xs[i := x]))) =
     int (length (filter P xs)) - of_bool (P (xs ! i)) + of_bool (P x)"
proof (induction xs arbitrary: i)
  case (Cons y ys)
  then show ?case by (cases i) (simp_all del: of_nat_Suc add: of_nat_Suc)
qed simp

context redis_env
begin

lemma runs_window_incr:
  assumes c: "window val k stop c w" and now: "clock w < stop"
    and "\<And>w'. window val k stop c w' \<Longrightarrow> clock w' = clock w \<Longrightarrow> F RedisError w'"
    and "\<And>w'. window val k stop (c + 1) w' \<Longrightarrow> clock w' = clock w \<Longrightarrow> S (c + 1) w'"
  shows "runs (redis_incr E k) w S F"
proof (rule runs_redis_incr)
  have seen: "seen w k = (if c = 0 then None else Some (Count c))" using c now by (simp add: window_def)
  show "seen w k \<noteq> Some (Text v)" for v using seen by auto
  show "F RedisError w'" if "redis_upd val (\<lambda>t f. f) w w'" for w'
    by (rule assms(3)) (use c redis_upd_fields(1) [OF that] redis_upd_vals [OF that] in \<open>auto simp: window_def\<close>)
  show "S (count_of (seen w k) + 1) w'" if "redis_upd val (\<lambda>t. bump k (seen w k)) w w'" for w'
  proof -
    have "window val k stop (c + 1) w'"
      using c seen redis_upd_fields(1) [OF that] redis_upd_vals [OF that] by (auto simp: window_def bump_def)
    then show ?thesis using assms(4) redis_upd_fields(1) [OF that] seen by (auto split: if_splits)
  qed
qed

lemma runs_window_expire:
  assumes c: "window val k stop c w" and now: "clock w < stop" and win: "0 < win" "stop \<le> clock w + seconds win"
    and "\<And>w'. window val k stop c w' \<Longrightarrow> clock w' = clock w \<Longrightarrow> F RedisError w'"
    and "\<And>w'. window val k stop c w' \<Longrightarrow> clock w' = clock w \<Longrightarrow> S () w'"
  shows "runs (redis_expire E k win) w S F"
proof (rule runs_redis_expire [OF win(1)])
  show "F RedisError w'" if "redis_upd val (\<lambda>t f. f) w w'" for w'
    by (rule assms(5)) (use c redis_upd_fields(1) [OF that] redis_upd_vals [OF that] in \<open>auto simp: window_def\<close>)
  show "S () w'" if "redis_upd val (\<lambda>t f. f(k := if t < clock w + seconds win then seen w k else None)) w w'" for w'
    by (rule assms(6))
       (use c now win(2) redis_upd_fields(1) [OF that] redis_upd_vals [OF that] in \<open>auto simp: window_def\<close>)
qed

lemma hits_ok_step:
  assumes ok: "hits_ok E val key limit win stop ts w" and i: "i < length ts" and now: "clock w < stop"
    and win: "0 < win" "stop \<le> clock w + seconds win" and step: "step_thread (ts ! i) w = (t, w')"
  shows "hits_ok E val key limit win stop (ts[i := t]) w' \<and> clock w' = clock w"
proof -
  let ?k = "ratelimit_key key" and ?n = "\<lambda>ps. int (length (filter (counted_in limit) ps))"
  obtain c ps where c: "window val ?k stop c w" and ps: "list_all2 (at_phase E key limit win) ps ts"
    and n: "?n ps \<le> c" "?n ps \<le> max 0 limit"
    using ok by (auto simp: hits_ok_def)
  have len: "i < length ps" using i ps by (simp add: list_all2_lengthD)
  have phase: "at_phase E key limit win (ps ! i) (ts ! i)" using list_all2_nthD [OF ps len] .
  have result: "hits_ok E val key limit win stop (ts[i := t]) w'"
    if "window val ?k stop c' w'" "at_phase E key limit win p t" "?n (ps[i := p]) \<le> c'" "?n (ps[i := p]) \<le> max 0 limit" for c' p
    unfolding hits_ok_def using that list_all2_update_cong [OF ps that(2)] by blast
  show ?thesis
  proof (cases "ps ! i")
    case Waiting
    let ?p = "\<lambda>r. case r of Inl e \<Rightarrow> Refused | Inr m \<Rightarrow> if m = 1 then First else if limit < m then Refused else Granted"
    have "runs (redis_incr E ?k) w (\<lambda>m v. m = c + 1 \<and> window val ?k stop (c + 1) v \<and> clock v = clock w)
        (\<lambda>e v. window val ?k stop c v \<and> clock v = clock w)"
      by (rule runs_window_incr [OF c now]) simp_all
    moreover obtain r where r: "redis_incr E ?k w = (r, w')" "at_phase E key limit win (?p r) t"
      using step phase Waiting by (cases "redis_incr E ?k w") (auto simp: step_hit_thread split: sum.splits if_splits)
    ultimately obtain c' where "window val ?k stop c' w'" "clock w' = clock w" "c \<le> c'"
        "\<forall>m. r = Inr m \<longrightarrow> m = c + 1 \<and> c' = c + 1"
      by (cases r) (auto simp: runs_def)
    moreover have c0: "0 \<le> c" using c by (simp add: window_def)
    ultimately have counted: "counted_in limit (?p r) \<Longrightarrow> c' = c + 1 \<and> c + 1 \<le> limit"
      by (auto simp: counted_in_def split: sum.splits if_splits)
    have "?n (ps[i := ?p r]) = ?n ps + of_bool (counted_in limit (?p r))"
      using len Waiting by (simp add: length_filter_update counted_in_def)
    then have "?n (ps[i := ?p r]) \<le> c' \<and> ?n (ps[i := ?p r]) \<le> max 0 limit"
      using n \<open>c \<le> c'\<close> counted by (cases "counted_in limit (?p r)") auto
    then show ?thesis using result [OF \<open>window val ?k stop c' w'\<close> r(2)] \<open>clock w' = clock w\<close> by simp
  next
    case First
    let ?p = "\<lambda>r. case r of Inl e \<Rightarrow> Refused | Inr u \<Rightarrow> if limit < 1 then Refused else Granted"
    have "runs (redis_expire E ?k win) w (\<lambda>_ v. window val ?k stop c v \<and> clock v = clock w)
        (\<lambda>e v. window val ?k stop c v \<and> clock v = clock w)"
      by (rule runs_window_expire [OF c now win]) simp_all
    moreover obtain r where r: "redis_expire E ?k win w = (r, w')" "at_phase E key limit win (?p r) t"
      using step phase First by (cases "redis_expire E ?k win w") (auto simp: expiring_def split: sum.splits if_splits)
    ultimately have "window val ?k stop c w'" "clock w' = clock w" by (cases r; simp add: runs_def)+
    moreover have "counted_in limit (?p r) \<Longrightarrow> counted_in limit First"
      by (auto simp: counted_in_def split: sum.splits if_splits)
    then have "?n (ps[i := ?p r]) \<le> ?n ps"
      using len First by (cases "counted_in limit (?p r)") (simp_all add: length_filter_update)
    ultimately show ?thesis using result [OF _ r(2)] n by fastforce
  next
    case Granted
    then show ?thesis using step phase ok by auto
  next
    case Refused
    then show ?thesis using step phase ok by auto
  qed
qed

lemma hits_ok_interleave:
  assumes "hits_ok E val key limit win stop ts w" and "clock w + waited es < stop" and "\<forall>d. Wait d \<in> set es \<longrightarrow> 0 \<le> d"
    and "0 < win" and "stop \<le> clock w + seconds win" and "interleave es ts w = (ts', w')"
  shows "hits_ok E val key limit win stop ts' w'"
  using assms
proof (induction es ts w arbitrary: ts' w' rule: interleave.induct)
  case (2 i es ts w)
  have now: "clock w < stop" using waited_nonneg [of es] "2.prems"(2,3) by simp
  show ?case
  proof (cases "i < length ts")
    case True
    obtain t v where step: "step_thread (ts ! i) w = (t, v)" by (cases "step_thread (ts ! i) w")
    from hits_ok_step [OF "2.prems"(1) True now "2.prems"(4,5) step] show ?thesis
      using "2.IH"(1) [OF True step [symmetric]] "2.prems" True step by simp
  qed (use 2 in auto)
next
  case (3 d es ts w)
  have d: "0 \<le> d" using "3.prems"(3) by simp
  have "hits_ok E val key limit win stop ts (tick d w)"
  proof -
    have "window val k stop c w \<Longrightarrow> window val k stop c (tick d w)" for k c
      using d by (simp add: window_def tick_def)
    then show ?thesis using "3.prems"(1) unfolding hits_ok_def by blast
  qed
  then show ?case using "3.IH" [of ts' w'] "3.prems" d by (simp add: add.assoc)
qed simp

end

text \<open>How a thread has come out.\<close>

fun admitted :: "('w, 'a) thread \<Rightarrow> bool" where
  "admitted (Fin (Inr x)) \<longleftrightarrow> True"
| "admitted _ \<longleftrightarrow> False"

lemma admitted_counted: "list_all2 (at_phase E key limit win) ps ts \<Longrightarrow>
    length (filter admitted ts) \<le> length (filter (counted_in limit) ps)"
proof (induction rule: list_all2_induct)
  case (Cons p ps t ts)
  have "admitted t \<Longrightarrow> counted_in limit p"
    using Cons(1) by (cases p) (auto simp: counted_in_def hit_thread_def expiring_def atom_def Let_def)
  with Cons.IH show ?case by simp
qed simp

text \<open>
  C14. The limiter cannot be outrun: however many requests hit a key at the same time, in whatever order their
  commands reach Redis within the window and whichever of them fail, at most \<open>limit\<close> are admitted. (A
  thread that runs alone is \<open>hit\<close> of the sequential model.)
\<close>

theorem concurrent_hits_bounded:
  assumes "redis_env E val up" and "\<forall>t \<ge> clock w. val (redis w) t (ratelimit_key key) = None" and "0 < win"
    and "\<forall>d. Wait d \<in> set es \<longrightarrow> 0 \<le> d" and "waited es < seconds win"
    and "interleave es (replicate n (hit_thread E key limit win)) w = (ts, w')"
  shows "int (length (filter admitted ts)) \<le> max 0 limit \<and> complete (hit_thread E key limit win) = hit E key limit win"
proof -
  let ?stop = "clock w + seconds win"
  have "hits_ok E val key limit win ?stop (replicate n (hit_thread E key limit win)) w"
    unfolding hits_ok_def
    by (rule exI [of _ 0], rule exI [of _ "replicate n Waiting"])
       (use assms(2) in \<open>auto simp: window_def list_all2_conv_all_nth counted_in_def\<close>)
  from redis_env.hits_ok_interleave [OF assms(1) this _ assms(4,3) _ assms(6)] assms(5)
  have "hits_ok E val key limit win ?stop ts w'" by simp
  then obtain ps where "list_all2 (at_phase E key limit win) ps ts"
      "int (length (filter (counted_in limit) ps)) \<le> max 0 limit"
    by (auto simp: hits_ok_def)
  with admitted_counted [of E key limit win ps ts] show ?thesis
    by (simp add: complete_hit_thread)
qed

theorem concurrent_hits_bounded_witness:
  "int (length (filter admitted (fst (interleave [Run 0, Run 1, Wait (seconds 5), Run 2, Run 0, Wait (seconds 50), Run 3]
     (replicate 4 (hit_thread sample_env ''auth:ip'' 2 60)) sample_world)))) \<le> 2"
proof -
  let ?es = "[Run 0, Run 1, Wait (seconds 5), Run 2, Run 0, Wait (seconds 50), Run 3]"
  obtain ts w' where "interleave ?es (replicate 4 (hit_thread sample_env ''auth:ip'' 2 60)) sample_world = (ts, w')"
    by fastforce
  moreover from this have "int (length (filter admitted ts)) \<le> max 0 2"
    by (rule concurrent_hits_bounded [OF sample.redis_env_axioms, THEN conjunct1, rotated -1]) (auto simp: seconds_def)
  ultimately show ?thesis by simp
qed

section \<open>Concurrent rotations of a refresh token\<close>

text \<open>What follows the second command, without another \<open>await\<close>.\<close>

definition finish_rotation ::
    "'r env \<Rightarrow> claims \<Rightarrow> ('r world, string \<times> string option \<times> token_pair \<times> string) prog" where
  "finish_rotation E payload =
     bnd (lift_sum (str_claim payload ''sub'')) (\<lambda>user_id.
     let session_id = get_claim payload ''sid'';
         remember_me = truthy_opt (map_of payload ''remember_me'')
     in bnd (issue_pair E user_id remember_me session_id) (\<lambda>(pair, refresh_jti).
     ret (user_id, session_id, pair, refresh_jti)))"

definition rotate_thread ::
    "'r env \<Rightarrow> string \<Rightarrow> ('r world, string \<times> string option \<times> token_pair \<times> string) thread" where
  "rotate_thread E refresh_token =
     tbnd (atom (verify_refresh E refresh_token)) (\<lambda>payload.
     tbnd (atom (revoke_token E payload)) (\<lambda>_.
     atom (finish_rotation E payload)))"

lemma complete_rotate_thread: "complete (rotate_thread E tok) = rotate_tokens E tok"
  by (rule ext) (simp add: rotate_thread_def finish_rotation_def rotate_tokens_def)

text \<open>The two commands of a rotation and what follows them, for an issued token that is not on the blacklist.\<close>

lemma refresh_claims_facts:
  assumes "sid \<noteq> Some []" and "0 \<le> t" and "t < seconds (int_seconds (since + refresh_ttl (cfg E) rm))"
  shows "claims_live t (refresh_claims E u rm sid j since)"
    "map_of (refresh_claims E u rm sid j since) ''type'' = Some (JStr ''refresh'')"
    "map_of (refresh_claims E u rm sid j since) ''jti'' = Some (JStr j)"
    "map_of (refresh_claims E u rm sid j since) ''exp'' = Some (JInt (int_seconds (since + refresh_ttl (cfg E) rm)))"
    "map_of (refresh_claims E u rm sid j since) ''sub'' = Some (JStr u)"
    "get_claim (refresh_claims E u rm sid j since) ''sid'' = sid" "int_seconds (since + refresh_ttl (cfg E) rm) \<noteq> 0"
  using assms
  by (auto simp: refresh_claims_def get_claim_def map_add_def seconds_def split: option.splits list.splits)

context redis_env
begin

lemma check_issued:
  assumes "jwt_sound E" and "sid \<noteq> Some []" and "0 \<le> clock v" and "clock v < seconds (int_seconds (since + refresh_ttl (cfg E) rm))"
    and "up (redis v)" and "seen v (blacklist_key j) = None"
  shows "\<exists>v'. verify_refresh E (sign E (refresh_claims E u rm sid j since)) v = (Inr (refresh_claims E u rm sid j since), v') \<and>
    clock v' = clock v \<and> draws v' = draws v \<and> up (redis v') \<and> seen v' (blacklist_key j) = None"
proof -
  note c = refresh_claims_facts [OF assms(2-4)]
  have "runs (verify_refresh E (sign E (refresh_claims E u rm sid j since))) v
      (\<lambda>p v'. p = refresh_claims E u rm sid j since \<and> redis_upd val (\<lambda>t f. f) v v' \<and> up (redis v')) (\<lambda>_ _. False)"
    by (rule runs_verify_refresh [OF assms(1) c(1-3)]) (use assms(5,6) in simp_all)
  then obtain v' where "verify_refresh E (sign E (refresh_claims E u rm sid j since)) v = (Inr (refresh_claims E u rm sid j since), v')"
      "redis_upd val (\<lambda>t f. f) v v'" "up (redis v')"
    by (auto dest: runs_returnsD)
  then show ?thesis
    using redis_upd_fields(1,2) [of val _ v v'] redis_upd_vals [of val _ v v' "clock v"] assms(6) by auto
qed

lemma blacklist_issued:
  assumes "sid \<noteq> Some []" and "0 \<le> clock v" and "clock v < seconds (int_seconds (since + refresh_ttl (cfg E) rm))"
    and "up (redis v)" and "j \<noteq> []"
  shows "\<exists>v'. revoke_token E (refresh_claims E u rm sid j since) v = (Inr (), v') \<and>
    clock v' = clock v \<and> draws v' = draws v \<and> up (redis v')"
proof -
  note c = refresh_claims_facts [OF assms(1-3)]
  have "runs (revoke_token E (refresh_claims E u rm sid j since)) v
      (\<lambda>_ v'. clock v' = clock v \<and> draws v' = draws v \<and> up (redis v')) (\<lambda>_ _. False)"
  proof (rule runs_revoke_token [OF c(3) assms(5) c(4,7)], goal_cases)
    case (3 v')
    then show ?case using assms(4) redis_upd_fields(1,2) [OF 3(3)] by simp
  qed (use assms(4) in simp_all)
  then show ?thesis by (auto dest: runs_returnsD)
qed

end

lemma finish_issued:
  assumes "sid \<noteq> Some []" and "0 \<le> t" and "t < seconds (int_seconds (since + refresh_ttl (cfg E) rm))"
  shows "\<exists>pair. finish_rotation E (refresh_claims E u rm sid j since) v =
    (Inr (u, sid, pair, uuid_str (uuid4 E (Suc (draws v)))), v\<lparr>draws := Suc (Suc (draws v))\<rparr>)"
  using str_claim_simps(1) [OF refresh_claims_facts(5) [OF assms]] refresh_claims_facts(6) [OF assms]
  by (simp add: finish_rotation_def bnd_def issue_pair_run Let_def)



end
