(* ===== verification/Concurrent_Failures.thy ===== *)
theory Concurrent_Failures
  imports Concurrency
begin

text \<open>
  Failed log-ins that are recorded at the same time. \<open>record_failure_thread\<close> is \<open>record_failure\<close> cut at its
  Redis commands; the theorem of this file says that no order of the commands loses the lock.
\<close>

section \<open>The thread\<close>

definition failure_handler :: "('r world, unit) thread \<Rightarrow> ('r world, unit) thread" where
  "failure_handler t = ttry t (\<lambda>e. e = RedisError) (\<lambda>_. Fin (Inr ()))"

definition lock_steps :: "'r env \<Rightarrow> string \<Rightarrow> string option \<Rightarrow> ('r world, unit) thread" where
  "lock_steps E identifier ip =
     tbnd (atom (redis_set E (lockout_key identifier ip) ''1'' (LOCKOUT_SECONDS (cfg E)))) (\<lambda>_.
     atom (redis_delete E (failcount_key identifier ip)))"

definition record_failure_thread :: "'r env \<Rightarrow> string \<Rightarrow> string option \<Rightarrow> ('r world, unit) thread" where
  "record_failure_thread E identifier ip =
     (let key = failcount_key identifier ip in
      failure_handler
        (tbnd (atom (redis_incr E key)) (\<lambda>count.
         tbnd (if count = 1 then atom (redis_expire E key (LOCKOUT_SECONDS (cfg E))) else Fin (Inr ())) (\<lambda>_.
         if MAX_FAILED_LOGINS (cfg E) \<le> count then lock_steps E identifier ip else Fin (Inr ())))))"

lemma complete_record_failure_thread: "complete (record_failure_thread E i ip) = record_failure E i ip"
proof
  fix w
  have ret: "complete (Fin r) = lift_sum r" for r :: "exn + 'x"
    by (cases r) (simp_all add: fun_eq_iff)
  show "complete (record_failure_thread E i ip) w = record_failure E i ip w"
    unfolding record_failure_thread_def record_failure_def failure_handler_def lock_steps_def Let_def when_do_def
    by (simp add: bnd_def try_except_def ret del: complete.simps split: prod.splits sum.splits)
qed

text \<open>How far a failure has come: before its \<open>INCR\<close>, \<open>EXPIRE\<close>, \<open>SET\<close>, \<open>DELETE\<close>, or through.\<close>

datatype failure_phase = Counting | Expiring | Locking | Clearing | Recorded

fun phase_thread :: "'r env \<Rightarrow> string \<Rightarrow> string option \<Rightarrow> failure_phase \<Rightarrow> ('r world, unit) thread" where
  "phase_thread E i ip Counting = record_failure_thread E i ip"
| "phase_thread E i ip Expiring = failure_handler
     (tbnd (atom (redis_expire E (failcount_key i ip) (LOCKOUT_SECONDS (cfg E)))) (\<lambda>_.
      if MAX_FAILED_LOGINS (cfg E) \<le> 1 then lock_steps E i ip else Fin (Inr ())))"
| "phase_thread E i ip Locking = failure_handler (lock_steps E i ip)"
| "phase_thread E i ip Clearing = failure_handler (atom (redis_delete E (failcount_key i ip)))"
| "phase_thread E i ip Recorded = Fin (Inr ())"

definition reached :: "'r env \<Rightarrow> int \<Rightarrow> failure_phase" where
  "reached E n = (if MAX_FAILED_LOGINS (cfg E) \<le> n then Locking else Recorded)"

text \<open>The commands a failure still has to run, at most.\<close>

fun commands_left :: "failure_phase \<Rightarrow> nat" where
  "commands_left Counting = 4"
| "commands_left Expiring = 3"
| "commands_left Locking = 2"
| "commands_left Clearing = 1"
| "commands_left Recorded = 0"

lemma commands_left_reached [simp]: "commands_left (reached E n) \<le> 2" "commands_left (reached E n) \<le> 3"
  by (simp_all add: reached_def)

lemma step_failure:
  "redis_incr E (failcount_key i ip) w = (Inr n, w') \<Longrightarrow>
     step_thread (phase_thread E i ip Counting) w = (phase_thread E i ip (if n = 1 then Expiring else reached E n), w')"
  "redis_expire E (failcount_key i ip) (LOCKOUT_SECONDS (cfg E)) w = (Inr u, w') \<Longrightarrow>
     step_thread (phase_thread E i ip Expiring) w = (phase_thread E i ip (reached E 1), w')"
  "redis_set E (lockout_key i ip) ''1'' (LOCKOUT_SECONDS (cfg E)) w = (Inr u, w') \<Longrightarrow>
     step_thread (phase_thread E i ip Locking) w = (phase_thread E i ip Clearing, w')"
  "redis_delete E (failcount_key i ip) w = (Inr u, w') \<Longrightarrow>
     step_thread (phase_thread E i ip Clearing) w = (phase_thread E i ip Recorded, w')"
  by (simp_all add: record_failure_thread_def failure_handler_def lock_steps_def reached_def atom_def Let_def)

section \<open>The invariant\<close>

definition held :: "('r \<Rightarrow> time \<Rightarrow> string \<Rightarrow> rval option) \<Rightarrow> string \<Rightarrow> time \<Rightarrow> 'r world \<Rightarrow> bool" where
  "held val k stop w \<longleftrightarrow> (\<forall>t. clock w \<le> t \<and> t < stop \<longrightarrow> val (redis w) t k = Some (Text ''1''))"

definition counter :: "('r \<Rightarrow> time \<Rightarrow> string \<Rightarrow> rval option) \<Rightarrow> string \<Rightarrow> 'r world \<Rightarrow> bool" where
  "counter val k w \<longleftrightarrow> (\<forall>t v. clock w \<le> t \<longrightarrow> val (redis w) t k \<noteq> Some (Text v))"

text \<open>
  Until one thread has locked, none deletes the counter, the counter is the number of failures
  so far, and from the limit on some thread is about to lock.
\<close>

definition failing ::
    "'r env \<Rightarrow> ('r \<Rightarrow> time \<Rightarrow> string \<Rightarrow> rval option) \<Rightarrow> string \<Rightarrow> string option \<Rightarrow> time \<Rightarrow> int \<Rightarrow>
     failure_phase list \<Rightarrow> 'r world \<Rightarrow> bool" where
  "failing E val i ip stop c0 ps w \<longleftrightarrow> counter val (failcount_key i ip) w \<and>
     (held val (lockout_key i ip) stop w \<or>
      (window val (failcount_key i ip) stop (c0 + int (length (filter (\<lambda>p. p \<noteq> Counting) ps))) w \<and>
       Clearing \<notin> set ps \<and>
       (MAX_FAILED_LOGINS (cfg E) \<le> c0 + int (length (filter (\<lambda>p. p \<noteq> Counting) ps)) \<longrightarrow>
          Locking \<in> set ps \<or> Expiring \<in> set ps \<and> MAX_FAILED_LOGINS (cfg E) \<le> 1)))"

abbreviation (input) begun :: "failure_phase list \<Rightarrow> int" where
  "begun ps \<equiv> int (length (filter (\<lambda>p. p \<noteq> Counting) ps))"

lemma kept_elsewhere: "x \<in> set xs \<Longrightarrow> xs ! i \<noteq> x \<Longrightarrow> x \<in> set (xs[i := y])"
  by (metis in_set_conv_nth length_list_update nth_list_update_neq)

lemma only_updated: "x \<in> set (xs[i := y]) \<Longrightarrow> x = y \<or> x \<in> set xs"
  by (meson insertE set_update_subset_insert subsetD)

context redis_env
begin

text \<open>The four commands, while Redis answers.\<close>

lemma failure_commands:
  assumes "up (redis w)"
  shows "counter val k w \<Longrightarrow> \<exists>w'. redis_incr E k w = (Inr (count_of (seen w k) + 1), w') \<and>
      redis_upd val (\<lambda>t. bump k (seen w k)) w w' \<and> up (redis w')"
    "0 < ex \<Longrightarrow> \<exists>w'. redis_expire E k ex w = (Inr (), w') \<and>
      redis_upd val (\<lambda>t f. f(k := if t < clock w + seconds ex then seen w k else None)) w w' \<and> up (redis w')"
    "0 < ex \<Longrightarrow> \<exists>w'. redis_set E k v ex w = (Inr (), w') \<and>
      redis_upd val (\<lambda>t f. f(k := if t < clock w + seconds ex then Some (Text v) else None)) w w' \<and> up (redis w')"
    "\<exists>w'. redis_delete E k w = (Inr (), w') \<and> redis_upd val (\<lambda>t f. f(k := None)) w w' \<and> up (redis w')"
proof -
  assume "counter val k w"
  then have "runs (redis_incr E k) w (\<lambda>n w'. n = count_of (seen w k) + 1 \<and>
      redis_upd val (\<lambda>t. bump k (seen w k)) w w' \<and> up (redis w')) (\<lambda>_ _. False)"
    by (intro runs_redis_incr) (use assms in \<open>auto simp: counter_def\<close>)
  then show "\<exists>w'. redis_incr E k w = (Inr (count_of (seen w k) + 1), w') \<and>
      redis_upd val (\<lambda>t. bump k (seen w k)) w w' \<and> up (redis w')"
    by (auto dest: runs_returnsD)
next
  assume "0 < ex"
  then have "runs (redis_expire E k ex) w (\<lambda>_ w'.
      redis_upd val (\<lambda>t f. f(k := if t < clock w + seconds ex then seen w k else None)) w w' \<and> up (redis w')) (\<lambda>_ _. False)"
    "runs (redis_set E k v ex) w (\<lambda>_ w'.
      redis_upd val (\<lambda>t f. f(k := if t < clock w + seconds ex then Some (Text v) else None)) w w' \<and> up (redis w')) (\<lambda>_ _. False)"
    by (intro runs_redis_expire runs_redis_set; use assms in simp)+
  then show "\<exists>w'. redis_expire E k ex w = (Inr (), w') \<and>
      redis_upd val (\<lambda>t f. f(k := if t < clock w + seconds ex then seen w k else None)) w w' \<and> up (redis w')"
    "\<exists>w'. redis_set E k v ex w = (Inr (), w') \<and>
      redis_upd val (\<lambda>t f. f(k := if t < clock w + seconds ex then Some (Text v) else None)) w w' \<and> up (redis w')"
    by (auto dest: runs_returnsD)
next
  have "runs (redis_delete E k) w (\<lambda>_ w'. redis_upd val (\<lambda>t f. f(k := None)) w w' \<and> up (redis w')) (\<lambda>_ _. False)"
    by (intro runs_redis_delete) (use assms in auto)
  then show "\<exists>w'. redis_delete E k w = (Inr (), w') \<and> redis_upd val (\<lambda>t f. f(k := None)) w w' \<and> up (redis w')"
    by (auto dest: runs_returnsD)
qed

text \<open>What they do to the counter, its window and the lock.\<close>

lemma incr_effects:
  assumes "redis_upd val (\<lambda>t. bump (failcount_key i ip) (seen w (failcount_key i ip))) w w'"
    and "counter val (failcount_key i ip) w"
  shows "counter val (failcount_key i ip) w'"
    "held val (lockout_key i ip) stop w \<Longrightarrow> held val (lockout_key i ip) stop w'"
    "clock w < stop \<Longrightarrow> window val (failcount_key i ip) stop c w \<Longrightarrow>
       count_of (seen w (failcount_key i ip)) = c \<and> window val (failcount_key i ip) stop (c + 1) w'"
proof -
  note u = redis_upd_fields(1) [OF assms(1)] redis_upd_vals [OF assms(1)]
  show "counter val (failcount_key i ip) w'"
    using assms(2) by (auto simp: counter_def u bump_def)
  show "held val (lockout_key i ip) stop w \<Longrightarrow> held val (lockout_key i ip) stop w'"
    by (auto simp: held_def u bump_def)
  assume now: "clock w < stop" and win: "window val (failcount_key i ip) stop c w"
  then have "seen w (failcount_key i ip) = (if c = 0 then None else Some (Count c))" by (simp add: window_def)
  with win show "count_of (seen w (failcount_key i ip)) = c \<and> window val (failcount_key i ip) stop (c + 1) w'"
    by (auto simp: window_def u bump_def)
qed

lemma expire_effects:
  assumes "redis_upd val (\<lambda>t f. f(failcount_key i ip := if t < clock w + seconds ex then seen w (failcount_key i ip) else None)) w w'"
    and "counter val (failcount_key i ip) w"
  shows "counter val (failcount_key i ip) w'"
    "held val (lockout_key i ip) stop w \<Longrightarrow> held val (lockout_key i ip) stop w'"
    "clock w < stop \<Longrightarrow> stop \<le> clock w + seconds ex \<Longrightarrow> window val (failcount_key i ip) stop c w \<Longrightarrow>
       window val (failcount_key i ip) stop c w'"
  using assms(2) redis_upd_fields(1) [OF assms(1)] redis_upd_vals [OF assms(1)]
  by (auto simp: counter_def held_def window_def)

lemma lock_effects:
  assumes "redis_upd val (\<lambda>t f. f(lockout_key i ip := if t < clock w + seconds ex then Some (Text ''1'') else None)) w w'"
    and "counter val (failcount_key i ip) w" and "stop \<le> clock w + seconds ex"
  shows "counter val (failcount_key i ip) w'" "held val (lockout_key i ip) stop w'"
  using assms(2,3) redis_upd_fields(1) [OF assms(1)] redis_upd_vals [OF assms(1)]
  by (auto simp: counter_def held_def)

lemma clear_effects:
  assumes "redis_upd val (\<lambda>t f. f(failcount_key i ip := None)) w w'" and "counter val (failcount_key i ip) w"
  shows "counter val (failcount_key i ip) w'"
    "held val (lockout_key i ip) stop w \<Longrightarrow> held val (lockout_key i ip) stop w'"
  using assms(2) redis_upd_fields(1) [OF assms(1)] redis_upd_vals [OF assms(1)]
  by (auto simp: counter_def held_def)

lemma failing_step:
  assumes inv: "failing E val i ip stop c0 ps w" and j: "j < length ps" and up: "up (redis w)" and sane: "sane (cfg E)"
    and now: "clock w < stop" "stop \<le> clock w + seconds (LOCKOUT_SECONDS (cfg E))"
  shows "\<exists>p w'. step_thread (phase_thread E i ip (ps ! j)) w = (phase_thread E i ip p, w') \<and>
    failing E val i ip stop c0 (ps[j := p]) w' \<and> up (redis w') \<and> clock w' = clock w \<and>
    commands_left p \<le> commands_left (ps ! j) - 1"
proof -
  let ?k = "failcount_key i ip" and ?L = "LOCKOUT_SECONDS (cfg E)"
  have ctr: "counter val ?k w" using inv by (simp add: failing_def)
  have L: "0 < ?L" using sane by (rule saneD)
  have result: ?thesis if "step_thread (phase_thread E i ip (ps ! j)) w = (phase_thread E i ip p, w')"
    "failing E val i ip stop c0 (ps[j := p]) w'" "up (redis w')" "clock w' = clock w" "commands_left p \<le> commands_left (ps ! j) - 1" for p w'
    using that by blast
  show ?thesis
  proof (cases "ps ! j")
    case Counting
    let ?n = "count_of (seen w ?k) + 1"
    let ?p = "if ?n = 1 then Expiring else reached E ?n"
    obtain w' where w': "redis_incr E ?k w = (Inr ?n, w')" "redis_upd val (\<lambda>t. bump ?k (seen w ?k)) w w'" "up (redis w')"
      using failure_commands(1) [OF up ctr] by blast
    note eff = incr_effects [OF w'(2) ctr]
    have more: "begun (ps[j := ?p]) = begun ps + 1"
      using j Counting by (simp add: length_filter_update reached_def)
    have "failing E val i ip stop c0 (ps[j := ?p]) w'"
    proof (cases "held val (lockout_key i ip) stop w")
      case True
      then show ?thesis using eff by (simp add: failing_def)
    next
      case False
      then have "window val ?k stop (c0 + begun ps) w" "Clearing \<notin> set ps" using inv by (auto simp: failing_def)
      with eff(3) [OF now(1)] have n: "?n = c0 + begun ps + 1" "window val ?k stop (c0 + begun ps + 1) w'"
        by auto
      have "window val ?k stop (c0 + begun (ps[j := ?p])) w'"
        using n(2) by (simp only: more add.assoc)
      moreover have "Clearing \<notin> set (ps[j := ?p])"
        using \<open>Clearing \<notin> set ps\<close> by (auto simp: reached_def dest!: only_updated split: if_splits)
      moreover have "Locking \<in> set (ps[j := ?p]) \<or> Expiring \<in> set (ps[j := ?p]) \<and> MAX_FAILED_LOGINS (cfg E) \<le> 1"
        if "MAX_FAILED_LOGINS (cfg E) \<le> c0 + begun (ps[j := ?p])"
      proof -
        have "?p \<in> set (ps[j := ?p])" using j by (rule set_update_memI)
        moreover have "?p = Locking \<or> ?p = Expiring \<and> MAX_FAILED_LOGINS (cfg E) \<le> 1"
          using that n(1) unfolding more by (auto simp: reached_def)
        ultimately show ?thesis by metis
      qed
      ultimately show ?thesis using eff(1) by (simp add: failing_def)
    qed
    then show ?thesis
      using w'(3) redis_upd_fields(1) [OF w'(2)] step_failure(1) [OF w'(1)]
      by (intro result [of "?p" w']) (simp_all add: Counting del: phase_thread.simps)
  next
    case Expiring
    obtain w' where w': "redis_expire E ?k ?L w = (Inr (), w')" "up (redis w')"
        "redis_upd val (\<lambda>t f. f(?k := if t < clock w + seconds ?L then seen w ?k else None)) w w'"
      using failure_commands(2) [OF up L] by blast
    note eff = expire_effects [OF w'(3) ctr]
    have same: "begun (ps[j := reached E 1]) = begun ps"
      using j Expiring by (simp add: length_filter_update reached_def)
    have "failing E val i ip stop c0 (ps[j := reached E 1]) w'"
    proof (cases "held val (lockout_key i ip) stop w")
      case False
      then have old: "window val ?k stop (c0 + begun ps) w" "Clearing \<notin> set ps"
          "MAX_FAILED_LOGINS (cfg E) \<le> c0 + begun ps \<Longrightarrow>
             Locking \<in> set ps \<or> Expiring \<in> set ps \<and> MAX_FAILED_LOGINS (cfg E) \<le> 1"
        using inv by (auto simp: failing_def)
      have "Clearing \<notin> set (ps[j := reached E 1])"
        using old(2) by (auto simp: reached_def dest!: only_updated split: if_splits)
      moreover have "Locking \<in> set (ps[j := reached E 1])" if "MAX_FAILED_LOGINS (cfg E) \<le> c0 + begun ps"
      proof (cases "MAX_FAILED_LOGINS (cfg E) \<le> 1")
        case True
        then show ?thesis using set_update_memI [OF j, of Locking] by (simp add: reached_def)
      next
        case False
        then show ?thesis using old(3) [OF that] Expiring by (auto intro: kept_elsewhere)
      qed
      ultimately show ?thesis using eff(1) eff(3) [OF now old(1)] by (simp add: failing_def same)
    qed (use eff in \<open>simp add: failing_def\<close>)
    then show ?thesis
      using w'(2) redis_upd_fields(1) [OF w'(3)] step_failure(2) [OF w'(1)]
      by (intro result [of "reached E 1" w']) (simp_all add: Expiring del: phase_thread.simps)
  next
    case Locking
    obtain w' where w': "redis_set E (lockout_key i ip) ''1'' ?L w = (Inr (), w')" "up (redis w')"
        "redis_upd val (\<lambda>t f. f(lockout_key i ip := if t < clock w + seconds ?L then Some (Text ''1'') else None)) w w'"
      using failure_commands(3) [OF up L] by blast
    from lock_effects [OF w'(3) ctr now(2)] have "failing E val i ip stop c0 (ps[j := Clearing]) w'"
      by (simp add: failing_def)
    then show ?thesis
      using w'(2) redis_upd_fields(1) [OF w'(3)] step_failure(3) [OF w'(1)]
      by (intro result [of "Clearing" w']) (simp_all add: Locking del: phase_thread.simps)
  next
    case Clearing
    then have held: "held val (lockout_key i ip) stop w" using inv j by (auto simp: failing_def in_set_conv_nth)
    obtain w' where w': "redis_delete E ?k w = (Inr (), w')" "redis_upd val (\<lambda>t f. f(?k := None)) w w'" "up (redis w')"
      using failure_commands(4) [OF up] by blast
    from clear_effects [OF w'(2) ctr] held have "failing E val i ip stop c0 (ps[j := Recorded]) w'"
      by (simp add: failing_def)
    then show ?thesis
      using w'(3) redis_upd_fields(1) [OF w'(2)] step_failure(4) [OF w'(1)]
      by (intro result [of "Recorded" w']) (simp_all add: Clearing del: phase_thread.simps)
  next
    case Recorded
    then have "ps[j := Recorded] = ps" by (metis list_update_id)
    with inv up Recorded show ?thesis by (intro result [of Recorded w]) simp_all
  qed
qed

end

section \<open>No lock is lost\<close>

context redis_env
begin

lemma failing_interleave:
  assumes "failing E val i ip stop c0 ps w" and "up (redis w)" and "sane (cfg E)"
    and "clock w + waited es < stop" and "stop \<le> clock w + seconds (LOCKOUT_SECONDS (cfg E))"
    and "\<forall>d. Wait d \<in> set es \<longrightarrow> 0 \<le> d"
    and "interleave es (map (phase_thread E i ip) ps) w = (ts, w')"
  shows "\<exists>ps'. ts = map (phase_thread E i ip) ps' \<and> length ps' = length ps \<and>
    failing E val i ip stop c0 ps' w' \<and> up (redis w') \<and> clock w' = clock w + waited es \<and>
    (\<forall>j < length ps. commands_left (ps' ! j) \<le> commands_left (ps ! j) - count_list es (Run j))"
  using assms
proof (induction es "map (phase_thread E i ip) ps" w arbitrary: ps rule: interleave.induct)
  case (1 w)
  then show ?case by auto
next
  case (2 j es w)
  have now: "clock w < stop" using waited_nonneg [of es] "2.prems"(4,6) by simp
  show ?case
  proof (cases "j < length ps")
    case True
    obtain p v where step: "step_thread (phase_thread E i ip (ps ! j)) w = (phase_thread E i ip p, v)"
      and next': "failing E val i ip stop c0 (ps[j := p]) v" "up (redis v)" "clock v = clock w"
      and left: "commands_left p \<le> commands_left (ps ! j) - 1"
      using failing_step [OF "2.prems"(1) True "2.prems"(2,3) now "2.prems"(5)] by blast
    then obtain ps' where ps': "ts = map (phase_thread E i ip) ps'" "length ps' = length ps"
        "failing E val i ip stop c0 ps' w'" "up (redis w')" "clock w' = clock w + waited es"
      and less: "\<forall>k < length ps. commands_left (ps' ! k) \<le> commands_left (ps[j := p] ! k) - count_list es (Run k)"
      using "2.hyps"(1) [of "phase_thread E i ip p" v "ps[j := p]"] "2.prems" True
      by (auto simp: map_update)
    have "commands_left (ps' ! k) \<le> commands_left (ps ! k) - count_list (Run j # es) (Run k)" if "k < length ps" for k
      using less [rule_format, OF that] left that by (cases "k = j") auto
    with ps' show ?thesis by (intro exI [of _ ps'] conjI allI impI) simp_all
  qed (use 2 in auto)
next
  case (3 d es w)
  have d: "0 \<le> d" using "3.prems"(6) by simp
  have "failing E val i ip stop c0 ps (tick d w)"
    using "3.prems"(1) d by (auto simp: failing_def counter_def held_def window_def tick_def)
  then show ?case using "3.hyps" [of ps] "3.prems" d by (auto simp: tick_def add.assoc)
qed

end

text \<open>
  C15. Concurrent failures lock: however many failed log-ins of an account are recorded at the same time, and in
  whatever order their commands reach Redis before the counter expires, four turns each bring them to
  their end, and if with the earlier failures they are \<open>MAX_FAILED_LOGINS\<close> or more, the account is then locked:
  no increment is lost and no counter deleted before the lock is set. (A thread that runs alone is
  \<open>record_failure\<close>.)
\<close>

theorem concurrent_failures_lock:
  assumes "redis_env E val up" and "up (redis w)" and "sane (cfg E)" and "0 \<le> c" and "c < MAX_FAILED_LOGINS (cfg E)"
    and "\<forall>t \<ge> clock w. val (redis w) t (failcount_key i ip) =
      (if c = 0 \<or> stop \<le> t then None else Some (Count c))" and "stop \<le> clock w + seconds (LOCKOUT_SECONDS (cfg E))"
    and "MAX_FAILED_LOGINS (cfg E) \<le> c + int n" and "\<forall>j < n. 4 \<le> count_list es (Run j)"
    and "\<forall>d. Wait d \<in> set es \<longrightarrow> 0 \<le> d" and "clock w + waited es < stop"
    and "interleave es (replicate n (record_failure_thread E i ip)) w = (ts, w')"
  shows "ts = replicate n (Fin (Inr ())) \<and> fst (ensure_not_locked E i ip w') = Inl (err0 AccountLocked) \<and>
    complete (record_failure_thread E i ip) = record_failure E i ip"
proof -
  let ?ps = "replicate n Counting"
  have "failing E val i ip stop c ?ps w"
    using assms(4-6) by (auto simp: failing_def counter_def window_def)
  moreover have "interleave es (map (phase_thread E i ip) ?ps) w = (ts, w')" using assms(12) by simp
  ultimately obtain ps where ps: "ts = map (phase_thread E i ip) ps" "length ps = n"
      and inv: "failing E val i ip stop c ps w'" "up (redis w')" "clock w' = clock w + waited es"
      and left: "\<forall>j < n. commands_left (ps ! j) \<le> 4 - count_list es (Run j)"
    using redis_env.failing_interleave [OF assms(1) _ assms(2,3), of i ip stop c ?ps es ts w'] assms(7,10,11) by auto
  have "ps ! j = Recorded" if "j < n" for j
    using left assms(9) that by (cases "ps ! j") (auto dest!: spec [of _ j])
  then have recorded: "ps = replicate n Recorded" using ps(2) by (simp add: list_eq_iff_nth_eq)
  have "held val (lockout_key i ip) stop w'"
    using inv(1) assms(8) by (auto simp: failing_def recorded)
  then have "val (redis w') (clock w') (lockout_key i ip) \<noteq> None"
    using inv(3) assms(11) by (simp add: held_def)
  with inv(2) have "runs (ensure_not_locked E i ip) w' (\<lambda>_ _. False) (\<lambda>e _. e = err0 AccountLocked)"
    by (intro redis_env.runs_ensure_not_locked [OF assms(1)]) auto
  then show ?thesis
    by (auto simp: runs_def complete_record_failure_thread ps(1) recorded split: prod.splits sum.splits)
qed

theorem concurrent_failures_lock_witness:
  "\<exists>ts w'. interleave (concat (replicate 4 [Run 4, Run 0, Wait (seconds 10), Run 2, Run 3, Run 1]))
      (replicate 5 (record_failure_thread sample_env ''ann'' None)) sample_world = (ts, w') \<and>
    ts = replicate 5 (Fin (Inr ())) \<and> fst (ensure_not_locked sample_env ''ann'' None w') = Inl (err0 AccountLocked)"
proof -
  let ?es = "concat (replicate 4 [Run 4, Run 0, Wait (seconds 10), Run 2, Run 3, Run 1])"
  obtain ts w' where run: "interleave ?es (replicate 5 (record_failure_thread sample_env ''ann'' None)) sample_world = (ts, w')"
    by fastforce
  have turns: "\<forall>j < (5 :: nat). 4 \<le> count_list ?es (Run j)"
    by (simp add: numeral_eq_Suc less_Suc_eq)
  from concurrent_failures_lock [OF sample.redis_env_axioms _ _ _ _ _ _ _ turns _ _ run, where c = 0 and stop = "days 20000 + seconds 900"] show ?thesis
    using run by (auto simp: numeral_eq_Suc seconds_def)
qed

section \<open>The lock check is no barrier\<close>

context redis_env
begin

lemma query_commands:
  assumes "up (redis v)"
  shows "\<exists>v'. redis_exists E k v = (Inr (seen v k \<noteq> None), v') \<and> redis_upd val (\<lambda>t f. f) v v' \<and> up (redis v')"
    "seen v k = Some (Text x) \<Longrightarrow> \<exists>v'. redis_get E k v = (Inr (Some x), v') \<and> redis_upd val (\<lambda>t f. f) v v' \<and> up (redis v')"
    "seen v (lockout_key i ip) = None \<Longrightarrow>
       \<exists>v'. ensure_not_locked E i ip v = (Inr (), v') \<and> redis_upd val (\<lambda>t f. f) v v' \<and> up (redis v')"
proof -
  have "runs (redis_exists E k) v (\<lambda>b v'. b = (seen v k \<noteq> None) \<and> redis_upd val (\<lambda>t f. f) v v' \<and> up (redis v')) (\<lambda>_ _. False)"
    by (intro runs_redis_exists) (use assms in auto)
  then show "\<exists>v'. redis_exists E k v = (Inr (seen v k \<noteq> None), v') \<and> redis_upd val (\<lambda>t f. f) v v' \<and> up (redis v')"
    by (auto dest!: runs_returnsD)
next
  assume "seen v k = Some (Text x)"
  then have "runs (redis_get E k) v (\<lambda>r v'. r = Some x \<and> redis_upd val (\<lambda>t f. f) v v' \<and> up (redis v')) (\<lambda>_ _. False)"
    by (intro runs_redis_get) (use assms in auto)
  then show "\<exists>v'. redis_get E k v = (Inr (Some x), v') \<and> redis_upd val (\<lambda>t f. f) v v' \<and> up (redis v')"
    by (auto dest!: runs_returnsD)
next
  assume "seen v (lockout_key i ip) = None"
  then have "runs (ensure_not_locked E i ip) v (\<lambda>_ v'. redis_upd val (\<lambda>t f. f) v v' \<and> up (redis v')) (\<lambda>_ _. False)"
    by (intro runs_ensure_not_locked) (use assms in auto)
  then show "\<exists>v'. ensure_not_locked E i ip v = (Inr (), v') \<and> redis_upd val (\<lambda>t f. f) v v' \<and> up (redis v')"
    by (auto dest!: runs_returnsD)
qed

lemma pass_lock_check:
  assumes "up (redis w)" and "seen w (lockout_key i ip) = None"
  shows "\<exists>w'. interleave (map Run [k..<k + m])
      (replicate k t @ replicate m (tbnd (atom (ensure_not_locked E i ip)) (\<lambda>_. t))) w = (replicate (k + m) t, w')"
  using assms
proof (induction m arbitrary: k w)
  case (Suc m)
  let ?T = "tbnd (atom (ensure_not_locked E i ip)) (\<lambda>_. t)"
  obtain v where v: "ensure_not_locked E i ip w = (Inr (), v)" "redis_upd val (\<lambda>t f. f) w v" "up (redis v)"
    using query_commands(3) [OF Suc.prems] by blast
  have step: "step_thread ?T w = (t, v)" by (rule step_tbnd_atom) (rule v(1))
  have "seen v (lockout_key i ip) = None"
    using Suc.prems(2) redis_upd_fields(1) [OF v(2)] redis_upd_vals [OF v(2)] by simp
  from Suc.IH [OF v(3) this, of "Suc k"] obtain w' where
    w': "interleave (map Run [Suc k..<Suc k + m]) (replicate (Suc k) t @ replicate m ?T) v = (replicate (Suc k + m) t, w')"
    by blast
  have "(replicate k t @ ?T # replicate m ?T)[k := t] = replicate (Suc k) t @ replicate m ?T"
    by (simp add: list_update_append replicate_app_Cons_same)
  moreover have "[k..<k + Suc m] = k # [Suc k..<Suc k + m]" by (simp add: upt_conv_Cons)
  ultimately show ?case using w' step by (simp add: nth_append)
qed simp

end

text \<open>
  The lockout does not bound what is tried in parallel: any number of log-ins that reach the lock check
  before the first failure is recorded pass it, and go on to compare their passwords.
\<close>

theorem lock_check_outrun:
  assumes "redis_env E val up" and "up (redis w)" and "val (redis w) (clock w) (lockout_key i ip) = None"
  shows "\<exists>w'. interleave (map Run [0..<n]) (replicate n (tbnd (atom (ensure_not_locked E i ip)) (\<lambda>_. rest))) w =
    (replicate n rest, w')"
  using redis_env.pass_lock_check [OF assms, of 0 n rest] by simp

end
