(* ===== verification/Once_Only.thy ===== *)
theory Once_Only
  imports Concurrent_Failures OAuth_Service
begin

text \<open>
  Secrets that are good for one use, presented twice at the same time: a one-time password and the
  state of an OAuth authorization. Both are looked up by one Redis command and used up by a
  later one, so two requests may pass between.
\<close>

lemma step_tbnd:
  "step_thread (tbnd (atom m) f) v = (case m v of (Inl e, v') \<Rightarrow> (Fin (Inl e), v') | (Inr x, v') \<Rightarrow> (f x, v'))"
  by (simp add: atom_def split: prod.splits sum.splits)

lemma complete_step: "step_thread t v = (t', v') \<Longrightarrow> complete t v = complete t' v'"
  by (cases t) (auto split: prod.splits)

section \<open>One-time passwords\<close>

text \<open>
  \<open>verify_totp\<close>, cut before its Redis commands: the check of the lock, the secret, the memory of used
  codes, the code itself with the entry into the memory, and the clean-up.
\<close>

definition use_code :: "'r env \<Rightarrow> user_row \<Rightarrow> string \<Rightarrow> string \<Rightarrow> ('r world, unit) thread" where
  "use_code E user otp secret =
     tbnd (atom (bnd now (\<lambda>t.
       if \<not> otp_valid E t secret otp then
         bnd (record_failure E (lock_id user) None) (\<lambda>_.
         raise (err AuthError ''Invalid verification code.''))
       else redis_set E (otp_used_key (u_id user) otp) ''1'' (replay_ttl (cfg E))))) (\<lambda>_.
     atom (clear_failures E (lock_id user) None))"

definition look_up_code :: "'r env \<Rightarrow> user_row \<Rightarrow> string \<Rightarrow> string \<Rightarrow> ('r world, unit) thread" where
  "look_up_code E user otp secret =
     tbnd (atom (redis_exists E (otp_used_key (u_id user) otp))) (\<lambda>used.
     if used then
       tbnd (atom (record_failure E (lock_id user) None)) (\<lambda>_.
       Fin (Inl (err AuthError ''This code has already been used.'')))
     else use_code E user otp secret)"

definition open_record :: "'r env \<Rightarrow> user_row \<Rightarrow> string \<Rightarrow> ('r world, unit) thread" where
  "open_record E user otp =
     tbnd (atom (bnd (enabled_record user) (\<lambda>record. decrypt E (tf_encrypted_secret record))))
       (look_up_code E user otp)"

definition verify_totp_thread :: "'r env \<Rightarrow> user_row \<Rightarrow> string \<Rightarrow> ('r world, unit) thread" where
  "verify_totp_thread E user otp =
     tbnd (atom (ensure_not_locked E (lock_id user) None)) (\<lambda>_. open_record E user otp)"

lemma complete_verify_totp_thread: "complete (verify_totp_thread E user otp) = verify_totp E user otp"
proof
  fix w
  have ret: "complete (Fin r) = lift_sum r" for r :: "exn + 'x"
    by (cases r) (simp_all add: fun_eq_iff)
  show "complete (verify_totp_thread E user otp) w = verify_totp E user otp w"
    unfolding verify_totp_thread_def open_record_def look_up_code_def use_code_def verify_totp_def Let_def
    by (simp add: bnd_def ret if_distrib [of complete] del: complete.simps split: prod.splits sum.splits)
qed

context redis_env
begin

lemma clear_failures_run:
  assumes "up (redis v)"
  shows "\<exists>v'. clear_failures E i ip v = (Inr (), v') \<and> but_redis v v' \<and> up (redis v') \<and>
    redis_upd val (\<lambda>t f. f(failcount_key i ip := None, lockout_key i ip := None)) v v'"
proof -
  obtain v1 where v1: "redis_delete E (failcount_key i ip) v = (Inr (), v1)" "up (redis v1)"
      "redis_upd val (\<lambda>t f. f(failcount_key i ip := None)) v v1"
    using failure_commands(4) [OF assms] by blast
  obtain v2 where v2: "redis_delete E (lockout_key i ip) v1 = (Inr (), v2)" "up (redis v2)"
      "redis_upd val (\<lambda>t f. f(lockout_key i ip := None)) v1 v2"
    using failure_commands(4) [OF v1(2)] by blast
  from redis_upd_trans [OF v1(3) v2(3)] v1 v2 show ?thesis
    by (auto simp: clear_failures_def try_except_def bnd_def but_redis_upd)
qed

end

text \<open>A code that is neither locked nor used, and the steps of a thread with it.\<close>

definition code_fresh ::
    "('r \<Rightarrow> time \<Rightarrow> string \<Rightarrow> rval option) \<Rightarrow> ('r \<Rightarrow> bool) \<Rightarrow> user_row \<Rightarrow> string \<Rightarrow> 'r world \<Rightarrow> bool" where
  "code_fresh val up user otp v \<longleftrightarrow> up (redis v) \<and> val (redis v) (clock v) (lockout_key (lock_id user) None) = None \<and>
     val (redis v) (clock v) (otp_used_key (u_id user) otp) = None"

lemma code_fresh_upd:
  "code_fresh val up user otp v \<Longrightarrow> redis_upd val (\<lambda>t f. f) v v' \<Longrightarrow> up (redis v') \<Longrightarrow>
     code_fresh val up user otp v' \<and> but_redis v v'"
  by (simp add: code_fresh_def redis_upd_fields redis_upd_vals but_redis_upd)

context redis_env
begin

lemma code_steps:
  assumes "code_fresh val up user otp v" and "unique_keys (db v)" and "two_factor_of (db v) user = Some r" and "tf_enabled r"
    and "decrypted E (tf_encrypted_secret r) = Inr secret"
  shows "\<exists>v'. step_thread (verify_totp_thread E user otp) v = (open_record E user otp, v') \<and>
      code_fresh val up user otp v' \<and> but_redis v v'"
    "step_thread (open_record E user otp) v = (look_up_code E user otp secret, v)"
    "\<exists>v'. step_thread (look_up_code E user otp secret) v = (use_code E user otp secret, v') \<and>
      code_fresh val up user otp v' \<and> but_redis v v'"
proof -
  have up: "up (redis v)" using assms(1) by (simp add: code_fresh_def)
  obtain v1 where v1: "ensure_not_locked E (lock_id user) None v = (Inr (), v1)" "redis_upd val (\<lambda>t f. f) v v1" "up (redis v1)"
    using query_commands(3) [OF up] assms(1) by (auto simp: code_fresh_def)
  then show "\<exists>v'. step_thread (verify_totp_thread E user otp) v = (open_record E user otp, v') \<and>
      code_fresh val up user otp v' \<and> but_redis v v'"
    using code_fresh_upd [OF assms(1)] by (simp add: verify_totp_thread_def step_tbnd)
  have "bnd (enabled_record user) (\<lambda>record. decrypt E (tf_encrypted_secret record)) v = (Inr secret, v)"
    using assms(3-5) two_factor_of_unique [OF assms(2)] by (simp add: enabled_record_def bnd_def decrypt_lift)
  then show "step_thread (open_record E user otp) v = (look_up_code E user otp secret, v)"
    by (simp add: open_record_def step_tbnd)
  obtain v2 where v2: "redis_exists E (otp_used_key (u_id user) otp) v = (Inr False, v2)" "redis_upd val (\<lambda>t f. f) v v2" "up (redis v2)"
    using query_commands(1) [OF up, of "otp_used_key (u_id user) otp"] assms(1) by (auto simp: code_fresh_def)
  then show "\<exists>v'. step_thread (look_up_code E user otp secret) v = (use_code E user otp secret, v') \<and>
      code_fresh val up user otp v' \<and> but_redis v v'"
    using code_fresh_upd [OF assms(1)] by (simp add: look_up_code_def step_tbnd)
qed

lemma use_code_step:
  assumes "up (redis v)" and "otp_valid E (clock v) secret otp" and "sane (cfg E)"
  shows "\<exists>v'. step_thread (use_code E user otp secret) v = (atom (clear_failures E (lock_id user) None), v') \<and> up (redis v') \<and>
    but_redis v v' \<and> redis_upd val (\<lambda>t f. f(otp_used_key (u_id user) otp :=
      if t < clock v + seconds (replay_ttl (cfg E)) then Some (Text ''1'') else None)) v v'"
proof -
  obtain v' where v': "redis_set E (otp_used_key (u_id user) otp) ''1'' (replay_ttl (cfg E)) v = (Inr (), v')" "up (redis v')"
      "redis_upd val (\<lambda>t f. f(otp_used_key (u_id user) otp :=
        if t < clock v + seconds (replay_ttl (cfg E)) then Some (Text ''1'') else None)) v v'"
    using failure_commands(3) [OF assms(1) replay_ttl_pos [OF assms(3)]] by blast
  have "bnd now (\<lambda>t. if \<not> otp_valid E t secret otp then bnd (record_failure E (lock_id user) None) (\<lambda>_.
         raise (err AuthError ''Invalid verification code.''))
       else redis_set E (otp_used_key (u_id user) otp) ''1'' (replay_ttl (cfg E))) v = (Inr (), v')"
    using assms(2) v'(1) by (simp add: bnd_def now_def)
  with v' show ?thesis by (simp add: use_code_def step_tbnd but_redis_upd)
qed

end

text \<open>
  C17. Two requests with the same one-time password at the same time are both accepted, though after either alone
  the other is refused as a replay: the memory of the used code is looked at by one command and
  written by a later one. (A thread that runs alone is \<open>verify_totp\<close>.)
\<close>

theorem code_accepted_twice:
  assumes "redis_env E val up" and "up (redis w)" and "unique_keys (db w)" and "sane (cfg E)"
    and "verify_totp E user otp w = (Inr (), w1)"
  shows "fst (verify_totp E user otp w1) = Inl (err AuthError ''This code has already been used.'') \<and>
    complete (verify_totp_thread E user otp) = verify_totp E user otp \<and>
    (\<exists>w'. interleave (concat (replicate 5 [Run 0, Run 1])) [verify_totp_thread E user otp, verify_totp_thread E user otp] w =
       ([Fin (Inr ()), Fin (Inr ())], w'))"
proof -
  let ?T = "verify_totp_thread E user otp" and ?A = "open_record E user otp" and ?k = "otp_used_key (u_id user) otp"
    and ?C = "atom (clear_failures E (lock_id user) None)"
  note success = runs_InrD [OF redis_env.runs_verify_totp [OF assms(1-4), of user otp] assms(5)]
  then obtain r secret where r: "two_factor_of (db w) user = Some r" "tf_enabled r" "decrypted E (tf_encrypted_secret r) = Inr secret"
    and valid: "otp_valid E (clock w) secret otp" and fresh: "code_fresh val up user otp w"
    using assms(2) by (auto simp: totp_verdict_Inr code_fresh_def)
  let ?L = "look_up_code E user otp secret" and ?U = "use_code E user otp secret"
  have same: "db v = db w" "clock v = clock w" if "but_redis w v" for v
    using but_redis_fields [OF that] by auto
  note steps = redis_env.code_steps [OF assms(1) _ _ _ r(2,3)]
  have unique: "unique_keys (db v)" "two_factor_of (db v) user = Some r" if "but_redis w v" for v
    using assms(3) r(1) by (simp_all only: same(1) [OF that])
  have ensure: "\<exists>v'. step_thread ?T v = (?A, v') \<and> code_fresh val up user otp v' \<and> but_redis w v'"
    and look: "\<exists>v'. step_thread ?L v = (?U, v') \<and> code_fresh val up user otp v' \<and> but_redis w v'"
    and open': "step_thread ?A v = (?L, v)"
    if "code_fresh val up user otp v" "but_redis w v" for v
  proof -
    note s = steps [OF that(1) unique [OF that(2)]]
    show "\<exists>v'. step_thread ?T v = (?A, v') \<and> code_fresh val up user otp v' \<and> but_redis w v'"
      using s(1) but_redis_trans [OF that(2)] by auto
    show "\<exists>v'. step_thread ?L v = (?U, v') \<and> code_fresh val up user otp v' \<and> but_redis w v'"
      using s(3) but_redis_trans [OF that(2)] by auto
    show "step_thread ?A v = (?L, v)" by (rule s(2))
  qed
  have use: "\<exists>v'. step_thread ?U v = (?C, v') \<and> up (redis v') \<and> but_redis w v'" if "up (redis v)" "but_redis w v" for v
    using redis_env.use_code_step [OF assms(1) that(1) _ assms(4), of secret otp user] valid
      but_redis_trans [OF that(2)] by (auto simp: same(2) [OF that(2)])
  have clear: "\<exists>v'. step_thread ?C v = (Fin (Inr ()), v')" for v
    using clear_failures_total [of E "lock_id user" None v] by (auto simp: step_atom)
  have here: "but_redis w w" by (auto simp: but_redis_def intro: exI [of _ "redis w"])
  obtain v1 where v1: "step_thread ?T w = (?A, v1)" "code_fresh val up user otp v1" "but_redis w v1"
    using ensure [OF fresh here] by blast
  obtain v2 where v2: "step_thread ?T v1 = (?A, v2)" "code_fresh val up user otp v2" "but_redis w v2"
    using ensure [OF v1(2,3)] by blast
  obtain v3 where v3: "step_thread ?L v2 = (?U, v3)" "code_fresh val up user otp v3" "but_redis w v3"
    using look [OF v2(2,3)] by blast
  obtain v4 where v4: "step_thread ?L v3 = (?U, v4)" "code_fresh val up user otp v4" "but_redis w v4"
    using look [OF v3(2,3)] by blast
  obtain v5 where v5: "step_thread ?U v4 = (?C, v5)" "up (redis v5)" "but_redis w v5"
    using use [OF _ v4(3)] v4(2) by (auto simp: code_fresh_def)
  obtain v6 where v6: "step_thread ?U v5 = (?C, v6)" using use [OF v5(2,3)] by blast
  obtain v7 v8 where v8: "step_thread ?C v6 = (Fin (Inr ()), v7)" "step_thread ?C v7 = (Fin (Inr ()), v8)"
    using clear by metis
  note run = v1(1) v2(1) open' [OF v2(2,3)] v3(1) v4(1) v5(1) v6 v8
  have both: "interleave (concat (replicate 5 [Run 0, Run 1])) [?T, ?T] w = ([Fin (Inr ()), Fin (Inr ())], v8)"
    by (simp add: run numeral_eq_Suc)
  obtain a2 where a2: "step_thread ?L v1 = (?U, a2)" "code_fresh val up user otp a2" "but_redis w a2"
    using look [OF v1(2,3)] by blast
  obtain a3 where a3: "step_thread ?U a2 = (?C, a3)" "up (redis a3)" "but_redis w a3"
    using use [OF _ a2(3)] a2(2) by (auto simp: code_fresh_def)
  have "verify_totp E user otp w = clear_failures E (lock_id user) None a3"
    using complete_step [OF v1(1)] complete_step [OF open' [OF v1(2,3)]] complete_step [OF a2(1)] complete_step [OF a3(1)]
    by (simp add: complete_verify_totp_thread)
  with redis_env.clear_failures_run [OF assms(1) a3(2), of "lock_id user" None] assms(5)
  have w1: "but_redis w w1" "up (redis w1)" "val (redis w1) (clock w1) (lockout_key (lock_id user) None) = None"
    using but_redis_trans [OF a3(3)] by (auto simp: redis_upd_fields redis_upd_vals)
  have "val (redis w1) (clock w1) ?k \<noteq> None"
    using success replay_ttl_pos [OF assms(4)] by (auto simp: same(2) [OF w1(1)] seconds_def)
  with w1(3) r unique [OF w1(1)]
  have "totp_verdict E (val (redis w1) (clock w1) (lockout_key (lock_id user) None) \<noteq> None) (val (redis w1) (clock w1) ?k \<noteq> None)
      (two_factor_of (db w1) user) (clock w1) otp = Inl (err AuthError ''This code has already been used.'')"
    by (simp add: totp_verdict_def)
  then have "fst (verify_totp E user otp w1) = Inl (err AuthError ''This code has already been used.'')"
    using totp_outcome [OF assms(1) w1(2) unique(1) [OF w1(1)] assms(4), of user otp] by simp
  with both show ?thesis by (simp add: complete_verify_totp_thread)
qed

theorem code_accepted_twice_witness:
  "\<exists>w'. interleave (concat (replicate 5 [Run 0, Run 1]))
      [verify_totp_thread sample_env sample_user ''600000'', verify_totp_thread sample_env sample_user ''600000''] sample_2fa =
     ([Fin (Inr ()), Fin (Inr ())], w')"
proof -
  have "fst (verify_totp sample_env sample_user ''600000'' sample_2fa) = Inr ()"
    by (simp add: totp_outcome [OF sample.redis_env_axioms] totp_verdict_def)
  then obtain w1 where "verify_totp sample_env sample_user ''600000'' sample_2fa = (Inr (), w1)"
    by (cases "verify_totp sample_env sample_user ''600000'' sample_2fa") auto
  from code_accepted_twice [OF sample.redis_env_axioms _ _ _ this] show ?thesis by simp
qed

section \<open>The state of an authorization\<close>

text \<open>\<open>_pop_state\<close>: the lookup, and the deletion with what follows it.\<close>

definition take_state :: "'r env \<Rightarrow> string \<Rightarrow> string \<Rightarrow> string \<Rightarrow> ('r world, jval) prog" where
  "take_state E state provider_name raw =
     bnd (redis_delete E (oauth_state_key state)) (\<lambda>_.
     bnd (case json_loads E raw of None \<Rightarrow> raise ValueError | Some v \<Rightarrow> ret v) (\<lambda>payload.
     bnd (lift_sum (json_get payload ''provider'' JNull)) (\<lambda>p.
     if p \<noteq> JStr provider_name then raise (err AuthError ''OAuth state does not match provider.'')
     else ret payload)))"

definition pop_state_thread :: "'r env \<Rightarrow> string \<Rightarrow> string \<Rightarrow> ('r world, jval) thread" where
  "pop_state_thread E state provider_name =
     tbnd (atom (redis_get E (oauth_state_key state))) (\<lambda>raw.
     case raw of
       None \<Rightarrow> Fin (Inl (err AuthError ''Invalid or expired OAuth state.''))
     | Some txt \<Rightarrow> atom (take_state E state provider_name txt))"

lemma complete_pop_state_thread: "complete (pop_state_thread E st n) = pop_state E st n"
proof
  fix w
  show "complete (pop_state_thread E st n) w = pop_state E st n w"
    unfolding pop_state_thread_def pop_state_def take_state_def
    by (auto simp: bnd_def fun_eq_iff split: prod.splits sum.splits option.splits)
qed

lemma take_state_result:
  assumes "redis_env E val up" and "up (redis v)"
  shows "\<exists>v'. take_state E st n raw v = (pop_verdict E n (Some raw), v') \<and> up (redis v')"
proof -
  obtain v' where "redis_delete E (oauth_state_key st) v = (Inr (), v')" "up (redis v')"
    using redis_env.failure_commands(4) [OF assms] by blast
  then show ?thesis
    by (auto simp: take_state_def pop_verdict_def bnd_def split: option.splits sum.splits)
qed

text \<open>
  C1. Two callbacks with the same state at the same time both get what the start of the authorization stored,
  though after either alone the other is refused: the state is read by one command and deleted by a
  later one. (A thread that runs alone is \<open>pop_state\<close>.)
\<close>

theorem state_taken_twice:
  assumes "redis_env E val up" and "up (redis w)" and "val (redis w) (clock w) (oauth_state_key st) = Some (Text raw)"
    and "pop_state E st n w = (Inr payload, w1)"
  shows "fst (pop_state E st n w1) = Inl (err AuthError ''Invalid or expired OAuth state.'') \<and>
    complete (pop_state_thread E st n) = pop_state E st n \<and>
    (\<exists>w'. interleave [Run 0, Run 1, Run 0, Run 1] [pop_state_thread E st n, pop_state_thread E st n] w =
       ([Fin (Inr payload), Fin (Inr payload)], w'))"
proof -
  let ?T = "pop_state_thread E st n" and ?k = "oauth_state_key st" and ?A = "atom (take_state E st n raw)"
  have first: "pop_verdict E n (Some raw) = Inr payload \<and> up (redis w1) \<and> (\<forall>t \<ge> clock w1. val (redis w1) t ?k = None)"
    using runs_InrD [OF redis_env.runs_pop_state [OF assms(1,2), of st "Some raw" n] assms(4)] assms(3) by auto
  have look: "\<exists>v'. step_thread ?T v = (?A, v') \<and> redis_upd val (\<lambda>t f. f) v v' \<and> up (redis v')"
    if "up (redis v)" "val (redis v) (clock v) ?k = Some (Text raw)" for v
    using redis_env.query_commands(2) [OF assms(1) that] by (auto simp: pop_state_thread_def step_tbnd)
  have take: "\<exists>v'. step_thread ?A v = (Fin (Inr payload), v') \<and> up (redis v')" if "up (redis v)" for v
    using take_state_result [OF assms(1) that, of st n raw] first by (auto simp: step_atom)
  obtain v1 where v1: "step_thread ?T w = (?A, v1)" "redis_upd val (\<lambda>t f. f) w v1" "up (redis v1)"
    using look [OF assms(2,3)] by blast
  have "val (redis v1) (clock v1) ?k = Some (Text raw)"
    using assms(3) redis_upd_fields(1) [OF v1(2)] redis_upd_vals [OF v1(2)] by simp
  then obtain v2 where v2: "step_thread ?T v1 = (?A, v2)" "up (redis v2)" using look [OF v1(3)] by blast
  obtain v3 where v3: "step_thread ?A v2 = (Fin (Inr payload), v3)" "up (redis v3)" using take [OF v2(2)] by blast
  obtain v4 where v4: "step_thread ?A v3 = (Fin (Inr payload), v4)" using take [OF v3(2)] by blast
  have both: "interleave [Run 0, Run 1, Run 0, Run 1] [?T, ?T] w = ([Fin (Inr payload), Fin (Inr payload)], v4)"
    by (simp add: v1(1) v2(1) v3(1) v4)
  have "fst (pop_state E st n w1) = pop_verdict E n None"
    using redis_env.runs_pop_state [OF assms(1), of w1 st None n] first
    by (auto simp: runs_def split: prod.splits sum.splits)
  with both show ?thesis by (simp add: complete_pop_state_thread pop_verdict_def)
qed

end
