(* ===== verification/Catalogue.thy ===== *)
theory Catalogue
  imports Prelude
begin

text \<open>
  The tables the server declares and the migrations that create them: the columns of the classes of
  \<^verbatim>\<open>app/models\<close> and of the mixins of \<^verbatim>\<open>app/db/base.py\<close>, and the revisions under
  \<^verbatim>\<open>migrations/versions\<close> as lists of schema operations. What SQLAlchemy makes of a class and what
  an operation of Alembic does to the schema of a database follow their documentation.
\<close>

section \<open>Schemas\<close>

datatype col_type = TString nat | TGuid | TDateTime | TBoolean | TInteger

record column =
  co_name :: string
  co_type :: col_type
  co_nullable :: bool
  co_now :: bool    \<comment> \<open>a server default: the current time\<close>

record foreign_key =
  fk_column :: string
  fk_table :: string
  fk_target :: string
  fk_cascade :: bool

record index_def =
  ix_name :: string
  ix_columns :: "string list"
  ix_unique :: bool

text \<open>The order of the columns is the table's, constraints and indexes have none.\<close>

record table_def =
  td_columns :: "column list"
  td_primary :: "string list"
  td_foreign :: "foreign_key set"
  td_unique :: "(string \<times> string list) set"
  td_indexes :: "index_def set"

type_synonym catalogue = "(string \<times> table_def) list"

section \<open>Schema operations\<close>

datatype ddl =
  CreateTable string table_def
| CreateIndex index_def string
| DropIndex string string
| DropTable string

definition column_names :: "table_def \<Rightarrow> string set" where
  "column_names t = co_name ` set (td_columns t)"

definition typed :: "table_def \<Rightarrow> string \<Rightarrow> col_type \<Rightarrow> bool" where
  "typed t c ty \<longleftrightarrow> (\<exists>x \<in> set (td_columns t). co_name x = c \<and> co_type x = ty)"

text \<open>A foreign key refers to the primary key of a table of the catalogue, at the same type.\<close>

definition fk_ok :: "catalogue \<Rightarrow> table_def \<Rightarrow> foreign_key \<Rightarrow> bool" where
  "fk_ok c t fk \<longleftrightarrow> (\<exists>(n, t') \<in> set c. n = fk_table fk \<and> td_primary t' = [fk_target fk] \<and>
     (\<exists>x \<in> set (td_columns t). co_name x = fk_column fk \<and> typed t' (fk_target fk) (co_type x)))"

definition wf_table :: "table_def \<Rightarrow> bool" where
  "wf_table t \<longleftrightarrow> distinct (List.map co_name (td_columns t)) \<and> td_primary t \<noteq> [] \<and>
     (\<forall>p \<in> set (td_primary t). \<exists>x \<in> set (td_columns t). co_name x = p \<and> \<not> co_nullable x) \<and>
     (\<forall>u \<in> td_unique t. set (snd u) \<subseteq> column_names t) \<and>
     (\<forall>i \<in> td_indexes t. set (ix_columns i) \<subseteq> column_names t)"

definition index_names :: "catalogue \<Rightarrow> string set" where
  "index_names c = (\<Union>(n, t) \<in> set c. ix_name ` td_indexes t)"

text \<open>An operation, or \<open>None\<close> where the database refuses it.\<close>

fun run_ddl :: "ddl \<Rightarrow> catalogue \<Rightarrow> catalogue option" where
  "run_ddl (CreateTable n t) c =
     (if n \<notin> fst ` set c \<and> wf_table t \<and> td_indexes t = {} \<and> (\<forall>fk \<in> td_foreign t. fk_ok c t fk)
      then Some (c @ [(n, t)]) else None)"
| "run_ddl (CreateIndex i n) c =
     (case map_of c n of
        None \<Rightarrow> None
      | Some t \<Rightarrow>
          if ix_name i \<notin> index_names c \<and> set (ix_columns i) \<subseteq> column_names t
          then Some (List.map (\<lambda>(m, t). (m, if m = n then t\<lparr>td_indexes := insert i (td_indexes t)\<rparr> else t)) c)
          else None)"
| "run_ddl (DropIndex name n) c =
     (case map_of c n of
        None \<Rightarrow> None
      | Some t \<Rightarrow>
          if name \<in> ix_name ` td_indexes t
          then Some (List.map (\<lambda>(m, t). (m, if m = n
                 then t\<lparr>td_indexes := {i \<in> td_indexes t. ix_name i \<noteq> name}\<rparr> else t)) c)
          else None)"
| "run_ddl (DropTable n) c =
     (if n \<in> fst ` set c \<and> (\<forall>(m, t) \<in> set c. m \<noteq> n \<longrightarrow> (\<forall>fk \<in> td_foreign t. fk_table fk \<noteq> n))
      then Some (filter (\<lambda>(m, t). m \<noteq> n) c) else None)"

fun run_ddls :: "ddl list \<Rightarrow> catalogue \<Rightarrow> catalogue option" where
  "run_ddls [] c = Some c"
| "run_ddls (d # ds) c = (case run_ddl d c of None \<Rightarrow> None | Some c' \<Rightarrow> run_ddls ds c')"

lemma run_ddls_append: "run_ddls (ds @ es) c = Option.bind (run_ddls ds c) (run_ddls es)"
  by (induction ds arbitrary: c) (auto split: option.splits)

section \<open>What the models declare\<close>

text \<open>A mapped column: a name, a type and the options of \<open>mapped_column\<close>.\<close>

record model_column =
  mc_name :: string
  mc_type :: col_type
  mc_optional :: bool
  mc_unique :: bool
  mc_index :: bool
  mc_primary :: bool
  mc_references :: "(string \<times> string) option"
  mc_now :: bool

definition col :: "string \<Rightarrow> col_type \<Rightarrow> model_column" where
  "col n ty = \<lparr>mc_name = n, mc_type = ty, mc_optional = False, mc_unique = False, mc_index = False,
     mc_primary = False, mc_references = None, mc_now = False\<rparr>"

definition nullable :: "model_column \<Rightarrow> model_column" where
  "nullable m = m\<lparr>mc_optional := True\<rparr>"

definition indexed :: "model_column \<Rightarrow> model_column" where
  "indexed m = m\<lparr>mc_index := True\<rparr>"

definition unique_indexed :: "model_column \<Rightarrow> model_column" where
  "unique_indexed m = m\<lparr>mc_unique := True, mc_index := True\<rparr>"

definition primary :: "model_column \<Rightarrow> model_column" where
  "primary m = m\<lparr>mc_primary := True\<rparr>"

text \<open>\<open>ForeignKey("t.id", ondelete="CASCADE")\<close>.\<close>

definition references :: "string \<Rightarrow> model_column \<Rightarrow> model_column" where
  "references t m = m\<lparr>mc_references := Some (t, ''id'')\<rparr>"

definition uuid_mixin :: "model_column list" where
  "uuid_mixin = [primary (col ''id'' TGuid)]"

definition timestamp_mixin :: "model_column list" where
  "timestamp_mixin = [(col ''created_at'' TDateTime)\<lparr>mc_now := True\<rparr>, (col ''updated_at'' TDateTime)\<lparr>mc_now := True\<rparr>]"

text \<open>
  The table of a class: its own columns before those of the mixins; \<open>index=True\<close> makes the index
  \<open>ix_<table>_<column>\<close>, which is unique if the column is.
\<close>

definition declared :: "string \<Rightarrow> model_column list \<Rightarrow> (string \<times> string list) list \<Rightarrow> index_def list \<Rightarrow> string \<times> table_def" where
  "declared n ms uniques indexes = (n, \<lparr>
     td_columns = List.map (\<lambda>m. \<lparr>co_name = mc_name m, co_type = mc_type m, co_nullable = mc_optional m, co_now = mc_now m\<rparr>) ms,
     td_primary = List.map mc_name (filter mc_primary ms),
     td_foreign = set (concat (List.map (\<lambda>m. case mc_references m of None \<Rightarrow> []
        | Some (t, c) \<Rightarrow> [\<lparr>fk_column = mc_name m, fk_table = t, fk_target = c, fk_cascade = True\<rparr>]) ms)),
     td_unique = set uniques,
     td_indexes = set (List.map (\<lambda>m. \<lparr>ix_name = ''ix_'' @ n @ ''_'' @ mc_name m, ix_columns = [mc_name m],
        ix_unique = mc_unique m\<rparr>) (filter mc_index ms) @ indexes)\<rparr>)"

definition user_table :: "string \<times> table_def" where
  "user_table = declared ''users''
     ([unique_indexed (col ''email'' (TString 320)), col ''hashed_password'' (TString 255), col ''full_name'' (TString 255),
       col ''is_active'' TBoolean, col ''is_verified'' TBoolean, col ''is_superuser'' TBoolean]
      @ uuid_mixin @ timestamp_mixin) [] []"

definition role_table :: "string \<times> table_def" where
  "role_table = declared ''roles''
     ([unique_indexed (col ''name'' (TString 50)), col ''description'' (TString 255)] @ uuid_mixin @ timestamp_mixin) [] []"

definition permission_table :: "string \<times> table_def" where
  "permission_table = declared ''permissions''
     ([unique_indexed (col ''code'' (TString 100)), col ''description'' (TString 255)] @ uuid_mixin @ timestamp_mixin) [] []"

definition user_roles_table :: "string \<times> table_def" where
  "user_roles_table = declared ''user_roles''
     [primary (references ''users'' (col ''user_id'' TGuid)), primary (references ''roles'' (col ''role_id'' TGuid))] [] []"

definition role_permissions_table :: "string \<times> table_def" where
  "role_permissions_table = declared ''role_permissions''
     [primary (references ''roles'' (col ''role_id'' TGuid)),
      primary (references ''permissions'' (col ''permission_id'' TGuid))] [] []"

definition session_table :: "string \<times> table_def" where
  "session_table = declared ''sessions''
     ([indexed (references ''users'' (col ''user_id'' TGuid)), unique_indexed (col ''session_uuid'' TGuid),
       indexed (col ''refresh_token_id'' (TString 64)), col ''device_name'' (TString 128), col ''device_type'' (TString 32),
       col ''browser'' (TString 64), col ''browser_version'' (TString 32), col ''operating_system'' (TString 64),
       col ''operating_system_version'' (TString 32), col ''user_agent'' (TString 512), col ''ip_address'' (TString 45),
       nullable (col ''country'' (TString 64)), nullable (col ''city'' (TString 128)),
       col ''login_at'' TDateTime, col ''last_activity_at'' TDateTime, nullable (col ''logout_at'' TDateTime),
       col ''expires_at'' TDateTime, nullable (col ''logout_reason'' (TString 64)),
       col ''is_current'' TBoolean, indexed (col ''is_active'' TBoolean), col ''request_count'' TInteger]
      @ uuid_mixin @ timestamp_mixin) []
     [\<lparr>ix_name = ''ix_sessions_user_active_activity'', ix_columns = [''user_id'', ''is_active'', ''last_activity_at''], ix_unique = False\<rparr>]"

definition two_factor_table :: "string \<times> table_def" where
  "two_factor_table = declared ''two_factor_auth''
     ([unique_indexed (references ''users'' (col ''user_id'' TGuid)), col ''encrypted_secret'' (TString 512),
       col ''enabled'' TBoolean, nullable (col ''verified_at'' TDateTime)] @ uuid_mixin @ timestamp_mixin) [] []"

definition backup_code_table :: "string \<times> table_def" where
  "backup_code_table = declared ''backup_codes''
     ([indexed (references ''users'' (col ''user_id'' TGuid)), col ''hashed_code'' (TString 255),
       nullable (col ''used_at'' TDateTime), (col ''created_at'' TDateTime)\<lparr>mc_now := True\<rparr>] @ uuid_mixin) [] []"

definition email_token_table :: "string \<times> table_def" where
  "email_token_table = declared ''email_tokens''
     ([indexed (references ''users'' (col ''user_id'' TGuid)), unique_indexed (col ''token_hash'' (TString 64)),
       indexed (col ''purpose'' (TString 32)), nullable (col ''new_email'' (TString 320)),
       col ''expires_at'' TDateTime, nullable (col ''used_at'' TDateTime)] @ uuid_mixin @ timestamp_mixin) []
     [\<lparr>ix_name = ''ix_email_tokens_user_purpose'', ix_columns = [''user_id'', ''purpose''], ix_unique = False\<rparr>]"

definition oauth_account_table :: "string \<times> table_def" where
  "oauth_account_table = declared ''oauth_accounts''
     ([indexed (references ''users'' (col ''user_id'' TGuid)), indexed (col ''provider'' (TString 32)),
       col ''provider_account_id'' (TString 255), nullable (col ''email'' (TString 320))] @ uuid_mixin @ timestamp_mixin)
     [(''uq_provider_account'', [''provider'', ''provider_account_id''])] []"

text \<open>\<open>Base.metadata\<close>.\<close>

definition metadata :: catalogue where
  "metadata = [user_roles_table, role_permissions_table, email_token_table, oauth_account_table, permission_table,
     role_table, session_table, backup_code_table, two_factor_table, user_table]"

lemmas model_tables =
  user_table_def role_table_def permission_table_def user_roles_table_def role_permissions_table_def session_table_def
  two_factor_table_def backup_code_table_def email_token_table_def oauth_account_table_def

lemmas column_options =
  col_def nullable_def indexed_def unique_indexed_def primary_def references_def uuid_mixin_def timestamp_mixin_def

section \<open>Schema operations keep a catalogue well formed\<close>

definition wf_catalogue :: "catalogue \<Rightarrow> bool" where
  "wf_catalogue c \<longleftrightarrow> distinct (List.map fst c) \<and>
     (\<forall>(n, t) \<in> set c. wf_table t \<and> (\<forall>fk \<in> td_foreign t. fk_ok c t fk)) \<and>
     (\<forall>(n, t) \<in> set c. \<forall>(m, u) \<in> set c. \<forall>i \<in> td_indexes t. \<forall>j \<in> td_indexes u.
        ix_name i = ix_name j \<longrightarrow> n = m \<and> i = j)"

text \<open>What a foreign key looks at: the columns of its table, the columns and the key of the other.\<close>

lemma fk_ok_mono:
  assumes "fk_ok c t fk" and "td_columns t' = td_columns t"
    and "\<And>n u. (n, u) \<in> set c \<Longrightarrow> n = fk_table fk \<Longrightarrow>
      \<exists>u'. (n, u') \<in> set c' \<and> td_columns u' = td_columns u \<and> td_primary u' = td_primary u"
  shows "fk_ok c' t' fk"
proof -
  obtain u x where u: "(fk_table fk, u) \<in> set c" "td_primary u = [fk_target fk]"
      "x \<in> set (td_columns t)" "co_name x = fk_column fk" "typed u (fk_target fk) (co_type x)"
    using assms(1) by (auto simp: fk_ok_def)
  with assms(3) obtain u' where "(fk_table fk, u') \<in> set c'" "td_columns u' = td_columns u" "td_primary u' = td_primary u"
    by blast
  moreover from this have "typed u' (fk_target fk) (co_type x)" using u(5) by (simp add: typed_def)
  ultimately show ?thesis
    unfolding fk_ok_def using u assms(2) by (intro bexI [of _ "(fk_table fk, u')"]) auto
qed

lemma wf_catalogueD:
  assumes "wf_catalogue c"
  shows "distinct (List.map fst c)" "(n, t) \<in> set c \<Longrightarrow> wf_table t"
    "(n, t) \<in> set c \<Longrightarrow> fk \<in> td_foreign t \<Longrightarrow> fk_ok c t fk"
    "(n, t) \<in> set c \<Longrightarrow> (m, u) \<in> set c \<Longrightarrow> i \<in> td_indexes t \<Longrightarrow> j \<in> td_indexes u \<Longrightarrow> ix_name i = ix_name j \<Longrightarrow>
      n = m \<and> i = j"
  using assms unfolding wf_catalogue_def by blast+

lemma index_namesI: "(m, u) \<in> set c \<Longrightarrow> j \<in> td_indexes u \<Longrightarrow> ix_name j \<in> index_names c"
  unfolding index_names_def by (rule UN_I [of "(m, u)"]) simp_all

text \<open>Changing the indexes of one table.\<close>

definition with_indexes :: "string \<Rightarrow> (index_def set \<Rightarrow> index_def set) \<Rightarrow> catalogue \<Rightarrow> catalogue" where
  "with_indexes n f c = List.map (\<lambda>(m, t). (m, if m = n then t\<lparr>td_indexes := f (td_indexes t)\<rparr> else t)) c"

lemma in_with_indexes:
  "(m, t') \<in> set (with_indexes n f c) \<longleftrightarrow>
     (\<exists>t. (m, t) \<in> set c \<and> t' = (if m = n then t\<lparr>td_indexes := f (td_indexes t)\<rparr> else t))"
  unfolding with_indexes_def set_map image_iff by (auto split: prod.splits)

lemma wf_with_indexes:
  assumes wf: "wf_catalogue c"
    and ok: "\<And>t i. (n, t) \<in> set c \<Longrightarrow> i \<in> f (td_indexes t) \<Longrightarrow>
      i \<in> td_indexes t \<or> (i = new \<and> ix_name new \<notin> index_names c \<and> set (ix_columns new) \<subseteq> column_names t)"
  shows "wf_catalogue (with_indexes n f c)"
proof -
  note wfD = wf_catalogueD [OF wf]
  have fresh: "ix_name j \<noteq> ix_name new" if "ix_name new \<notin> index_names c" "(m, u) \<in> set c" "j \<in> td_indexes u" for m u j
    using index_namesI [OF that(2,3)] that(1) by auto
  have names: "List.map fst (with_indexes n f c) = List.map fst c"
    by (simp add: with_indexes_def case_prod_unfold)
  have table: "wf_table t' \<and> (\<forall>fk \<in> td_foreign t'. fk_ok (with_indexes n f c) t' fk)"
    if t': "(m, t') \<in> set (with_indexes n f c)" for m t'
  proof -
    obtain t where t: "(m, t) \<in> set c" "t' = (if m = n then t\<lparr>td_indexes := f (td_indexes t)\<rparr> else t)"
      using t' by (auto simp: in_with_indexes)
    have "set (ix_columns i) \<subseteq> column_names t" if "i \<in> td_indexes t'" for i
      using that wfD(2) [OF t(1)] ok [of t i] t by (auto simp: wf_table_def split: if_splits)
    then have "wf_table t'"
      using wfD(2) [OF t(1)] t(2) by (simp add: wf_table_def column_names_def split: if_splits)
    moreover have "fk_ok (with_indexes n f c) t' fk" if "fk \<in> td_foreign t'" for fk
    proof (rule fk_ok_mono [OF wfD(3) [OF t(1)]])
      show "fk \<in> td_foreign t" using that t(2) by (auto split: if_splits)
      show "td_columns t' = td_columns t" using t(2) by simp
      show "\<exists>u'. (k, u') \<in> set (with_indexes n f c) \<and> td_columns u' = td_columns u \<and> td_primary u' = td_primary u"
        if "(k, u) \<in> set c" for k u
        using that unfolding in_with_indexes
        by (intro exI [of _ "if k = n then u\<lparr>td_indexes := f (td_indexes u)\<rparr> else u"]) auto
    qed
    ultimately show ?thesis by blast
  qed
  have index: "m = k \<and> i = j"
    if *: "(m, t') \<in> set (with_indexes n f c)" "(k, u') \<in> set (with_indexes n f c)" "i \<in> td_indexes t'" "j \<in> td_indexes u'"
      "ix_name i = ix_name j" for m t' k u' i j
  proof -
    obtain t u where t: "(m, t) \<in> set c" "t' = (if m = n then t\<lparr>td_indexes := f (td_indexes t)\<rparr> else t)"
      and u: "(k, u) \<in> set c" "u' = (if k = n then u\<lparr>td_indexes := f (td_indexes u)\<rparr> else u)"
      using *(1,2) by (auto simp: in_with_indexes)
    have "i \<in> td_indexes t \<or> (m = n \<and> i = new \<and> ix_name new \<notin> index_names c)"
      "j \<in> td_indexes u \<or> (k = n \<and> j = new \<and> ix_name new \<notin> index_names c)"
      using *(3,4) t u ok [of t i] ok [of u j] by (auto split: if_splits)
    then show ?thesis
      using wfD(4) [OF t(1) u(1) _ _ *(5)] fresh t(1) u(1) *(5) by metis
  qed
  show ?thesis
    unfolding wf_catalogue_def names using wfD(1) table index by blast
qed

text \<open>One operation.\<close>

lemma run_ddl_wf:
  assumes "wf_catalogue c" and "run_ddl d c = Some c'"
  shows "wf_catalogue c'"
proof (cases d)
  case (CreateTable n t)
  note wfD = wf_catalogueD [OF assms(1)]
  from CreateTable assms(2) have c': "c' = c @ [(n, t)]" and new: "n \<notin> fst ` set c" "wf_table t" "td_indexes t = {}"
      "\<forall>fk \<in> td_foreign t. fk_ok c t fk"
    by (auto split: if_splits)
  have "fk_ok c' u fk" if "fk_ok c u fk" for u fk
    by (rule fk_ok_mono [OF that]) (auto simp: c')
  with wfD new show ?thesis
    unfolding wf_catalogue_def c' by (auto simp: c' dest: wfD(4))
next
  case (CreateIndex i n)
  with assms(2) obtain t where t: "map_of c n = Some t" "ix_name i \<notin> index_names c" "set (ix_columns i) \<subseteq> column_names t"
      "c' = with_indexes n (insert i) c"
    by (auto simp: with_indexes_def split: option.splits if_splits)
  have "u = t" if "(n, u) \<in> set c" for u
    using that t(1) wf_catalogueD(1) [OF assms(1)] by (metis map_of_is_SomeI option.sel)
  with t show ?thesis
    by (auto intro!: wf_with_indexes [OF assms(1), where new = i])
next
  case (DropIndex name n)
  with assms(2) have "c' = with_indexes n (\<lambda>is. {i \<in> is. ix_name i \<noteq> name}) c"
    by (auto simp: with_indexes_def split: option.splits if_splits)
  then show ?thesis
    by (auto intro!: wf_with_indexes [OF assms(1)])
next
  case (DropTable n)
  note wfD = wf_catalogueD [OF assms(1)]
  from DropTable assms(2) have c': "c' = filter (\<lambda>(m, t). m \<noteq> n) c"
    and free: "\<And>m t fk. (m, t) \<in> set c \<Longrightarrow> m \<noteq> n \<Longrightarrow> fk \<in> td_foreign t \<Longrightarrow> fk_table fk \<noteq> n"
    by (auto split: if_splits)
  have "fk_ok c' t fk" if "(m, t) \<in> set c" "m \<noteq> n" "fk \<in> td_foreign t" for m t fk
    by (rule fk_ok_mono [OF wfD(3) [OF that(1,3)]]) (use free [OF that] in \<open>auto simp: c'\<close>)
  moreover have "distinct (List.map fst c')"
    using wfD(1) by (simp add: c' distinct_map_filter)
  ultimately show ?thesis
    unfolding wf_catalogue_def using wfD(2) wfD(4) by (auto simp: c')
qed

text \<open>
  Schema operations are type-safe: operations that succeed on a well-formed catalogue (no two
  tables of a name, every key, unique constraint and index over columns of its table, primary keys
  not null, every foreign key to the primary key of an existing table at the same type, index
  names unique in the schema) leave a well-formed one.
\<close>

lemma run_ddls_wf: "wf_catalogue c \<Longrightarrow> run_ddls ds c = Some c' \<Longrightarrow> wf_catalogue c'"
  by (induction ds arbitrary: c) (auto split: option.splits dest: run_ddl_wf)

end
