(* ===== verification/Migrations.thy ===== *)
theory Migrations
  imports Catalogue
begin

text \<open>
  The revisions under \<^verbatim>\<open>migrations/versions\<close>. A revision names the one before it and lists what its
  \<open>upgrade\<close> and its \<open>downgrade\<close> do to the schema. The first one also inserts the roles and permissions,
  which is modelled with the seed.
\<close>

record revision =
  rev_id :: string
  down_revision :: "string option"
  rev_upgrade :: "ddl list"
  rev_downgrade :: "ddl list"

section \<open>Columns as the revisions write them\<close>

definition sa_column :: "string \<Rightarrow> col_type \<Rightarrow> column" where
  "sa_column n ty = \<lparr>co_name = n, co_type = ty, co_nullable = False, co_now = False\<rparr>"

definition sa_nullable :: "string \<Rightarrow> col_type \<Rightarrow> column" where
  "sa_nullable n ty = \<lparr>co_name = n, co_type = ty, co_nullable = True, co_now = False\<rparr>"

text \<open>\<open>server_default=sa.text("(CURRENT_TIMESTAMP)")\<close>.\<close>

definition sa_now :: "string \<Rightarrow> column" where
  "sa_now n = \<lparr>co_name = n, co_type = TDateTime, co_nullable = False, co_now = True\<rparr>"

definition cascade :: "string \<Rightarrow> string \<Rightarrow> foreign_key" where
  "cascade c t = \<lparr>fk_column = c, fk_table = t, fk_target = ''id'', fk_cascade = True\<rparr>"

definition create_table ::
    "string \<Rightarrow> column list \<Rightarrow> foreign_key list \<Rightarrow> string list \<Rightarrow> (string \<times> string list) list \<Rightarrow> ddl" where
  "create_table n cs fks pk us = CreateTable n
     \<lparr>td_columns = cs, td_primary = pk, td_foreign = set fks, td_unique = set us, td_indexes = {}\<rparr>"

definition create_index :: "string \<Rightarrow> string \<Rightarrow> string list \<Rightarrow> bool \<Rightarrow> ddl" where
  "create_index ix n cs u = CreateIndex \<lparr>ix_name = ix, ix_columns = cs, ix_unique = u\<rparr> n"

lemmas sa_defs = sa_column_def sa_nullable_def sa_now_def cascade_def create_table_def create_index_def

section \<open>The revisions\<close>

definition initial_upgrade :: "ddl list" where
  "initial_upgrade = [
      create_table ''permissions''
        [sa_column ''code'' (TString 100), sa_column ''description'' (TString 255), sa_column ''id'' TGuid,
         sa_now ''created_at'', sa_now ''updated_at'']
        [] [''id''] [],
      create_index ''ix_permissions_code'' ''permissions'' [''code''] True,
      create_table ''roles''
        [sa_column ''name'' (TString 50), sa_column ''description'' (TString 255), sa_column ''id'' TGuid,
         sa_now ''created_at'', sa_now ''updated_at'']
        [] [''id''] [],
      create_index ''ix_roles_name'' ''roles'' [''name''] True,
      create_table ''users''
        [sa_column ''email'' (TString 320), sa_column ''hashed_password'' (TString 255),
         sa_column ''full_name'' (TString 255), sa_column ''is_active'' TBoolean, sa_column ''is_verified'' TBoolean,
         sa_column ''is_superuser'' TBoolean, sa_column ''id'' TGuid, sa_now ''created_at'', sa_now ''updated_at'']
        [] [''id''] [],
      create_index ''ix_users_email'' ''users'' [''email''] True,
      create_table ''role_permissions''
        [sa_column ''role_id'' TGuid, sa_column ''permission_id'' TGuid]
        [cascade ''permission_id'' ''permissions'', cascade ''role_id'' ''roles''] [''role_id'', ''permission_id''] [],
      create_table ''user_roles''
        [sa_column ''user_id'' TGuid, sa_column ''role_id'' TGuid]
        [cascade ''role_id'' ''roles'', cascade ''user_id'' ''users''] [''user_id'', ''role_id''] []]"

definition initial_downgrade :: "ddl list" where
  "initial_downgrade = [
      DropTable ''user_roles'',
      DropTable ''role_permissions'',
      DropIndex ''ix_users_email'' ''users'',
      DropTable ''users'',
      DropIndex ''ix_roles_name'' ''roles'',
      DropTable ''roles'',
      DropIndex ''ix_permissions_code'' ''permissions'',
      DropTable ''permissions'']"

definition initial_schema :: revision where
  "initial_schema = \<lparr>rev_id = ''27a02d36d4fb'', down_revision = None,
     rev_upgrade = initial_upgrade, rev_downgrade = initial_downgrade\<rparr>"

definition add_two_factor_auth :: revision where
  "add_two_factor_auth = \<lparr>rev_id = ''b3d383eed5ef'', down_revision = Some ''27a02d36d4fb'',
     rev_upgrade = [
      create_table ''backup_codes''
        [sa_column ''user_id'' TGuid, sa_column ''hashed_code'' (TString 255), sa_nullable ''used_at'' TDateTime,
         sa_now ''created_at'', sa_column ''id'' TGuid]
        [cascade ''user_id'' ''users''] [''id''] [],
      create_index ''ix_backup_codes_user_id'' ''backup_codes'' [''user_id''] False,
      create_table ''two_factor_auth''
        [sa_column ''user_id'' TGuid, sa_column ''encrypted_secret'' (TString 512), sa_column ''enabled'' TBoolean,
         sa_nullable ''verified_at'' TDateTime, sa_column ''id'' TGuid, sa_now ''created_at'', sa_now ''updated_at'']
        [cascade ''user_id'' ''users''] [''id''] [],
      create_index ''ix_two_factor_auth_user_id'' ''two_factor_auth'' [''user_id''] True],
     rev_downgrade = [
      DropIndex ''ix_two_factor_auth_user_id'' ''two_factor_auth'',
      DropTable ''two_factor_auth'',
      DropIndex ''ix_backup_codes_user_id'' ''backup_codes'',
      DropTable ''backup_codes'']\<rparr>"

definition add_sessions :: revision where
  "add_sessions = \<lparr>rev_id = ''a55f82d64171'', down_revision = Some ''b3d383eed5ef'',
     rev_upgrade = [
      create_table ''sessions''
        [sa_column ''user_id'' TGuid, sa_column ''session_uuid'' TGuid, sa_column ''refresh_token_id'' (TString 64),
         sa_column ''device_name'' (TString 128), sa_column ''device_type'' (TString 32),
         sa_column ''browser'' (TString 64), sa_column ''browser_version'' (TString 32),
         sa_column ''operating_system'' (TString 64), sa_column ''operating_system_version'' (TString 32),
         sa_column ''user_agent'' (TString 512), sa_column ''ip_address'' (TString 45),
         sa_nullable ''country'' (TString 64), sa_nullable ''city'' (TString 128), sa_column ''login_at'' TDateTime,
         sa_column ''last_activity_at'' TDateTime, sa_nullable ''logout_at'' TDateTime,
         sa_column ''expires_at'' TDateTime, sa_nullable ''logout_reason'' (TString 64),
         sa_column ''is_current'' TBoolean, sa_column ''is_active'' TBoolean, sa_column ''request_count'' TInteger,
         sa_column ''id'' TGuid, sa_now ''created_at'', sa_now ''updated_at'']
        [cascade ''user_id'' ''users''] [''id''] [],
      create_index ''ix_sessions_is_active'' ''sessions'' [''is_active''] False,
      create_index ''ix_sessions_refresh_token_id'' ''sessions'' [''refresh_token_id''] False,
      create_index ''ix_sessions_session_uuid'' ''sessions'' [''session_uuid''] True,
      create_index ''ix_sessions_user_id'' ''sessions'' [''user_id''] False],
     rev_downgrade = [
      DropIndex ''ix_sessions_user_id'' ''sessions'',
      DropIndex ''ix_sessions_session_uuid'' ''sessions'',
      DropIndex ''ix_sessions_refresh_token_id'' ''sessions'',
      DropIndex ''ix_sessions_is_active'' ''sessions'',
      DropTable ''sessions'']\<rparr>"

definition add_email_tokens :: revision where
  "add_email_tokens = \<lparr>rev_id = ''7e9a6c8a7b0d'', down_revision = Some ''a55f82d64171'',
     rev_upgrade = [
      create_table ''email_tokens''
        [sa_column ''user_id'' TGuid, sa_column ''token_hash'' (TString 64), sa_column ''purpose'' (TString 32),
         sa_nullable ''new_email'' (TString 320), sa_column ''expires_at'' TDateTime,
         sa_nullable ''used_at'' TDateTime, sa_column ''id'' TGuid, sa_now ''created_at'', sa_now ''updated_at'']
        [cascade ''user_id'' ''users''] [''id''] [],
      create_index ''ix_email_tokens_purpose'' ''email_tokens'' [''purpose''] False,
      create_index ''ix_email_tokens_token_hash'' ''email_tokens'' [''token_hash''] True,
      create_index ''ix_email_tokens_user_id'' ''email_tokens'' [''user_id''] False],
     rev_downgrade = [
      DropIndex ''ix_email_tokens_user_id'' ''email_tokens'',
      DropIndex ''ix_email_tokens_token_hash'' ''email_tokens'',
      DropIndex ''ix_email_tokens_purpose'' ''email_tokens'',
      DropTable ''email_tokens'']\<rparr>"

definition add_oauth_accounts :: revision where
  "add_oauth_accounts = \<lparr>rev_id = ''7cdc29eb5f85'', down_revision = Some ''7e9a6c8a7b0d'',
     rev_upgrade = [
      create_table ''oauth_accounts''
        [sa_column ''user_id'' TGuid, sa_column ''provider'' (TString 32),
         sa_column ''provider_account_id'' (TString 255), sa_nullable ''email'' (TString 320),
         sa_column ''id'' TGuid, sa_now ''created_at'', sa_now ''updated_at'']
        [cascade ''user_id'' ''users''] [''id''] [(''uq_provider_account'', [''provider'', ''provider_account_id''])],
      create_index ''ix_oauth_accounts_provider'' ''oauth_accounts'' [''provider''] False,
      create_index ''ix_oauth_accounts_user_id'' ''oauth_accounts'' [''user_id''] False],
     rev_downgrade = [
      DropIndex ''ix_oauth_accounts_user_id'' ''oauth_accounts'',
      DropIndex ''ix_oauth_accounts_provider'' ''oauth_accounts'',
      DropTable ''oauth_accounts'']\<rparr>"

definition composite_indexes :: revision where
  "composite_indexes = \<lparr>rev_id = ''7f751a27a5ad'', down_revision = Some ''7cdc29eb5f85'',
     rev_upgrade = [
      create_index ''ix_email_tokens_user_purpose'' ''email_tokens'' [''user_id'', ''purpose''] False,
      create_index ''ix_sessions_user_active_activity'' ''sessions'' [''user_id'', ''is_active'', ''last_activity_at''] False],
     rev_downgrade = [
      DropIndex ''ix_sessions_user_active_activity'' ''sessions'',
      DropIndex ''ix_email_tokens_user_purpose'' ''email_tokens'']\<rparr>"

text \<open>The files of the directory, in their order there.\<close>

definition revisions :: "revision list" where
  "revisions = [initial_schema, add_oauth_accounts, add_email_tokens, composite_indexes, add_sessions, add_two_factor_auth]"

lemmas revision_defs =
  initial_upgrade_def initial_downgrade_def initial_schema_def add_two_factor_auth_def add_sessions_def add_email_tokens_def add_oauth_accounts_def composite_indexes_def

text \<open>\<open>alembic upgrade head\<close>: the revisions after \<open>base\<close>, each the only one that names the one before it.\<close>

fun path_to_head :: "nat \<Rightarrow> revision list \<Rightarrow> string option \<Rightarrow> revision list" where
  "path_to_head 0 rs base = []"
| "path_to_head (Suc k) rs base =
     (case filter (\<lambda>r. down_revision r = base) rs of
        [r] \<Rightarrow> r # path_to_head k rs (Some (rev_id r))
      | _ \<Rightarrow> [])"

definition upgrades :: "revision list \<Rightarrow> ddl list" where
  "upgrades rs = concat (List.map rev_upgrade rs)"

definition downgrades :: "revision list \<Rightarrow> ddl list" where
  "downgrades rs = concat (List.map rev_downgrade (rev rs))"

definition head_path :: "revision list" where
  "head_path = path_to_head (length revisions) revisions None"

section \<open>What the migrations build\<close>

lemma wf_metadata: "wf_catalogue metadata"
  by code_simp

text \<open>
  C36. The migrations build what the models declare: the revisions form one line from the empty
  database to a single head and use every file, their upgrades succeed one after the other on an
  empty database, and leave exactly the tables of the models, with the columns in their order,
  types, nullability, defaults, keys, constraints and indexes.
\<close>

theorem migrations_build_models:
  "List.map rev_id head_path = [''27a02d36d4fb'', ''b3d383eed5ef'', ''a55f82d64171'', ''7e9a6c8a7b0d'', ''7cdc29eb5f85'', ''7f751a27a5ad''] \<and>
   set head_path = set revisions \<and>
   (\<exists>c. run_ddls (upgrades head_path) [] = Some c \<and> set c = set metadata \<and> length c = length metadata)"
proof (intro conjI)
  show "List.map rev_id head_path = [''27a02d36d4fb'', ''b3d383eed5ef'', ''a55f82d64171'', ''7e9a6c8a7b0d'', ''7cdc29eb5f85'', ''7f751a27a5ad'']"
    by code_simp
  show "set head_path = set revisions" by code_simp
  have "case run_ddls (upgrades head_path) [] of None \<Rightarrow> False | Some c \<Rightarrow> set c = set metadata \<and> length c = length metadata"
    by code_simp
  then show "\<exists>c. run_ddls (upgrades head_path) [] = Some c \<and> set c = set metadata \<and> length c = length metadata"
    by (auto split: option.splits)
qed

text \<open>The operation that takes back a creation.\<close>

fun undo :: "ddl \<Rightarrow> ddl" where
  "undo (CreateTable n t) = DropTable n"
| "undo (CreateIndex i n) = DropIndex (ix_name i) n"
| "undo d = d"

fun creates :: "ddl \<Rightarrow> bool" where
  "creates (CreateTable n t) = True"
| "creates (CreateIndex i n) = True"
| "creates _ = False"

lemma undo_ddl:
  assumes wf: "wf_catalogue c" and run: "run_ddl d c = Some c'" and "creates d"
  shows "run_ddl (undo d) c' = Some c"
proof (cases d)
  case (CreateTable n t)
  from CreateTable run have c': "c' = c @ [(n, t)]" and new: "n \<notin> fst ` set c" by (auto split: if_splits)
  have "fk_table fk \<noteq> n" if "(m, u) \<in> set c" "fk \<in> td_foreign u" for m u fk
    using wf_catalogueD(3) [OF wf that] new by (force simp: fk_ok_def)
  moreover have "filter (\<lambda>(m, t). m \<noteq> n) c = c"
    using new by (force simp: filter_id_conv)
  ultimately show ?thesis
    unfolding CreateTable c' by auto
next
  case (CreateIndex i n)
  from CreateIndex run obtain t where t: "map_of c n = Some t" "ix_name i \<notin> index_names c"
    and c': "c' = with_indexes n (insert i) c"
    by (auto simp: with_indexes_def split: option.splits if_splits)
  have fresh: "ix_name j \<noteq> ix_name i" if "(m, u) \<in> set c" "j \<in> td_indexes u" for m u j
    using index_namesI [OF that] t(2) by auto
  have tc: "(n, t) \<in> set c" using t(1) by (rule map_of_SomeD)
  have lookup: "map_of c' n = Some (t\<lparr>td_indexes := insert i (td_indexes t)\<rparr>)"
    unfolding c' with_indexes_def using t(1) by (induction c) auto
  have restored: "{j \<in> insert i (td_indexes u). ix_name j \<noteq> ix_name i} = td_indexes u" if "(m, u) \<in> set c" for m u
    using fresh [OF that] by auto
  have "List.map (\<lambda>(m, t). (m, if m = n then t\<lparr>td_indexes := {j \<in> td_indexes t. ix_name j \<noteq> ix_name i}\<rparr> else t)) c' = c"
    unfolding c' with_indexes_def map_map
    by (rule map_idI) (use restored in \<open>auto split: prod.splits\<close>)
  then show ?thesis
    unfolding CreateIndex undo.simps run_ddl.simps lookup by simp
qed (use assms(3) in simp_all)

lemma undo_ddls:
  "wf_catalogue c \<Longrightarrow> run_ddls ds c = Some c' \<Longrightarrow> list_all creates ds \<Longrightarrow> run_ddls (List.map undo (rev ds)) c' = Some c"
proof (induction ds arbitrary: c)
  case (Cons d ds)
  then obtain c1 where c1: "run_ddl d c = Some c1" "run_ddls ds c1 = Some c'" by (auto split: option.splits)
  with Cons have "run_ddls (List.map undo (rev ds)) c' = Some c1" by (auto intro: run_ddl_wf)
  then show ?case using undo_ddl [OF Cons.prems(1) c1(1)] Cons.prems(3) by (simp add: run_ddls_append)
qed simp

text \<open>
  C37. Every revision can be taken back: on any well-formed schema on which its upgrade succeeds, its
  downgrade then succeeds and restores this very schema.
\<close>

theorem migrations_reversible:
  assumes "wf_catalogue c" and "r \<in> set revisions" and "run_ddls (rev_upgrade r) c = Some c'"
  shows "run_ddls (rev_downgrade r) c' = Some c"
proof -
  have "rev_downgrade r = List.map undo (rev (rev_upgrade r)) \<and> list_all creates (rev_upgrade r)"
    using assms(2) by (auto simp: revisions_def revision_defs create_table_def create_index_def)
  then show ?thesis using undo_ddls [OF assms(1,3)] by simp
qed

theorem migrations_reversible_witness:
  "Option.bind (run_ddls (rev_upgrade initial_schema) []) (run_ddls (rev_downgrade initial_schema)) = Some []"
proof -
  have "run_ddls (rev_upgrade initial_schema) [] \<noteq> None" by code_simp
  then obtain c where "run_ddls (rev_upgrade initial_schema) [] = Some c" by auto
  with migrations_reversible [of "[]" initial_schema c] show ?thesis
    by (simp add: wf_catalogue_def revisions_def)
qed


end
