(* ===== verification/Seed.thy ===== *)
theory Seed
  imports Tables
begin

text \<open>
  The roles and permissions of the server (\<^verbatim>\<open>app/models/__init__.py\<close>) and the two programs that write
  them: the idempotent \<open>seed_rbac\<close> of \<^verbatim>\<open>app/db/seed.py\<close> and \<open>_seed_rbac\<close> of the first migration.
\<close>

definition PERMISSIONS :: "(string \<times> string) list" where
  "PERMISSIONS =
     [(''manage_users'', ''Create, update, and delete users''),
      (''manage_roles'', ''Create, update, and delete roles''),
      (''manage_permissions'', ''Assign permissions to roles''),
      (''view_dashboard'', ''View the admin dashboard''),
      (''manage_api_keys'', ''Create, rotate, and revoke API keys'')]"

definition ROLES :: "(string \<times> string list) list" where
  "ROLES =
     [(''super_admin'', List.map fst PERMISSIONS),
      (''admin'', [''manage_users'', ''manage_roles'', ''view_dashboard'', ''manage_api_keys'']),
      (''staff'', [''view_dashboard'']),
      (''user'', [])]"

section \<open>Rows\<close>

definition add_permission :: "permission_row \<Rightarrow> ('r world, unit) prog" where
  "add_permission = insert_row permissions permissions_update (\<lambda>r s. pe_id r = pe_id s \<or> pe_code r = pe_code s)"

definition add_role :: "role_row \<Rightarrow> ('r world, unit) prog" where
  "add_role = insert_row roles roles_update (\<lambda>r s. ro_id r = ro_id s \<or> ro_name r = ro_name s)"

definition add_link :: "uuid \<times> uuid \<Rightarrow> ('r world, unit) prog" where
  "add_link = insert_row role_permissions role_permissions_update (\<lambda>r s. r = s)"

text \<open>\<open>select(Permission).where(Permission.code == code)\<close>.\<close>

definition get_by_code :: "string \<Rightarrow> ('r world, permission_row option) prog" where
  "get_by_code code =
     bnd (db_query (\<lambda>d. filter (\<lambda>p. pe_code p = code) (permissions d))) scalar_one_or_none"

interpretation permission_by_code: unique_lookup permissions pe_code "\<lambda>k. k" get_by_code
  by unfold_locales (simp add: get_by_code_def db_query_def)

text \<open>
  \<open>role.permissions = ps\<close> on a role with the id \<open>rid\<close>: at the flush the links to permissions that are
  no longer in the list are deleted and the new ones inserted.
\<close>

definition relink :: "uuid \<Rightarrow> uuid list \<Rightarrow> (uuid \<times> uuid) list \<Rightarrow> (uuid \<times> uuid) list" where
  "relink rid ids links =
     filter (\<lambda>(r, p). r = rid \<longrightarrow> p \<in> set ids) links @
     filter (\<lambda>l. l \<notin> set links) (List.map (Pair rid) (remdups ids))"

definition set_permissions :: "role_row \<Rightarrow> permission_row list \<Rightarrow> ('r world, unit) prog" where
  "set_permissions role ps = db_write (role_permissions_update (relink (ro_id role) (List.map pe_id ps)))"

section \<open>The two programs\<close>

definition seed_permission :: "'r env \<Rightarrow> string \<Rightarrow> string \<Rightarrow> ('r world, permission_row) prog" where
  "seed_permission E code description =
     bnd (get_by_code code) (\<lambda>existing.
     case existing of
       Some p \<Rightarrow> ret p
     | None \<Rightarrow>
         bnd (draw (uuid7 E)) (\<lambda>i.
         let p = \<lparr>pe_id = i, pe_code = code, pe_description = description\<rparr> in
         bnd (add_permission p) (\<lambda>_. ret p)))"

fun seed_permissions :: "'r env \<Rightarrow> (string \<times> string) list \<Rightarrow> ('r world, (string \<times> permission_row) list) prog" where
  "seed_permissions E [] = ret []"
| "seed_permissions E ((code, description) # cs) =
     bnd (seed_permission E code description) (\<lambda>p.
     bnd (seed_permissions E cs) (\<lambda>ps. ret ((code, p) # ps)))"

text \<open>\<open>[perms[c] for c in codes]\<close>.\<close>

fun lookups :: "(string \<times> 'a) list \<Rightarrow> string list \<Rightarrow> exn + 'a list" where
  "lookups m [] = Inr []"
| "lookups m (c # cs) =
     (case map_of m c of
        None \<Rightarrow> Inl KeyError
      | Some p \<Rightarrow> (case lookups m cs of Inl e \<Rightarrow> Inl e | Inr ps \<Rightarrow> Inr (p # ps)))"

definition role_of_name :: "'r env \<Rightarrow> string \<Rightarrow> ('r world, role_row) prog" where
  "role_of_name E name =
     bnd (get_by_name name) (\<lambda>found.
     case found of
       Some r \<Rightarrow> ret r
     | None \<Rightarrow>
         bnd (draw (uuid7 E)) (\<lambda>i.
         let r = \<lparr>ro_id = i, ro_name = name, ro_description = name @ '' role''\<rparr> in
         bnd (add_role r) (\<lambda>_. ret r)))"

definition seed_role ::
    "'r env \<Rightarrow> (string \<times> permission_row) list \<Rightarrow> string \<times> string list \<Rightarrow> ('r world, unit) prog" where
  "seed_role E perms entry =
     (case entry of (name, codes) \<Rightarrow>
        bnd (role_of_name E name) (\<lambda>role.
        bnd (lift_sum (lookups perms codes)) (set_permissions role)))"

definition seed_rbac :: "'r env \<Rightarrow> ('r world, unit) prog" where
  "seed_rbac E =
     bnd (seed_permissions E PERMISSIONS) (\<lambda>perms.
     bnd flush (\<lambda>_.
     bnd (for_each (seed_role E perms) ROLES) (\<lambda>_.
     commit)))"

text \<open>The migration draws the ids of the permissions first, then those of the roles, and inserts in bulk.\<close>

fun draw_ids :: "'r env \<Rightarrow> 'a list \<Rightarrow> ('r world, ('a \<times> uuid) list) prog" where
  "draw_ids E [] = ret []"
| "draw_ids E (x # xs) =
     bnd (draw (uuid4 E)) (\<lambda>i. bnd (draw_ids E xs) (\<lambda>is. ret ((x, i) # is)))"

definition migration_seed :: "'r env \<Rightarrow> ('r world, unit) prog" where
  "migration_seed E =
     bnd (draw_ids E (List.map fst PERMISSIONS)) (\<lambda>perm_ids.
     bnd (for_each (\<lambda>(code, desc). bnd (lift_sum (lookups perm_ids [code])) (\<lambda>is.
            add_permission \<lparr>pe_id = hd is, pe_code = code, pe_description = desc\<rparr>)) PERMISSIONS) (\<lambda>_.
     bnd (draw_ids E ROLES) (\<lambda>role_ids.
     bnd (for_each (\<lambda>((name, codes), i).
            add_role \<lparr>ro_id = i, ro_name = name, ro_description = name @ '' role''\<rparr>) role_ids) (\<lambda>_.
     for_each (\<lambda>((name, codes), i). bnd (lift_sum (lookups perm_ids codes)) (\<lambda>ps.
       for_each (\<lambda>p. add_link (i, p)) ps)) role_ids))))"

section \<open>Seeded tables\<close>

definition rbac_unique :: "database \<Rightarrow> bool" where
  "rbac_unique d \<longleftrightarrow> distinct (List.map pe_id (permissions d)) \<and> distinct (List.map pe_code (permissions d)) \<and>
     distinct (List.map ro_id (roles d)) \<and> distinct (List.map ro_name (roles d))"

definition grants :: "database \<Rightarrow> role_row \<Rightarrow> uuid set" where
  "grants d r = {p. (ro_id r, p) \<in> set (role_permissions d)}"

definition coded :: "database \<Rightarrow> string list \<Rightarrow> uuid set" where
  "coded d codes = {pe_id p | p. p \<in> set (permissions d) \<and> pe_code p \<in> set codes}"

text \<open>The entry of the role model is in the tables: a role of the name with exactly these permissions.\<close>

definition entered :: "database \<Rightarrow> string \<times> string list \<Rightarrow> bool" where
  "entered d entry \<longleftrightarrow> (\<exists>r \<in> set (roles d). ro_name r = fst entry \<and> grants d r = coded d (snd entry))"

definition seeded :: "database \<Rightarrow> bool" where
  "seeded d \<longleftrightarrow> rbac_unique d \<and> set (List.map fst PERMISSIONS) \<subseteq> pe_code ` set (permissions d) \<and>
     (\<forall>entry \<in> set ROLES. entered d entry)"

text \<open>The rows a role model lookup has to give.\<close>

definition perms_ok :: "database \<Rightarrow> (string \<times> permission_row) list \<Rightarrow> bool" where
  "perms_ok d ps \<longleftrightarrow> (\<forall>(c, p) \<in> set ps. p \<in> set (permissions d) \<and> pe_code p = c)"

lemma grants_relink:
  "grants (role_permissions_update (relink (ro_id r) ids) d) r = set ids"
  "ro_id q \<noteq> ro_id r \<Longrightarrow> grants (role_permissions_update (relink (ro_id r) ids) d) q = grants d q"
  by (auto simp: grants_def relink_def)

lemma relink_same: "{p. (rid, p) \<in> set links} = set ids \<Longrightarrow> relink rid ids links = links"
proof -
  assume same: "{p. (rid, p) \<in> set links} = set ids"
  have "filter (\<lambda>(r, p). r = rid \<longrightarrow> p \<in> set ids) links = links"
    by (rule filter_True) (use same in auto)
  moreover have "filter (\<lambda>l. l \<notin> set links) (List.map (Pair rid) (remdups ids)) = []"
    by (rule filter_False) (use same in auto)
  ultimately show ?thesis by (simp add: relink_def)
qed

lemma lookups_Inr:
  "lookups m cs = Inr ps \<Longrightarrow> length ps = length cs \<and> (\<forall>i < length cs. map_of m (cs ! i) = Some (ps ! i))"
proof (induction cs arbitrary: ps)
  case (Cons c cs)
  then show ?case by (auto split: option.splits sum.splits simp: nth_Cons' less_Suc_eq_0_disj)
qed simp

lemma lookups_ids:
  assumes "perms_ok d m" and "rbac_unique d" and "lookups m cs = Inr ps"
  shows "set (List.map pe_id ps) = coded d cs"
proof -
  note l = lookups_Inr [OF assms(3)]
  have row: "ps ! i \<in> set (permissions d) \<and> pe_code (ps ! i) = cs ! i" if "i < length cs" for i
    using l that assms(1) by (auto simp: perms_ok_def dest!: map_of_SomeD)
  have same: "p = q" if "p \<in> set (permissions d)" "q \<in> set (permissions d)" "pe_code p = pe_code q" for p q
    using assms(2) that by (auto simp: rbac_unique_def distinct_map dest: inj_onD)
  show ?thesis
  proof (intro subset_antisym subsetI)
    fix x
    assume "x \<in> set (List.map pe_id ps)"
    then obtain i where "i < length cs" "x = pe_id (ps ! i)" using l by (auto simp: in_set_conv_nth)
    with row [of i] show "x \<in> coded d cs" by (auto simp: coded_def)
  next
    fix x
    assume "x \<in> coded d cs"
    then obtain p i where p: "p \<in> set (permissions d)" "x = pe_id p" "i < length cs" "cs ! i = pe_code p"
      by (auto simp: coded_def in_set_conv_nth)
    with row [of i] same [of "ps ! i" p] have "ps ! i = p" by simp
    with p(3) l have "p \<in> set ps" by (metis nth_mem)
    with p(2) show "x \<in> set (List.map pe_id ps)" by simp
  qed
qed

lemma lookups_total: "set cs \<subseteq> fst ` set m \<Longrightarrow> \<exists>ps. lookups m cs = Inr ps"
proof (induction cs)
  case (Cons c cs)
  then obtain ps where "lookups m cs = Inr ps" by auto
  moreover have "map_of m c \<noteq> None" using Cons.prems by (simp add: map_of_eq_None_iff)
  ultimately show ?case by auto
qed simp

lemma runs_seed_permissions:
  assumes "rbac_unique (db w)"
  shows "runs (seed_permissions E cs) w
    (\<lambda>ps w'. rbac_unique (db w') \<and> List.map fst ps = List.map fst cs \<and> perms_ok (db w') ps \<and>
       set (permissions (db w)) \<subseteq> set (permissions (db w')) \<and>
       (db w')\<lparr>permissions := []\<rparr> = (db w)\<lparr>permissions := []\<rparr>) (\<lambda>_ _. True)"
  using assms
proof (induction cs arbitrary: w)
  case Nil
  then show ?case by (simp add: runs_def perms_ok_def)
next
  case (Cons c cs)
  have one: "runs (seed_permission E (fst c) (snd c)) w
      (\<lambda>p w'. rbac_unique (db w') \<and> p \<in> set (permissions (db w')) \<and> pe_code p = fst c \<and>
        set (permissions (db w)) \<subseteq> set (permissions (db w')) \<and>
        (db w')\<lparr>permissions := []\<rparr> = (db w)\<lparr>permissions := []\<rparr>) (\<lambda>_ _. True)"
    unfolding seed_permission_def add_permission_def Let_def
    by (intro runs_intros permission_by_code.runs_find runs_insert_row TrueI)
       (use Cons.prems in \<open>auto simp: rbac_unique_def list_ex_iff\<close>)
  have "runs (bnd (seed_permission E (fst c) (snd c)) (\<lambda>p. bnd (seed_permissions E cs) (\<lambda>ps. ret ((fst c, p) # ps)))) w
    (\<lambda>ps w'. rbac_unique (db w') \<and> List.map fst ps = List.map fst (c # cs) \<and> perms_ok (db w') ps \<and>
       set (permissions (db w)) \<subseteq> set (permissions (db w')) \<and>
       (db w')\<lparr>permissions := []\<rparr> = (db w)\<lparr>permissions := []\<rparr>) (\<lambda>_ _. True)"
    apply (rule runs_seq [OF one], rule runs_bnd, rule runs_mono [OF Cons.IH])
    apply (auto intro!: runs_ret simp: perms_ok_def)
    done
  then show ?case by (cases c) simp
qed

text \<open>One entry of the role model; the roles of other names keep what they grant.\<close>

lemma runs_seed_role:
  assumes unique: "rbac_unique (db w)" and perms: "perms_ok (db w) m"
  shows "runs (seed_role E m entry) w
    (\<lambda>_ w'. rbac_unique (db w') \<and> entered (db w') entry \<and>
       (\<forall>e. fst e \<noteq> fst entry \<longrightarrow> entered (db w) e \<longrightarrow> entered (db w') e) \<and> permissions (db w') = permissions (db w) \<and>
       (db w')\<lparr>roles := [], role_permissions := []\<rparr> = (db w)\<lparr>roles := [], role_permissions := []\<rparr>) (\<lambda>_ _. True)"
proof -
  obtain name codes where entry: "entry = (name, codes)" by (cases entry)
  let ?T = "\<lambda>r w'. rbac_unique (db w') \<and> r \<in> set (roles (db w')) \<and> ro_name r = name \<and>
      (\<forall>e. fst e \<noteq> name \<longrightarrow> entered (db w) e \<longrightarrow> entered (db w') e) \<and> permissions (db w') = permissions (db w) \<and>
      (db w')\<lparr>roles := [], role_permissions := []\<rparr> = (db w)\<lparr>roles := [], role_permissions := []\<rparr>"
  have role: "runs (role_of_name E name) w ?T (\<lambda>_ _. True)"
    unfolding role_of_name_def add_role_def Let_def
    by (intro runs_intros role_by_name.runs_find runs_insert_row TrueI)
       (use unique in \<open>auto simp: rbac_unique_def list_ex_iff entered_def grants_def coded_def\<close>)
  have link: "runs (bnd (lift_sum (lookups m codes)) (set_permissions r)) v
      (\<lambda>_ w'. rbac_unique (db w') \<and> entered (db w') entry \<and>
        (\<forall>e. fst e \<noteq> name \<longrightarrow> entered (db v) e \<longrightarrow> entered (db w') e) \<and> permissions (db w') = permissions (db v) \<and>
        (db w')\<lparr>roles := [], role_permissions := []\<rparr> = (db v)\<lparr>roles := [], role_permissions := []\<rparr>) (\<lambda>_ _. True)"
    if v: "rbac_unique (db v)" "r \<in> set (roles (db v))" "ro_name r = name" "permissions (db v) = permissions (db w)" for r v
  proof -
    have other: "ro_id q \<noteq> ro_id r" if "q \<in> set (roles (db v))" "ro_name q \<noteq> name" for q
      using v(1-3) that by (auto simp: rbac_unique_def distinct_map dest: inj_onD)
    have ids: "set (List.map pe_id ps) = coded (db v) codes" if "lookups m codes = Inr ps" for ps
      using lookups_ids [OF _ v(1) that] perms v(4) by (simp add: perms_ok_def)
    have coded: "coded (role_permissions_update f d) cs = coded d cs" for f d cs
      by (simp add: coded_def)
    show ?thesis
      unfolding set_permissions_def
      by (intro runs_intros TrueI)
         (use v other in \<open>auto simp: entry entered_def rbac_unique_def grants_relink coded ids [simplified]
            intro: bexI [of _ r]\<close>)
  qed
  show ?thesis
    unfolding seed_role_def entry prod.case
    by (rule runs_seq [OF role], elim conjE, rule runs_mono [OF link]) (auto simp: entry)
qed

lemma distinct_ROLES: "distinct (List.map fst ROLES)"
  by (simp add: ROLES_def)

lemma codes_known: "entry \<in> set ROLES \<Longrightarrow> set (snd entry) \<subseteq> set (List.map fst PERMISSIONS)"
  by (auto simp: ROLES_def PERMISSIONS_def)

text \<open>What neither program writes.\<close>

definition beside_rbac :: "database \<Rightarrow> database" where
  "beside_rbac d = d\<lparr>roles := [], permissions := [], role_permissions := []\<rparr>"

lemma runs_seed_rbac:
  assumes "rbac_unique (db w)"
  shows "runs (seed_rbac E) w (\<lambda>_ w'. seeded (db w') \<and> committed w' = db w' \<and>
     beside_rbac (db w') = beside_rbac (db w)) (\<lambda>_ _. True)"
proof -
  have roles: "runs (for_each (seed_role E m) ROLES) v
      (\<lambda>_ v'. rbac_unique (db v') \<and> permissions (db v') = permissions (db v) \<and> (\<forall>e \<in> set ROLES. entered (db v') e) \<and>
        beside_rbac (db v') = beside_rbac (db v)) (\<lambda>_ _. True)"
    if v: "rbac_unique (db v)" "perms_ok (db v) m" for m v
  proof (rule runs_for_each [where I = "\<lambda>ys v'. rbac_unique (db v') \<and> permissions (db v') = permissions (db v) \<and>
        beside_rbac (db v') = beside_rbac (db v) \<and> (\<exists>xs. ROLES = xs @ ys \<and> (\<forall>e \<in> set xs. entered (db v') e))"], goal_cases)
    case (2 x ys v')
    then obtain xs where xs: "ROLES = xs @ x # ys" "\<forall>e \<in> set xs. entered (db v') e" by auto
    have "fst x \<notin> fst ` set xs" using distinct_ROLES by (simp add: xs(1))
    then have other: "fst e \<noteq> fst x" if "e \<in> set xs" for e
      using imageI [OF that, of fst] by metis
    have perms: "perms_ok (db v') m" using v(2) 2 by (simp add: perms_ok_def)
    have beside: "beside_rbac d = beside_rbac d'"
      if "d\<lparr>roles := [], role_permissions := []\<rparr> = d'\<lparr>roles := [], role_permissions := []\<rparr>" for d d'
      using arg_cong [OF that, of beside_rbac] by (simp add: beside_rbac_def)
    show ?case
      by (rule runs_mono [OF runs_seed_role [OF _ perms]])
         (use 2 xs other in \<open>auto dest: beside intro!: exI [of _ "xs @ [x]"]\<close>)
  qed (use v in auto)
  have perms: "beside_rbac d = beside_rbac d'" if "d\<lparr>permissions := []\<rparr> = d'\<lparr>permissions := []\<rparr>" for d d'
    using arg_cong [OF that, of beside_rbac] by (simp add: beside_rbac_def)
  have known: "set (List.map fst PERMISSIONS) \<subseteq> pe_code ` set (permissions d)"
    if "perms_ok d ps" "List.map fst ps = List.map fst PERMISSIONS" for d ps
    unfolding that(2) [symmetric] using that(1) by (force simp: perms_ok_def)
  show ?thesis
    unfolding seed_rbac_def
  proof (rule runs_seq [OF runs_seed_permissions [OF assms]], goal_cases)
    case (1 ps w1)
    show ?case
      by (rule runs_bnd, rule runs_flush, rule runs_bnd, rule runs_mono [OF roles [of w1 ps]])
         (use 1 known [of "db w1" ps] in \<open>auto simp: seeded_def dest!: perms intro!: runs_commit\<close>)
  qed simp
qed

text \<open>On seeded tables there is nothing to do.\<close>

lemma seed_permissions_seeded:
  assumes "rbac_unique (db w)" and "set (List.map fst cs) \<subseteq> pe_code ` set (permissions (db w))"
  shows "\<exists>ps. seed_permissions E cs w = (Inr ps, w) \<and> perms_ok (db w) ps \<and> List.map fst ps = List.map fst cs"
  using assms
proof (induction cs)
  case Nil
  then show ?case by (simp add: perms_ok_def)
next
  case (Cons c cs)
  obtain p where p: "p \<in> set (permissions (db w))" "pe_code p = fst c" using Cons.prems(2) by auto
  have find: "List.find (\<lambda>p. pe_code p = fst c) (permissions (db w)) = Some p"
    using find_key [of pe_code "permissions (db w)" p "fst c"] p Cons.prems(1) by (simp add: rbac_unique_def)
  have "get_by_code (fst c) w = (Inr (Some p), w)"
    using permission_by_code.unique [of w "fst c"] Cons.prems(1) find by (simp add: rbac_unique_def)
  then have one: "seed_permission E (fst c) (snd c) w = (Inr p, w)"
    by (simp add: seed_permission_def bnd_Inr)
  obtain ps where "seed_permissions E cs w = (Inr ps, w)" "perms_ok (db w) ps" "List.map fst ps = List.map fst cs"
    using Cons by auto
  with one p show ?case by (cases c) (auto simp: bnd_Inr perms_ok_def)
qed

lemma seed_role_seeded:
  assumes unique: "rbac_unique (db w)" and "perms_ok (db w) m" and "entered (db w) entry" and "set (snd entry) \<subseteq> fst ` set m"
  shows "seed_role E m entry w = (Inr (), w)"
proof -
  obtain name codes where entry: "entry = (name, codes)" by (cases entry)
  obtain r where r: "r \<in> set (roles (db w))" "ro_name r = name" "grants (db w) r = coded (db w) codes"
    using assms(3) by (auto simp: entered_def entry)
  have "List.find (\<lambda>r. ro_name r = name) (roles (db w)) = Some r"
    using find_key [of ro_name "roles (db w)" r name] r unique by (simp add: rbac_unique_def)
  then have "get_by_name name w = (Inr (Some r), w)"
    using role_by_name.unique [of w name] unique by (simp add: rbac_unique_def)
  then have role: "role_of_name E name w = (Inr r, w)" by (simp add: role_of_name_def bnd_Inr)
  obtain ps where ps: "lookups m codes = Inr ps" using lookups_total assms(4) entry by force
  have "relink (ro_id r) (List.map pe_id ps) (role_permissions (db w)) = role_permissions (db w)"
    by (rule relink_same) (use lookups_ids [OF assms(2) unique ps] r(3) in \<open>simp add: grants_def\<close>)
  then show ?thesis
    using role by (simp add: seed_role_def entry bnd_Inr ps set_permissions_def db_write_def)
qed

lemma seed_seeded:
  assumes "seeded (db w)"
  shows "seed_rbac E w = (Inr (), w\<lparr>committed := db w\<rparr>)"
proof -
  have unique: "rbac_unique (db w)" using assms by (simp add: seeded_def)
  obtain ps where ps: "seed_permissions E PERMISSIONS w = (Inr ps, w)" "perms_ok (db w) ps"
      "List.map fst ps = List.map fst PERMISSIONS"
    using seed_permissions_seeded [of w PERMISSIONS E] assms by (auto simp: seeded_def)
  have known: "fst ` set ps = set (List.map fst PERMISSIONS)" by (metis ps(3) set_map)
  have "for_each (seed_role E ps) es w = (Inr (), w)" if "set es \<subseteq> set ROLES" for es
    using that
  proof (induction es)
    case (Cons e es)
    have "seed_role E ps e w = (Inr (), w)"
      by (rule seed_role_seeded [OF unique ps(2)]) (use Cons.prems assms known codes_known in \<open>auto simp: seeded_def\<close>)
    with Cons show ?case by (simp add: bnd_Inr)
  qed simp
  then have "for_each (seed_role E ps) ROLES w = (Inr (), w)" by simp
  then show ?thesis
    using ps(1) by (simp add: seed_rbac_def bnd_Inr flush_def commit_def)
qed

section \<open>The migration\<close>

lemma for_each_cong: "(\<And>x. x \<in> set xs \<Longrightarrow> f x = g x) \<Longrightarrow> for_each f xs = for_each g xs"
proof (induction xs)
  case (Cons x xs)
  then show ?case by (intro ext) (simp add: bnd_def)
qed (simp add: fun_eq_iff)

lemma for_each_map: "for_each f (List.map h xs) = for_each (\<lambda>x. f (h x)) xs"
proof (induction xs)
  case (Cons x xs)
  then show ?case by (intro ext) (simp add: bnd_def)
qed (simp add: fun_eq_iff)

lemma for_each_zip: "length xs = length ys \<Longrightarrow> for_each f xs = for_each (\<lambda>x. f (fst x)) (zip xs ys)"
  by (simp add: for_each_map [symmetric])

lemma for_each_concat: "for_each (\<lambda>x. for_each f (h x)) xs = for_each f (concat (List.map h xs))"
  by (induction xs) (auto simp: fun_eq_iff for_each_append bnd_def split: prod.splits sum.splits)

text \<open>A bulk insert: the rows are appended, and no two of them clash.\<close>

lemma runs_insert_rows:
  assumes "\<And>f d. tbl (upd f d) = f (tbl d)" and "\<And>f g d. upd f (upd g d) = upd (\<lambda>x. f (g x)) d" and "\<And>d. upd (\<lambda>x. x) d = d"
  shows "runs (for_each (insert_row tbl upd clash) rows) w
    (\<lambda>_ w'. w' = w\<lparr>db := upd (\<lambda>rs. rs @ rows) (db w)\<rparr> \<and> sorted_wrt (\<lambda>a b. \<not> clash b a) rows) (\<lambda>_ _. True)"
proof (induction rows rule: rev_induct)
  case Nil
  then show ?case by (simp add: runs_def assms(3))
next
  case (snoc row rows)
  have "runs (bnd (for_each (insert_row tbl upd clash) rows) (\<lambda>_. insert_row tbl upd clash row)) w
    (\<lambda>_ w'. w' = w\<lparr>db := upd (\<lambda>rs. rs @ rows @ [row]) (db w)\<rparr> \<and> sorted_wrt (\<lambda>a b. \<not> clash b a) (rows @ [row])) (\<lambda>_ _. True)"
    by (rule runs_seq [OF snoc], rule runs_insert_row) (auto simp: assms list_ex_iff sorted_wrt_append)
  then show ?case
    by (simp add: runs_def for_each_append bnd_def split: prod.splits sum.splits)
qed

definition permission_rows :: "uuid list \<Rightarrow> permission_row list" where
  "permission_rows is = List.map (\<lambda>((code, desc), i). \<lparr>pe_id = i, pe_code = code, pe_description = desc\<rparr>) (zip PERMISSIONS is)"

definition role_rows :: "uuid list \<Rightarrow> role_row list" where
  "role_rows is = List.map (\<lambda>((name, codes), i). \<lparr>ro_id = i, ro_name = name, ro_description = name @ '' role''\<rparr>) (zip ROLES is)"

definition link_rows :: "uuid list \<Rightarrow> uuid list \<Rightarrow> (uuid \<times> uuid) list" where
  "link_rows ps rs = concat (List.map (\<lambda>((name, codes), i).
     List.map (\<lambda>c. (i, the (map_of (zip (List.map fst PERMISSIONS) ps) c))) codes) (zip ROLES rs))"

lemma list5: "length xs = 5 \<longleftrightarrow> (\<exists>a b c d e. xs = [a, b, c, d, e])"
  by (auto simp: numeral_eq_Suc length_Suc_conv)

lemma list4: "length xs = 4 \<longleftrightarrow> (\<exists>a b c d. xs = [a, b, c, d])"
  by (auto simp: numeral_eq_Suc length_Suc_conv)

lemma runs_draw_ids:
  "runs (draw_ids E xs) w (\<lambda>r w'. \<exists>is. r = zip xs is \<and> length is = length xs \<and> db w' = db w \<and> committed w' = committed w) F"
proof (induction xs arbitrary: w)
  case Nil
  then show ?case by (simp add: runs_def)
next
  case (Cons x xs)
  have rest: "runs (bnd (draw_ids E xs) (\<lambda>is. ret ((x, i) # is))) v
     (\<lambda>r w'. \<exists>is. r = zip (x # xs) is \<and> length is = length (x # xs) \<and> db w' = db v \<and> committed w' = committed v) F" for i v
  proof (rule runs_seq [OF Cons], goal_cases)
    case (1 r v')
    then obtain js where "r = zip xs js" "length js = length xs" "db v' = db v" "committed v' = committed v" by auto
    then show ?case by (intro runs_ret exI [of _ "i # js"]) simp
  qed simp
  show ?case
    unfolding draw_ids.simps
    by (rule runs_bnd, rule runs_draw) (use rest [of "uuid4 E (draws w)" "w\<lparr>draws := Suc (draws w)\<rparr>"] in simp)
qed

lemma runs_migration_seed:
  assumes empty: "permissions (db w) = []" "roles (db w) = []" "role_permissions (db w) = []"
  shows "runs (migration_seed E) w
    (\<lambda>_ w'. \<exists>ps rs. length ps = 5 \<and> distinct ps \<and> length rs = 4 \<and> distinct rs \<and> committed w' = committed w \<and>
       db w' = (db w)\<lparr>permissions := permission_rows ps, roles := role_rows rs, role_permissions := link_rows ps rs\<rparr>) (\<lambda>_ _. True)"
proof -
  have lengths: "length (List.map fst PERMISSIONS) = 5" "length ROLES = 4"
    by (simp_all add: PERMISSIONS_def ROLES_def)
  have perms: "for_each (\<lambda>(code, desc). bnd (lift_sum (lookups (zip (List.map fst PERMISSIONS) is) [code])) (\<lambda>is.
            add_permission \<lparr>pe_id = hd is, pe_code = code, pe_description = desc\<rparr>)) PERMISSIONS =
      for_each (insert_row permissions permissions_update (\<lambda>r s. pe_id r = pe_id s \<or> pe_code r = pe_code s)) (permission_rows is)"
    if five: "length is = 5" for "is"
  proof -
    obtain a b c d e where "is": "is = [a, b, c, d, e]" using five by (auto simp: list5)
    show ?thesis
      unfolding for_each_zip [of PERMISSIONS "is", unfolded five, OF lengths(1) [simplified]] permission_rows_def for_each_map add_permission_def
      by (rule for_each_cong) (auto simp: PERMISSIONS_def "is")
  qed
  have links: "for_each (\<lambda>((name, codes), i). bnd (lift_sum (lookups (zip (List.map fst PERMISSIONS) ps) codes)) (\<lambda>ps.
       for_each (\<lambda>p. add_link (i, p)) ps)) (zip ROLES rs) =
      for_each (insert_row role_permissions role_permissions_update (\<lambda>r s. r = s)) (link_rows ps rs)"
    if five: "length ps = 5" for ps rs
  proof -
    obtain a b c d e where ps: "ps = [a, b, c, d, e]" using five by (auto simp: list5)
    have "lookups (zip (List.map fst PERMISSIONS) ps) codes =
        Inr (List.map (\<lambda>c. the (map_of (zip (List.map fst PERMISSIONS) ps) c)) codes)"
      if "set codes \<subseteq> set (List.map fst PERMISSIONS)" for codes
      using that by (induction codes) (auto simp: ps PERMISSIONS_def)
    then show ?thesis
      unfolding link_rows_def for_each_concat [symmetric]
      by (intro for_each_cong)
         (auto simp: for_each_map add_link_def [abs_def] dest!: set_zip_leftD codes_known)
  qed
  have roles: "for_each (\<lambda>((name, codes), i).
            add_role \<lparr>ro_id = i, ro_name = name, ro_description = name @ '' role''\<rparr>) (zip ROLES rs) =
      for_each (insert_row roles roles_update (\<lambda>r s. ro_id r = ro_id s \<or> ro_name r = ro_name s)) (role_rows rs)" for rs
    unfolding role_rows_def for_each_map add_role_def by (rule for_each_cong) auto
  have distinct_perms: "distinct ps" if "length ps = 5"
      "sorted_wrt (\<lambda>a b. \<not> (pe_id b = pe_id a \<or> pe_code b = pe_code a)) (permission_rows ps)" for ps
    using that by (auto simp: list5 permission_rows_def PERMISSIONS_def)
  have distinct_roles: "distinct rs" if "length rs = 4"
      "sorted_wrt (\<lambda>a b. \<not> (ro_id b = ro_id a \<or> ro_name b = ro_name a)) (role_rows rs)" for rs
    using that by (auto simp: list4 role_rows_def ROLES_def)
  have result: "role_permissions_update (\<lambda>x. x @ ls) (roles_update (\<lambda>x. x @ rs) (permissions_update (\<lambda>x. x @ ps) (db w))) =
      (db w)\<lparr>permissions := ps, roles := rs, role_permissions := ls\<rparr>" for ps rs ls
    by (rule database.equality) (simp_all add: empty)
  show ?thesis
    unfolding migration_seed_def
  proof (rule runs_seq [OF runs_draw_ids], goal_cases)
    case (1 pids w1)
    then obtain ps where ps: "pids = zip (List.map fst PERMISSIONS) ps" "length ps = 5" "db w1 = db w" "committed w1 = committed w"
      by (auto simp: lengths(1) [simplified])
    show ?case
      unfolding ps(1) perms [OF ps(2)] links [OF ps(2)]
    proof (rule runs_seq [OF runs_insert_rows], goal_cases)
      case (4 u w2)
      then have w2: "db w2 = permissions_update (\<lambda>rs. rs @ permission_rows ps) (db w)" "committed w2 = committed w"
          "distinct ps"
        using ps distinct_perms by auto
      show ?case
      proof (rule runs_seq [OF runs_draw_ids], goal_cases)
        case (1 rids w3)
        then obtain rs where rs: "rids = zip ROLES rs" "length rs = 4" "db w3 = db w2" "committed w3 = committed w2"
          by (auto simp: lengths(2))
        show ?case
          unfolding rs(1) roles
        proof (rule runs_seq [OF runs_insert_rows], goal_cases)
          case (4 u w4)
          then have w4: "db w4 = roles_update (\<lambda>x. x @ role_rows rs) (db w2)" "committed w4 = committed w" "distinct rs"
            using rs distinct_roles w2(2) by auto
          show ?case
            unfolding links [OF ps(2)]
          proof (rule runs_mono [OF runs_insert_rows], goal_cases)
            case (4 u w5)
            note last = 4
            show ?case
              by (rule exI [of _ ps], rule exI [of _ rs]) (use last w2 w4 rs(2) ps(2) result in auto)
          qed simp_all
        qed simp_all
      qed simp
    qed simp_all
  qed simp
qed

section \<open>The properties\<close>

lemma grants_set: "grants d r = set (List.map snd (filter (\<lambda>l. fst l = ro_id r) (role_permissions d)))"
  by (force simp: grants_def)

lemma coded_set: "coded d codes = set (List.map pe_id (filter (\<lambda>p. pe_code p \<in> set codes) (permissions d)))"
  by (auto simp: coded_def)

lemma link_rows_grants:
  assumes "length ps = 5" and "distinct ps" and "length rs = 4" and "distinct rs"
    and "d = d0\<lparr>permissions := permission_rows ps, roles := role_rows rs, role_permissions := link_rows ps rs\<rparr>"
  shows "seeded d"
proof -
  obtain a b c e f where ps: "ps = [a, b, c, e, f]" using assms(1) by (auto simp: list5)
  obtain p q r s where rs: "rs = [p, q, r, s]" using assms(3) by (auto simp: list4)
  have perms: "permissions d = permission_rows ps" and roles: "roles d = role_rows rs"
      and links: "role_permissions d = link_rows ps rs"
    by (simp_all add: assms(5))
  have "rbac_unique d"
    using assms(2,4) unfolding rbac_unique_def perms roles ps rs
    by (simp add: permission_rows_def role_rows_def PERMISSIONS_def ROLES_def)
  moreover have "set (List.map fst PERMISSIONS) \<subseteq> pe_code ` set (permissions d)"
    unfolding perms ps by (simp add: permission_rows_def PERMISSIONS_def)
  moreover have "p \<noteq> q" "p \<noteq> r" "p \<noteq> s" "q \<noteq> r" "q \<noteq> s" "r \<noteq> s"
    using assms(4) by (simp_all add: rs)
  then have "\<forall>entry \<in> set ROLES. entered d entry"
    by (simp add: entered_def grants_set coded_set perms roles links ps rs permission_rows_def role_rows_def
      link_rows_def PERMISSIONS_def ROLES_def)
  ultimately show ?thesis by (simp add: seeded_def)
qed

lemma beside_rbac_update [simp]:
  "beside_rbac (d\<lparr>permissions := ps, roles := rs, role_permissions := ls\<rparr>) = beside_rbac d"
  by (rule database.equality) (simp_all add: beside_rbac_def)


text \<open>
  C40. The first migration and \<open>seed_rbac\<close> write the same role model: on tables without roles and
  permissions the migration's own seeding, when it returns, leaves tables on which \<open>seed_rbac\<close> finds
  every entry of the role model and changes nothing; the other tables are untouched.
\<close>

theorem migration_seeds_model:
  assumes "permissions (db w) = []" and "roles (db w) = []" and "role_permissions (db w) = []"
    and "migration_seed E w = (Inr u, w')"
  shows "seeded (db w') \<and> beside_rbac (db w') = beside_rbac (db w) \<and>
    length (permissions (db w')) = length PERMISSIONS \<and> length (roles (db w')) = length ROLES \<and>
    seed_rbac E w' = (Inr (), w'\<lparr>committed := db w'\<rparr>)"
proof -
  obtain ps rs where rows: "length ps = 5" "distinct ps" "length rs = 4" "distinct rs"
      "db w' = (db w)\<lparr>permissions := permission_rows ps, roles := role_rows rs, role_permissions := link_rows ps rs\<rparr>"
    using runs_migration_seed [OF assms(1-3), of E] assms(4) by (auto simp: runs_def)
  have "seeded (db w')" by (rule link_rows_grants [OF rows])
  then show ?thesis
    using seed_seeded [of w' E] rows by (simp add: permission_rows_def role_rows_def PERMISSIONS_def ROLES_def)
qed

lemma sample_migration: "\<exists>w'. migration_seed sample_env sample_world = (Inr (), w')"
  by (simp add: migration_seed_def PERMISSIONS_def ROLES_def bnd_def ret_def draw_def
    add_permission_def add_role_def add_link_def insert_row_def db_query_def db_write_def)

lemma sample_seed: "\<exists>w'. seed_rbac sample_env sample_world = (Inr (), w')"
  by (simp add: seed_rbac_def PERMISSIONS_def ROLES_def bnd_def ret_def draw_def seed_permission_def get_by_code_def
    Let_def flush_def commit_def seed_role_def role_of_name_def get_by_name_def set_permissions_def
    add_permission_def add_role_def add_link_def insert_row_def db_query_def db_write_def)


theorem migration_seeds_model_witness:
  "\<exists>w'. migration_seed sample_env sample_world = (Inr (), w') \<and> seeded (db w') \<and>
    length (permissions (db w')) = 5 \<and> length (roles (db w')) = 4 \<and>
    seed_rbac sample_env w' = (Inr (), w'\<lparr>committed := db w'\<rparr>)"
proof -
  obtain w' where run: "migration_seed sample_env sample_world = (Inr (), w')" using sample_migration by auto
  have empty: "permissions (db sample_world) = []" "roles (db sample_world) = []" "role_permissions (db sample_world) = []"
    by simp_all
  from migration_seeds_model [OF empty run] show ?thesis
    using run by (intro exI [of _ w']) (simp add: PERMISSIONS_def ROLES_def)
qed

end
