(* ===== verification/Guid.thy ===== *)
theory Guid
  imports Uuid
begin

text \<open>
  The column type \<open>GUID\<close> of \<^verbatim>\<open>app/db/types.py\<close>, by which every primary and foreign key of the
  models is stored: a native UUID on PostgreSQL, its text in \<open>CHAR(36)\<close> on any other database. A value
  is what Python hands to the driver or gets from it: nothing, a \<open>uuid.UUID\<close>, or an object that is
  none, seen through its \<open>str\<close>. \<open>uuid.UUID(str(value))\<close> may raise \<open>ValueError\<close>, here \<open>None\<close>.
\<close>

datatype guid_value = GNone | GUuid uuid | GText string

datatype column_impl = PG_UUID | Char_N nat

definition load_dialect_impl :: "string \<Rightarrow> column_impl" where
  "load_dialect_impl dialect = (if dialect = ''postgresql'' then PG_UUID else Char_N 36)"

definition bind_uuid :: "string \<Rightarrow> uuid \<Rightarrow> guid_value" where
  "bind_uuid dialect u = (if dialect = ''postgresql'' then GUuid u else GText (uuid_str u))"

fun process_bind_param :: "guid_value \<Rightarrow> string \<Rightarrow> guid_value option" where
  "process_bind_param GNone dialect = Some GNone"
| "process_bind_param (GUuid u) dialect = Some (bind_uuid dialect u)"
| "process_bind_param (GText s) dialect = map_option (bind_uuid dialect) (uuid_of_str s)"

fun process_result_value :: "guid_value \<Rightarrow> guid_value option" where
  "process_result_value GNone = Some GNone"
| "process_result_value (GUuid u) = Some (GUuid u)"
| "process_result_value (GText s) = map_option GUuid (uuid_of_str s)"

text \<open>What a column of the type holds.\<close>

fun storable :: "column_impl \<Rightarrow> guid_value \<Rightarrow> bool" where
  "storable impl GNone \<longleftrightarrow> True"
| "storable impl (GUuid u) \<longleftrightarrow> impl = PG_UUID"
| "storable impl (GText s) \<longleftrightarrow> (\<exists>n. impl = Char_N n \<and> length s = n)"

lemma bind_uuid_stored [simp]:
  "storable (load_dialect_impl dialect) (bind_uuid dialect u)"
  "process_result_value (bind_uuid dialect u) = Some (GUuid u)"
  by (simp_all add: bind_uuid_def load_dialect_impl_def)

text \<open>
  Keys survive the database, whatever its dialect. A value that is a UUID, or text that
  \<open>uuid.UUID\<close> reads as one (any letter case, braces, hyphens or none), is bound to a value that fits
  the column exactly and is read back as that UUID; nothing is stored as nothing; text that is no
  UUID raises and is never stored; and no two UUIDs share a stored value.
\<close>

theorem guid_roundtrip:
  "process_bind_param GNone dialect = Some GNone \<and> process_result_value GNone = Some GNone \<and>
   (\<exists>stored. process_bind_param (GUuid u) dialect = Some stored \<and> storable (load_dialect_impl dialect) stored \<and>
      process_result_value stored = Some (GUuid u)) \<and>
   (case uuid_of_str s of
      None \<Rightarrow> process_bind_param (GText s) dialect = None
    | Some x \<Rightarrow> process_bind_param (GText s) dialect = process_bind_param (GUuid x) dialect) \<and>
   (process_bind_param (GUuid u) dialect = process_bind_param (GUuid v) dialect \<longleftrightarrow> u = v)"
  by (auto simp: bind_uuid_def load_dialect_impl_def split: option.splits)

end
