(* ===== verification/Spec2Isabelle.thy ===== *)
theory Spec2Isabelle
  imports Flows Access Logout Session_Machine Audit_Trail Once_Only Device Migrations Seed Guid
begin

text \<open>
  A model of the authentication server under \<^verbatim>\<open>src/backend\<close> (FastAPI, SQLAlchemy, Redis): its data, its
  services, its routes and middlewares, its schema with the migrations that create it, and the seeding of
  its roles. Paths below are relative to \<^verbatim>\<open>src/backend\<close>.

  \<^bold>\<open>How the server is put together.\<close> A request passes the limiter per client and the middleware that sets
  security headers (\<^verbatim>\<open>app/main.py\<close>), is dispatched by \<^verbatim>\<open>app/api/router.py\<close> and handled by a
  route of \<^verbatim>\<open>app/api/v1\<close> inside one database session (\<^verbatim>\<open>app/db/session.py\<close>: one commit at
  the end, a rollback if the route raises). The guards of \<^verbatim>\<open>app/dependencies/auth.py\<close> authenticate it by
  the access token in a cookie and by the session row the token is bound to, and check the CSRF token. The
  routes call the services of \<^verbatim>\<open>app/services\<close>, which use the repositories, Redis and, for mails, a task
  in the background. Exceptions become responses by the handlers of \<^verbatim>\<open>app/core/exceptions.py\<close>.

  \<^bold>\<open>State.\<close> \<open>world\<close> (theory \<open>State\<close>) holds the clock, a counter of draws from the random source, the
  store of Redis, the tables as the session of the request sees them (\<open>db\<close>) and as they are committed
  (\<open>committed\<close>), the background tasks, the audit log and the mails sent. A program (theory \<open>Program\<close>)
  maps a state to an exception or a value and the state after it; \<open>bnd\<close> is sequencing and \<open>try_except\<close>
  catches. A table is a list of records in the order of insertion, an identifier a 128-bit word, time a
  number of microseconds, as Python keeps it.

  \<^bold>\<open>What is a parameter.\<close> Redis is a record of commands of which the laws of the locale
  \<open>redis_service\<close> are assumed (its documented behaviour, any command may fail and then did nothing); a
  reference store with expiry and injected faults satisfies them, and every witness runs on it. The other
  libraries are fields of the record \<open>env\<close>, with hypotheses where a property needs them: \<open>jwt_sound\<close>
  (what was signed decodes until it expires), \<open>fernet_sound\<close>, \<open>pwd_sound\<close> and \<open>hashes_readable\<close>
  (Argon2), \<open>json_sound\<close>, \<open>rand_sound\<close>. \<open>sample_env\<close> (theory \<open>Sample\<close>) instantiates all of them
  with concrete functions.

  \<^bold>\<open>Theories and what they model.\<close>
  \<^item> \<open>Prelude\<close>, \<open>Program\<close>, \<open>Redis_Service\<close>, \<open>Redis_Client\<close>, \<open>Tables\<close>: the vocabulary. The
    predicate \<open>runs\<close> and its rules carry a pair of postconditions through a program; \<open>frame\<close> and the
    locales that extend it (\<open>world_frame\<close>, \<open>blind_frame\<close>, \<open>free_frame\<close>, \<open>commit_frame\<close>) prove once
    which relations between the states before and after survive every operation; \<open>redis_env\<close> gives each
    command of Redis its two outcomes; \<open>table_invariant\<close> lists all writes to the tables, and an
    invariant that survives them survives the server (\<open>unique_keys\<close>, \<open>session_closed\<close> and the
    session machine are its interpretations); \<open>unique_lookup\<close> is the contract of the queries by a key.
  \<^item> \<open>Errors\<close> (\<^verbatim>\<open>app/core/exceptions.py\<close>), \<open>Config\<close> (\<^verbatim>\<open>app/core/config.py\<close>),
    \<open>Uuid\<close>, \<open>Keys\<close> (the keys in Redis, which never collide), \<open>Http\<close> (requests, responses, cookies,
    client addresses), \<open>Security\<close> (passwords, signed claims, encryption), \<open>Device\<close> (user agent and
    location).
  \<^item> \<open>Rate_Limit\<close>, \<open>Token\<close>, \<open>Session_Service\<close>, \<open>Auth_Service\<close>, \<open>Two_Factor\<close>,
    \<open>Email_Account\<close>, \<open>OAuth_Providers\<close>, \<open>OAuth_Service\<close>, \<open>Notifications\<close>: the services, one
    definition per method, over \<open>Repositories\<close>. Each theory ends with the promises of its service.
  \<^item> \<open>Schemas\<close>, \<open>Dependencies\<close>, \<open>Auth_Routes\<close>, \<open>Account_Routes\<close>, \<open>App\<close>: the bodies, the
    guards, one definition per route, the dispatch, the unit of work and the middlewares. \<open>reachable\<close>
    are the states after any requests, passing time and changes of the store of Redis.
  \<^item> \<open>Server\<close>, \<open>Flows\<close>, \<open>Access\<close>, \<open>Logout\<close>: promises of the whole server: who is let in and
    who is refused, what a failed request leaves behind, CSRF, the second factor, log-in and log-out, theft of
    a refresh token, unique keys, and that every request is answered.
  \<^item> \<open>Session_Machine\<close>: an abstract specification of sessions (they begin open under fresh identifiers,
    may be closed once, nothing else) and the refinement: every run of the server is one of the machine.
  \<^item> \<open>Logging\<close> (\<^verbatim>\<open>app/core/logging.py\<close>) and \<open>Process\<close> (the shared Redis client, start and stop,
    the arguments of the engine): the line a record is printed as. \<open>Audit_Trail\<close>: \<open>world_frame\<close> admits
    audit entries with safe field names only, so every entry of every run is printed in full.
  \<^item> \<open>Concurrency\<close>, \<open>Concurrent_Failures\<close>, \<open>Once_Only\<close>: programs cut at their Redis commands, run
    alone equal to the sequential ones, and interleaved in any order. The limiter stays within its limit and
    no lock is lost; but a refresh token, a one-time password and the state of an authorization, each
    checked by one command and used up by a later one, are accepted twice when presented twice at once.
  \<^item> \<open>Catalogue\<close>, \<open>Migrations\<close>: the tables that the classes of \<^verbatim>\<open>app/models\<close> declare and the
    revisions of \<^verbatim>\<open>migrations/versions\<close>, as data over a specification of schema operations; they
    agree, every step is well typed and can be taken back.
  \<^item> \<open>Seed\<close>: the role model and both programs that write it, which agree and are idempotent.
    \<open>Guid\<close>: the column type of the keys (\<^verbatim>\<open>app/db/types.py\<close>).

  \<^bold>\<open>Bounds and fuel.\<close> All loops of the code run over finite lists and are structural recursion, so no fuel
  is needed and no definition is partial; the one recursion that is not structural, \<open>str.replace\<close>, has a
  measure. \<open>path_to_head\<close> walks the chain of revisions with the number of revisions as fuel, and that this
  is enough is part of the property on it. Attempts, waiting times and schedules in properties
  (\<open>attempts\<close>, \<open>failures\<close>, \<open>interleave\<close>) are arbitrary lists.

  \<^bold>\<open>Decisions.\<close> A request is handled at one instant; only \<open>Wait\<close>, \<open>tick\<close> and the steps between
  requests advance the clock. Requests follow one another, but for the theories on concurrency. Background tasks run after
  a successful route and before the commit, as FastAPI does since 0.118. Unique constraints raise when
  the row is written. Strings are ASCII, but for
  the CSRF tokens (\<open>compare_digest\<close>). The body of a request arrives with its fields present and of the right
  types, and identifiers in paths parsed (pydantic and Starlette do this). Instants in responses are given
  as microseconds.

  \<^bold>\<open>Not modelled.\<close> Log lines other than those of \<open>audit\<close> and of start and stop leave no trace. The
  construction of services for a request (\<^verbatim>\<open>app/dependencies/providers.py\<close>, they hold no state), the CORS
  middleware and the documentation pages of \<^verbatim>\<open>app/main.py\<close>, the engine itself
  (\<^verbatim>\<open>app/db/session.py\<close>) and Alembic's environment (\<^verbatim>\<open>migrations/env.py\<close>) are glue around
  libraries without logic of their own. Isolation between concurrent database sessions is that of the
  database and not modelled: the threads of the theories on concurrency read tables, but write none.
\<close>

end
